(* ===== verification/Prelude.thy ===== *)
theory Prelude
  imports Main "HOL-Library.Word" "HOL-Library.AList"
begin

text \<open>
  Shared vocabulary of the development: bytes and identifiers, the lemma collections the
  component theories fill, and the facts about association lists (the model of Go's
  \<^verbatim>\<open>map\<close> values that are iterated over) that every component uses.

  A Go map that the code ranges over is an association list with distinct keys. Lookup is
  \<open>map_of\<close>, assignment is \<open>AList.update\<close>, \<^verbatim>\<open>delete\<close> is \<open>AList.delete\<close>. The order in which
  \<^verbatim>\<open>range\<close> visits the keys is not the order of the list: it is a parameter wherever it matters.
\<close>

section \<open>Bytes and identifiers\<close>

type_synonym byte = "8 word"
type_synonym bytes = "byte list"
type_synonym document_id = string
type_synonym conn_id = nat
type_synonym conn_ref = nat
type_synonym actor_id = nat

named_theorems frame_simps "what an operation leaves unchanged"
named_theorems room_defs "the definitions of the room's handlers"

section \<open>Association lists\<close>

abbreviation keys :: "('k \<times> 'v) list \<Rightarrow> 'k list" where
  "keys xs \<equiv> map fst xs"

lemma map_of_update [simp]:
  "map_of (AList.update k v xs) k' = (if k' = k then Some v else map_of xs k')"
  by (simp add: AList.update_conv')

lemma map_of_delete [simp]:
  "map_of (AList.delete k xs) k' = (if k' = k then None else map_of xs k')"
  by (simp add: AList.delete_conv')

lemma keys_update [simp]:
  "keys (AList.update k v xs) = (if k \<in> set (keys xs) then keys xs else keys xs @ [k])"
  by (induction xs) auto

lemma image_keys_update [simp]: "fst ` set (AList.update k v xs) = insert k (fst ` set xs)"
  by (induction xs) auto

lemma distinct_keys_update: "distinct (keys xs) \<Longrightarrow> distinct (keys (AList.update k v xs))"
  by simp

lemma keys_delete: "keys (AList.delete k xs) = filter (\<lambda>k'. k' \<noteq> k) (keys xs)"
  by (induction xs) auto

lemma set_keys_delete [simp]: "set (keys (AList.delete k xs)) = set (keys xs) - {k}"
  by (auto simp: keys_delete)

lemmas image_keys_delete [simp] = set_keys_delete [unfolded set_map]

lemma distinct_keys_delete: "distinct (keys xs) \<Longrightarrow> distinct (keys (AList.delete k xs))"
  by (simp add: keys_delete)

lemma map_of_Some_keys: "map_of xs k = Some v \<Longrightarrow> k \<in> set (keys xs)"
  by (metis domI dom_map_of_conv_image_fst set_map)

lemma map_of_None_keys: "map_of xs k = None \<longleftrightarrow> k \<notin> set (keys xs)"
  by (simp add: map_of_eq_None_iff)

lemma length_delete_bound: "length (AList.delete k xs) \<le> length xs"
  by (induction xs) auto

lemma length_delete_lt: "k \<in> set (keys xs) \<Longrightarrow> length (AList.delete k xs) < length xs"
proof (induction xs)
  case (Cons x xs)
  then show ?case
    using length_delete_bound [of k xs] by (cases "fst x = k") (auto simp: image_iff less_Suc_eq_le Suc_le_eq)
qed simp

lemma length_update_present:
  "k \<in> set (keys xs) \<Longrightarrow> length (AList.update k v xs) = length xs"
  by (metis length_map keys_update)

text \<open>Counting the entries with a property, across an update or a deletion.\<close>

lemma delete_absent: "k \<notin> set (keys xs) \<Longrightarrow> AList.delete k xs = xs"
  by (induction xs) auto

lemma filter_delete_count:
  "distinct (keys xs) \<Longrightarrow> map_of xs k = Some v \<Longrightarrow>
     length (filter P (AList.delete k xs)) + (if P (k, v) then 1 else 0) = length (filter P xs)"
  by (induction xs) (auto simp: delete_absent split: if_splits)

lemma filter_update_count:
  "distinct (keys xs) \<Longrightarrow> map_of xs k = Some v \<Longrightarrow>
     length (filter P (AList.update k w xs)) + (if P (k, v) then 1 else 0) =
     length (filter P xs) + (if P (k, w) then 1 else 0)"
  by (induction xs) (auto split: if_splits)

lemma update_absent: "map_of xs k = None \<Longrightarrow> AList.update k v xs = xs @ [(k, v)]"
  by (induction xs) (auto split: if_splits)

end
