(* ===== verification/Control.thy ===== *)
theory Control
  imports Prelude
begin

text \<open>
  \<^verbatim>\<open>internal/domain/model/control.go\<close>, \<^verbatim>\<open>auth.go\<close>, \<^verbatim>\<open>collaborator_mode.go\<close> and \<^verbatim>\<open>document.go\<close>: the wire
  message types, the control messages with their JSON fields (\<^verbatim>\<open>omitempty\<close> included), the
  session-end table, identities and the metadata row. String-typed constants keep their wire
  literals.
\<close>

section \<open>Wire message types and control kinds\<close>

abbreviation WireSync :: nat where "WireSync \<equiv> 0"
abbreviation WireAwareness :: nat where "WireAwareness \<equiv> 1"
abbreviation WireEphemeral :: nat where "WireEphemeral \<equiv> 2"
abbreviation WireControl :: nat where "WireControl \<equiv> 3"
abbreviation WireDurabilityRequest :: nat where "WireDurabilityRequest \<equiv> 4"
abbreviation WireHeartbeat :: nat where "WireHeartbeat \<equiv> 5"

abbreviation ControlAdmission :: string where "ControlAdmission \<equiv> ''admission''"
abbreviation ControlSaved :: string where "ControlSaved \<equiv> ''saved''"
abbreviation ControlSaveError :: string where "ControlSaveError \<equiv> ''save-error''"
abbreviation ControlReadOnlyState :: string where "ControlReadOnlyState \<equiv> ''read-only-state''"
abbreviation ControlCollaboratorMode :: string where "ControlCollaboratorMode \<equiv> ''collaborator-mode''"
abbreviation ControlRoomUserChange :: string where "ControlRoomUserChange \<equiv> ''room-user-change''"
abbreviation ControlUpdateRejected :: string where "ControlUpdateRejected \<equiv> ''update-rejected''"
abbreviation ControlSessionEnd :: string where "ControlSessionEnd \<equiv> ''session-end''"
abbreviation ControlPersisted :: string where "ControlPersisted \<equiv> ''persisted''"
abbreviation ControlPersistFailed :: string where "ControlPersistFailed \<equiv> ''persist-failed''"

abbreviation AdmissionRead :: string where "AdmissionRead \<equiv> ''read''"
abbreviation AdmissionWrite :: string where "AdmissionWrite \<equiv> ''write''"

abbreviation ReasonNotAuthenticated :: string where "ReasonNotAuthenticated \<equiv> ''not-authenticated''"
abbreviation ReasonNotYetDurable :: string where "ReasonNotYetDurable \<equiv> ''not-yet-durable''"
abbreviation ReasonNoUpdateAccess :: string where "ReasonNoUpdateAccess \<equiv> ''no-update-access''"
abbreviation ReasonRoomCapacityReached :: string where "ReasonRoomCapacityReached \<equiv> ''room-capacity-reached''"
abbreviation ReasonMultiUserNotAllowed :: string where "ReasonMultiUserNotAllowed \<equiv> ''multi-user-not-allowed''"
abbreviation ReasonInactivity :: string where "ReasonInactivity \<equiv> ''inactivity''"

section \<open>Session ends\<close>

datatype SessionEndCode =
    CodeUpdateRateExceeded
  | CodeDocumentSizeLimitExceeded
  | CodeDocumentDeleted
  | CodeEditsNotSaved
  | CodeServerShutdown
  | CodeUpdateNotAccepted
  | CodeContentRefused
  | CodeForbidden

primrec code_literal :: "SessionEndCode \<Rightarrow> string" where
  "code_literal CodeUpdateRateExceeded = ''update-rate-exceeded''"
| "code_literal CodeDocumentSizeLimitExceeded = ''document-size-limit-exceeded''"
| "code_literal CodeDocumentDeleted = ''document-deleted''"
| "code_literal CodeEditsNotSaved = ''edits-not-saved''"
| "code_literal CodeServerShutdown = ''server-shutdown''"
| "code_literal CodeUpdateNotAccepted = ''update-not-accepted''"
| "code_literal CodeContentRefused = ''content-refused''"
| "code_literal CodeForbidden = ''forbidden''"

abbreviation ScopeMember :: string where "ScopeMember \<equiv> ''member''"
abbreviation ScopeDocument :: string where "ScopeDocument \<equiv> ''document''"

abbreviation DispositionTransient :: string where "DispositionTransient \<equiv> ''transient''"
abbreviation DispositionManual :: string where "DispositionManual \<equiv> ''manual''"
abbreviation DispositionTerminal :: string where "DispositionTerminal \<equiv> ''terminal''"

record SessionEnd =
  endCode :: string
  endScope :: string
  endDisposition :: string

definition table_row :: "SessionEndCode \<Rightarrow> string \<Rightarrow> string \<Rightarrow> string \<times> SessionEnd" where
  "table_row c scope disp =
     (code_literal c, \<lparr>endCode = code_literal c, endScope = scope, endDisposition = disp\<rparr>)"

definition sessionEndTable :: "(string \<times> SessionEnd) list" where
  "sessionEndTable =
     [table_row CodeUpdateRateExceeded ScopeMember DispositionTransient,
      table_row CodeDocumentSizeLimitExceeded ScopeMember DispositionManual,
      table_row CodeDocumentDeleted ScopeDocument DispositionTerminal,
      table_row CodeEditsNotSaved ScopeDocument DispositionTerminal,
      table_row CodeServerShutdown ScopeDocument DispositionTransient,
      table_row CodeUpdateNotAccepted ScopeMember DispositionTransient,
      table_row CodeContentRefused ScopeMember DispositionManual,
      table_row CodeForbidden ScopeMember DispositionTerminal]"

text \<open>\<open>None\<close> is the panic on a code outside the table.\<close>

definition NewSessionEnd :: "string \<Rightarrow> SessionEnd option" where
  "NewSessionEnd code = map_of sessionEndTable code"

text \<open>The codes in one of the orders in which Go may range over the table.\<close>

definition SessionEndCodes :: "string list" where
  "SessionEndCodes = map fst sessionEndTable"

text \<open>The emitters all name one of the declared constants: for those the lookup succeeds.\<close>

definition session_end :: "SessionEndCode \<Rightarrow> SessionEnd" where
  "session_end c = the (NewSessionEnd (code_literal c))"

section \<open>Control messages\<close>

record ControlMessage =
  Kind :: string
  RequestID :: string
  Version :: int
  ErrorText :: string
  ReadOnly :: "bool option"
  Reason :: string
  Mode :: string
  Users :: int
  Code :: string
  Scope :: string
  Disposition :: string

definition control :: "string \<Rightarrow> ControlMessage" where
  "control k = \<lparr>Kind = k, RequestID = '''', Version = 0, ErrorText = '''', ReadOnly = None, Reason = '''',
     Mode = '''', Users = 0, Code = '''', Scope = '''', Disposition = ''''\<rparr>"

definition end_control :: "SessionEnd \<Rightarrow> ControlMessage" where
  "end_control e = (control ControlSessionEnd)
     \<lparr>Code := endCode e, Scope := endScope e, Disposition := endDisposition e\<rparr>"

definition isReadOnly :: "ControlMessage \<Rightarrow> bool" where
  "isReadOnly m = (ReadOnly m \<noteq> None \<and> the (ReadOnly m))"

text \<open>A pointer to a fresh copy of the flag: there, whichever value it has.\<close>

definition ReadOnlyState :: "bool \<Rightarrow> bool option" where
  "ReadOnlyState b = Some b"

text \<open>
  The JSON object \<^verbatim>\<open>json.Marshal\<close> produces for a control message, as its ordered list of members:
  \<^verbatim>\<open>kind\<close> is always there, every other field is left out when it has its zero value, and a nil
  \<^verbatim>\<open>ReadOnly\<close> pointer is left out while a pointer to \<^verbatim>\<open>false\<close> is not.
\<close>

datatype json = JStr string | JInt int | JBool bool

definition omit_str :: "string \<Rightarrow> string \<Rightarrow> (string \<times> json) list" where
  "omit_str k v = (if v = '''' then [] else [(k, JStr v)])"

definition omit_int :: "string \<Rightarrow> int \<Rightarrow> (string \<times> json) list" where
  "omit_int k v = (if v = 0 then [] else [(k, JInt v)])"

definition omit_ptr :: "string \<Rightarrow> bool option \<Rightarrow> (string \<times> json) list" where
  "omit_ptr k v = (case v of None \<Rightarrow> [] | Some b \<Rightarrow> [(k, JBool b)])"

definition marshalControl :: "ControlMessage \<Rightarrow> (string \<times> json) list" where
  "marshalControl m =
     (''kind'', JStr (Kind m)) # omit_str ''requestId'' (RequestID m) @ omit_int ''version'' (Version m) @
     omit_str ''error'' (ErrorText m) @ omit_ptr ''readOnly'' (ReadOnly m) @ omit_str ''reason'' (Reason m) @
     omit_str ''mode'' (Mode m) @ omit_int ''users'' (Users m) @ omit_str ''code'' (Code m) @
     omit_str ''scope'' (Scope m) @ omit_str ''disposition'' (Disposition m)"

text \<open>What a client reads back: a missing member is the zero value.\<close>

definition get_str :: "(string \<times> json) list \<Rightarrow> string \<Rightarrow> string" where
  "get_str ob k = (case map_of ob k of Some (JStr s) \<Rightarrow> s | _ \<Rightarrow> '''')"

definition get_int :: "(string \<times> json) list \<Rightarrow> string \<Rightarrow> int" where
  "get_int ob k = (case map_of ob k of Some (JInt n) \<Rightarrow> n | _ \<Rightarrow> 0)"

definition get_ptr :: "(string \<times> json) list \<Rightarrow> string \<Rightarrow> bool option" where
  "get_ptr ob k = (case map_of ob k of Some (JBool b) \<Rightarrow> Some b | _ \<Rightarrow> None)"

definition unmarshalControl :: "(string \<times> json) list \<Rightarrow> ControlMessage" where
  "unmarshalControl ob = \<lparr>Kind = get_str ob ''kind'', RequestID = get_str ob ''requestId'', Version = get_int ob ''version'',
     ErrorText = get_str ob ''error'', ReadOnly = get_ptr ob ''readOnly'', Reason = get_str ob ''reason'',
     Mode = get_str ob ''mode'', Users = get_int ob ''users'', Code = get_str ob ''code'', Scope = get_str ob ''scope'',
     Disposition = get_str ob ''disposition''\<rparr>"

text \<open>
  An outbound frame is either a control message (a type-3 envelope around the object above) or
  bytes of the y-protocols channels, whose framing belongs to the protocol package. Marshalling a
  control message cannot fail (strings, integers and booleans only), so the nil result of
  \<^verbatim>\<open>encodeControl\<close> has no producer; the option keeps its branch.
\<close>

datatype frame = FControl ControlMessage | FRaw bytes

definition encodeControl :: "ControlMessage \<Rightarrow> frame option" where
  "encodeControl m = Some (FControl m)"

section \<open>Identities, privileges and the metadata row\<close>

text \<open>
  \<^verbatim>\<open>Identity.ActorID\<close> is a pointer to a UUID: \<open>None\<close> is the nil pointer (open mode) and \<open>Some 0\<close> the
  nil UUID, the anonymous principal.
\<close>

abbreviation uuidNil :: actor_id where
  "uuidNil \<equiv> 0"

type_synonym identity = "actor_id option"

datatype privilege = PrivilegeRead | PrivilegeUpdateContent

datatype collaboratorMode = ModeViewer | ModeCollaborator

primrec mode_literal :: "collaboratorMode \<Rightarrow> string" where
  "mode_literal ModeViewer = ''viewer''"
| "mode_literal ModeCollaborator = ''collaborator''"

abbreviation ContentTypeMemo :: string where "ContentTypeMemo \<equiv> ''memo''"
abbreviation ContentTypeWhiteboard :: string where "ContentTypeWhiteboard \<equiv> ''whiteboard''"

record Metadata =
  metaID :: document_id
  metaContentType :: string
  metaVersion :: int
  metaContentPointer :: string
  metaMigrated :: bool
  metaIsMultiUser :: "bool option"
  metaAuthorizationPolicyID :: string
  metaStorageBucketID :: string
  metaOwnerRef :: string
  metaCreatedAt :: int
  metaUpdatedAt :: int

definition emptyMetadata :: Metadata where
  "emptyMetadata = \<lparr>metaID = '''', metaContentType = '''', metaVersion = 0, metaContentPointer = '''',
     metaMigrated = False, metaIsMultiUser = None, metaAuthorizationPolicyID = '''',
     metaStorageBucketID = '''', metaOwnerRef = '''', metaCreatedAt = 0, metaUpdatedAt = 0\<rparr>"

section \<open>Facts\<close>

lemmas session_end_defs = session_end_def NewSessionEnd_def sessionEndTable_def table_row_def

lemma session_end_code [simp]: "endCode (session_end c) = code_literal c"
  by (cases c) (simp_all add: session_end_defs)

lemma session_end_total: "NewSessionEnd (code_literal c) = Some (session_end c)"
  by (cases c) (simp_all add: session_end_defs)

lemma code_literal_inject [simp]: "code_literal c = code_literal d \<longleftrightarrow> c = d"
  by (cases c; cases d) simp_all

lemma session_end_inject [simp]: "session_end c = session_end d \<longleftrightarrow> c = d"
  by (metis session_end_code code_literal_inject)

lemma SessionEndCodes_exhaustive:
  "set SessionEndCodes = range code_literal" "distinct SessionEndCodes"
  "NewSessionEnd code = None \<longleftrightarrow> code \<notin> set SessionEndCodes"
proof -
  have "range code_literal = code_literal ` {CodeUpdateRateExceeded, CodeDocumentSizeLimitExceeded, CodeDocumentDeleted,
      CodeEditsNotSaved, CodeServerShutdown, CodeUpdateNotAccepted, CodeContentRefused, CodeForbidden}"
    by (rule arg_cong [where f = "image code_literal"]) (use SessionEndCode.exhaust in auto)
  then show "set SessionEndCodes = range code_literal" by (simp add: SessionEndCodes_def session_end_defs)
qed (simp_all add: SessionEndCodes_def NewSessionEnd_def sessionEndTable_def table_row_def map_of_eq_None_iff)

lemma read_only_state_explicit: "isReadOnly (m\<lparr>ReadOnly := ReadOnlyState b\<rparr>) = b"
  by (simp add: isReadOnly_def ReadOnlyState_def)

lemma end_control_kind [simp]: "Kind (end_control e) = ControlSessionEnd"
  by (simp add: end_control_def control_def)

lemma control_simps [simp]:
  "Kind (control k) = k" "RequestID (control k) = ''''" "ReadOnly (control k) = None"
  "Code (control k) = ''''" "Mode (control k) = ''''" "Reason (control k) = ''''"
  by (simp_all add: control_def)

lemma encodeControl_Some [simp]: "encodeControl m = Some (FControl m)"
  by (simp add: encodeControl_def)

lemmas omit_defs = omit_str_def omit_int_def omit_ptr_def

lemma keys_marshal:
  "map_of (omit_str k v) k' = (if k' = k \<and> v \<noteq> '''' then Some (JStr v) else None)"
  "map_of (omit_int k n) k' = (if k' = k \<and> n \<noteq> 0 then Some (JInt n) else None)"
  "map_of (omit_ptr k p) k' = (if k' = k then map_option JBool p else None)"
  by (simp_all add: omit_defs split: option.splits)

section \<open>Properties\<close>

text \<open>
  A control message survives its JSON encoding. Reading back the object that
  \<^verbatim>\<open>json.Marshal\<close> writes, with every omitted field taken as its zero value, gives the message that
  was encoded; in particular a read-only state that was set to false is not lost to \<^verbatim>\<open>omitempty\<close>.
\<close>

theorem control_roundtrip: "unmarshalControl (marshalControl m) = m"
proof -
  have "get_str (marshalControl m) ''kind'' = Kind m" by (simp add: get_str_def marshalControl_def)
  moreover have "get_str (marshalControl m) ''requestId'' = RequestID m"
    by (simp add: get_str_def marshalControl_def map_add_def keys_marshal split: option.splits)
  moreover have "get_int (marshalControl m) ''version'' = Version m"
    by (simp add: get_int_def marshalControl_def map_add_def keys_marshal split: option.splits)
  moreover have "get_str (marshalControl m) ''error'' = ErrorText m"
    by (simp add: get_str_def marshalControl_def map_add_def keys_marshal split: option.splits)
  moreover have "get_ptr (marshalControl m) ''readOnly'' = ReadOnly m"
    by (simp add: get_ptr_def marshalControl_def map_add_def keys_marshal split: option.splits)
  moreover have "get_str (marshalControl m) ''reason'' = Reason m"
    by (simp add: get_str_def marshalControl_def map_add_def keys_marshal split: option.splits)
  moreover have "get_str (marshalControl m) ''mode'' = Mode m"
    by (simp add: get_str_def marshalControl_def map_add_def keys_marshal split: option.splits)
  moreover have "get_int (marshalControl m) ''users'' = Users m"
    by (simp add: get_int_def marshalControl_def map_add_def keys_marshal split: option.splits)
  moreover have "get_str (marshalControl m) ''code'' = Code m"
    by (simp add: get_str_def marshalControl_def map_add_def keys_marshal split: option.splits)
  moreover have "get_str (marshalControl m) ''scope'' = Scope m"
    by (simp add: get_str_def marshalControl_def map_add_def keys_marshal split: option.splits)
  moreover have "get_str (marshalControl m) ''disposition'' = Disposition m"
    by (simp add: get_str_def marshalControl_def map_add_def keys_marshal split: option.splits)
  ultimately show ?thesis by (simp add: unmarshalControl_def)
qed

end
