(* ===== verification/TokenBucket.thy ===== *)
theory TokenBucket
  imports Prelude Complex_Main
begin

text \<open>
  \<^verbatim>\<open>internal/domain/service/limits.go\<close>: the per-connection token bucket. Times are nanoseconds
  (\<^verbatim>\<open>time.Time\<close> differences), \<open>now\<close> is what the bucket's clock returns. The \<^verbatim>\<open>float64\<close> token count
  is an exact rational here: rounding of the refill product is not modelled.
\<close>

record tokenBucket =
  rate :: rat
  burst :: rat
  tokens :: rat
  last_refill :: int

definition seconds :: "int \<Rightarrow> rat" where
  "seconds d = of_int d / 1000000000"

definition newTokenBucket :: "int \<Rightarrow> int \<Rightarrow> int \<Rightarrow> tokenBucket" where
  "newTokenBucket ratePerSec burst0 now =
     (let b = (if burst0 \<le> 0 then of_int ratePerSec else of_int burst0)
      in \<lparr>rate = of_int ratePerSec, burst = b, tokens = b, last_refill = now\<rparr>)"

definition refill :: "int \<Rightarrow> tokenBucket \<Rightarrow> tokenBucket" where
  "refill now b =
     (let elapsed = seconds (now - last_refill b)
      in if elapsed > 0
         then b\<lparr>tokens := min (burst b) (tokens b + elapsed * rate b), last_refill := now\<rparr>
         else b)"

definition allow :: "int \<Rightarrow> tokenBucket \<Rightarrow> bool \<times> tokenBucket" where
  "allow now b =
     (if rate b \<le> 0 then (True, b)
      else let b1 = refill now b
           in if tokens b1 \<ge> 1 then (True, b1\<lparr>tokens := tokens b1 - 1\<rparr>) else (False, b1))"

text \<open>A run of the limiter: the clock readings of successive calls, and how many were admitted.\<close>

fun allow_all :: "int list \<Rightarrow> tokenBucket \<Rightarrow> nat \<times> tokenBucket" where
  "allow_all [] b = (0, b)"
| "allow_all (t # ts) b =
     (let (ok, b1) = allow t b; (n, b2) = allow_all ts b1
      in ((if ok then Suc n else n), b2))"

definition bucket_ok :: "tokenBucket \<Rightarrow> bool" where
  "bucket_ok b \<longleftrightarrow> 0 \<le> tokens b \<and> tokens b \<le> burst b"

section \<open>One call\<close>

lemma seconds_pos [simp]: "0 < seconds d \<longleftrightarrow> 0 < d"
  by (simp add: seconds_def)

lemma seconds_add: "seconds (a + b) = seconds a + seconds b"
  by (simp add: seconds_def add_divide_distrib)

lemma refill_frame [simp]: "rate (refill now b) = rate b" "burst (refill now b) = burst b"
  by (auto simp: refill_def Let_def)

lemma allow_frame [simp]:
  "rate (snd (allow now b)) = rate b" "burst (snd (allow now b)) = burst b"
  by (auto simp: allow_def Let_def)

lemma refill_ok: "bucket_ok b \<Longrightarrow> 0 < rate b \<Longrightarrow> bucket_ok (refill now b)"
proof -
  assume ok: "bucket_ok b" and r: "0 < rate b"
  have "0 \<le> seconds d * rate b" if "0 < d" for d
    using that r by (simp add: seconds_def)
  with ok show ?thesis
    by (auto simp: refill_def Let_def bucket_ok_def add_nonneg_nonneg)
qed

lemma allow_ok: "bucket_ok b \<Longrightarrow> bucket_ok (snd (allow now b))"
  using refill_ok [of b now] by (auto simp: allow_def Let_def bucket_ok_def)

lemma newTokenBucket_ok: "0 \<le> r \<Longrightarrow> bucket_ok (newTokenBucket r n now)"
  by (auto simp: newTokenBucket_def bucket_ok_def Let_def)

lemma refill_spend:
  "0 < rate b \<Longrightarrow>
     tokens (refill now b) + rate b * seconds (last_refill b) \<le>
     tokens b + rate b * seconds (last_refill (refill now b))"
  by (auto simp: refill_def Let_def seconds_def algebra_simps diff_divide_distrib add_divide_distrib min_def)

lemma allow_spend:
  "0 < rate b \<Longrightarrow>
     (if fst (allow now b) then 1 else 0) + tokens (snd (allow now b)) + rate b * seconds (last_refill b) \<le>
     tokens b + rate b * seconds (last_refill (snd (allow now b)))"
  using refill_spend [of b now] by (auto simp: allow_def Let_def)

section \<open>Any run\<close>

lemma allow_all_ok: "bucket_ok b \<Longrightarrow> bucket_ok (snd (allow_all ts b))"
proof (induction ts arbitrary: b)
  case (Cons t ts)
  then show ?case
    using allow_ok [of b t] by (fastforce simp: Let_def split: prod.splits)
qed simp

lemma allow_all_spend:
  "0 < rate b \<Longrightarrow>
     of_nat (fst (allow_all ts b)) + tokens (snd (allow_all ts b)) + rate b * seconds (last_refill b) \<le>
     tokens b + rate b * seconds (last_refill (snd (allow_all ts b)))"
proof (induction ts arbitrary: b)
  case (Cons t ts)
  obtain ok b1 where step: "allow t b = (ok, b1)" by fastforce
  have "rate b1 = rate b" using step allow_frame(1) [of t b] by simp
  with Cons have "of_nat (fst (allow_all ts b1)) + tokens (snd (allow_all ts b1)) + rate b * seconds (last_refill b1)
      \<le> tokens b1 + rate b * seconds (last_refill (snd (allow_all ts b1)))" by metis
  moreover from Cons.prems step have
    "(if ok then 1 else 0) + tokens b1 + rate b * seconds (last_refill b) \<le> tokens b + rate b * seconds (last_refill b1)"
    using allow_spend [of b t] by simp
  ultimately show ?case
    using step by (auto simp: Let_def split: prod.splits)
qed simp

lemma allow_last: "t \<le> u \<Longrightarrow> last_refill b \<le> u \<Longrightarrow> last_refill (snd (allow t b)) \<le> u"
  by (auto simp: allow_def refill_def Let_def)

lemma allow_all_last:
  "\<forall>t \<in> set ts. t \<le> u \<Longrightarrow> last_refill b \<le> u \<Longrightarrow> last_refill (snd (allow_all ts b)) \<le> u"
proof (induction ts arbitrary: b)
  case (Cons t ts)
  then show ?case
    using Cons.IH [of "snd (allow t b)"] allow_last [of t u b] by (simp add: Let_def case_prod_beta)
qed simp

lemma refill_tokens: "bucket_ok b \<Longrightarrow> 0 < rate b \<Longrightarrow> tokens b \<le> tokens (refill t b)"
  by (auto simp: refill_def Let_def bucket_ok_def seconds_def)

lemma allow_all_admits:
  "bucket_ok b \<Longrightarrow> of_nat (length ts) \<le> tokens b \<Longrightarrow> fst (allow_all ts b) = length ts"
proof (induction ts arbitrary: b)
  case (Cons t ts)
  have "fst (allow t b) \<and> of_nat (length ts) \<le> tokens (snd (allow t b))"
  proof (cases "rate b \<le> 0")
    case False
    then have "1 + of_nat (length ts) \<le> tokens (refill t b)"
      using Cons.prems refill_tokens [of b t] by simp
    then show ?thesis using False by (simp add: allow_def Let_def algebra_simps)
  qed (use Cons.prems in \<open>simp add: allow_def\<close>)
  with Cons allow_ok [of b t] show ?case by (simp add: Let_def case_prod_beta)
qed simp

lemma allow_all_off: "rate b \<le> 0 \<Longrightarrow> allow_all ts b = (length ts, b)"
  by (induction ts) (auto simp: allow_def)

section \<open>Properties\<close>

text \<open>
  C39: the rate limit. A connection whose bucket was made with rate \<open>r\<close> and burst \<open>n\<close> at time \<open>t0\<close>
  has at most \<open>n + r\<close> per elapsed second admitted by any time \<open>u\<close>, in whatever order the clock
  readings come; the first \<open>n\<close> messages are all admitted, however close together; and a
  non-positive rate admits everything.
\<close>

theorem token_bucket_rate:
  assumes "\<forall>t \<in> set ts. t \<le> u" and "t0 \<le> u" and "0 < n"
  shows "(0 < r \<longrightarrow> of_nat (fst (allow_all ts (newTokenBucket r n t0))) \<le> of_int n + of_int r * seconds (u - t0)) \<and>
    (0 < r \<longrightarrow> int (length ts) \<le> n \<longrightarrow> fst (allow_all ts (newTokenBucket r n t0)) = length ts) \<and>
    (r \<le> 0 \<longrightarrow> fst (allow_all ts (newTokenBucket r n t0)) = length ts)"
proof (intro conjI impI)
  let ?b = "newTokenBucket r n t0"
  have b: "rate ?b = of_int r" "tokens ?b = of_int n" "last_refill ?b = t0"
    using assms(3) by (simp_all add: newTokenBucket_def Let_def)
  show "of_nat (fst (allow_all ts ?b)) \<le> of_int n + of_int r * seconds (u - t0)" if r: "0 < r"
  proof -
    let ?f = "snd (allow_all ts ?b)"
    have "0 \<le> tokens ?f"
      using allow_all_ok [OF newTokenBucket_ok [of r n t0], of ts] r by (simp add: bucket_ok_def)
    moreover have "last_refill ?f \<le> u" using allow_all_last [OF assms(1)] assms(2) b by simp
    then have "of_int r * seconds (last_refill ?f) \<le> of_int r * seconds u"
      using r by (simp add: seconds_def divide_right_mono mult_left_mono)
    moreover have "of_nat (fst (allow_all ts ?b)) + tokens ?f + of_int r * seconds t0 \<le>
        of_int n + of_int r * seconds (last_refill ?f)"
      using allow_all_spend [of ?b ts] r b by simp
    moreover have "of_int r * seconds (u - t0) = of_int r * seconds u - of_int r * seconds t0"
      by (simp add: seconds_def diff_divide_distrib right_diff_distrib)
    ultimately show ?thesis by linarith
  qed
  show "fst (allow_all ts ?b) = length ts" if "0 < r" "int (length ts) \<le> n"
  proof (rule allow_all_admits)
    show "bucket_ok ?b" using that by (simp add: newTokenBucket_ok)
    have "(of_int (int (length ts)) :: rat) \<le> of_int n" using that(2) by (simp only: of_int_le_iff)
    then show "of_nat (length ts) \<le> tokens ?b" using b by simp
  qed
  show "fst (allow_all ts ?b) = length ts" if "r \<le> 0"
    using that b by (simp add: allow_all_off)
qed

text \<open>Two per second with a burst of two: of four calls in the first half second, three pass.\<close>

theorem token_bucket_rate_witness:
  "fst (allow_all [0, 0, 0, 500000000] (newTokenBucket 2 2 0)) = 3 \<and>
     (of_nat (fst (allow_all [0, 0, 0, 500000000] (newTokenBucket 2 2 0))) :: rat) \<le> 2 + 2 * seconds 500000000"
proof -
  have "fst (allow_all [0, 0, 0, 500000000] (newTokenBucket 2 2 0)) = 3"
    by (simp add: allow_def refill_def newTokenBucket_def seconds_def Let_def)
  then show ?thesis
    using token_bucket_rate [of "[0, 0, 0, 500000000]" 500000000 0 2 2] by simp
qed

end
