(* ===== verification/Lifecycle.thy ===== *)
theory Lifecycle
  imports Prelude
begin

text \<open>
  \<^verbatim>\<open>internal/domain/service/lifecycle_state.go\<close>: the lifecycle of a room. The state is one atomic
  integer moved by compare-and-swap. The sequential operations are functions that return the
  CAS outcome and the new state; the interleaving of the goroutines that race for the teardown
  is the step relation \<open>lc_step\<close>, in which a load and a CAS of \<^verbatim>\<open>beginTeardown\<close> are two steps.
\<close>

section \<open>States and edges\<close>

datatype roomState = stateMaterializing | stateActive | stateDraining | stateClosed

fun legalTransition :: "roomState \<Rightarrow> roomState \<Rightarrow> bool" where
  "legalTransition stateMaterializing to = (to = stateActive \<or> to = stateDraining)"
| "legalTransition stateActive to = (to = stateDraining)"
| "legalTransition stateDraining to = (to = stateClosed)"
| "legalTransition stateClosed to = False"

definition compareAndSwap :: "roomState \<Rightarrow> roomState \<Rightarrow> roomState \<Rightarrow> bool \<times> roomState" where
  "compareAndSwap old new s = (if s = old then (True, new) else (False, s))"

definition lc_transition :: "roomState \<Rightarrow> roomState \<Rightarrow> roomState \<Rightarrow> bool \<times> roomState" where
  "lc_transition from to s =
     (if \<not> legalTransition from to then (False, s) else compareAndSwap from to s)"

definition activate :: "roomState \<Rightarrow> bool \<times> roomState" where
  "activate = lc_transition stateMaterializing stateActive"

definition finishDraining :: "roomState \<Rightarrow> bool \<times> roomState" where
  "finishDraining = lc_transition stateDraining stateClosed"

text \<open>
  One iteration of \<^verbatim>\<open>beginTeardown\<close>'s loop: the value \<open>seen\<close> was loaded, \<open>s\<close> is the state when the
  CAS runs. \<open>None\<close> is "go round again". Without interference (\<open>seen = s\<close>) the loop ends at once,
  which is \<open>beginTeardown\<close>.
\<close>

definition beginTeardown_iter :: "roomState \<Rightarrow> roomState \<Rightarrow> bool option \<times> roomState" where
  "beginTeardown_iter seen s =
     (if seen = stateDraining \<or> seen = stateClosed then (Some False, s)
      else case compareAndSwap seen stateDraining s of
             (True, s') \<Rightarrow> (Some True, s')
           | (False, s') \<Rightarrow> (None, s'))"

definition beginTeardown :: "roomState \<Rightarrow> bool \<times> roomState" where
  "beginTeardown s = (if s = stateDraining \<or> s = stateClosed then (False, s) else (True, stateDraining))"

fun rank :: "roomState \<Rightarrow> nat" where
  "rank stateMaterializing = 0"
| "rank stateActive = 1"
| "rank stateDraining = 2"
| "rank stateClosed = 3"

section \<open>Racing goroutines\<close>

text \<open>
  \<open>pcs i\<close> is where goroutine \<open>i\<close> stands in \<^verbatim>\<open>beginTeardown\<close>: not called or about to load again
  (\<open>Start\<close>), holding a loaded value (\<open>Loaded\<close>), returned true (\<open>Won\<close>) or false (\<open>Lost\<close>).
  \<open>tries i\<close> counts its failed CAS attempts.
\<close>

datatype pc = Start | Loaded roomState | Won | Lost

record lc_sys =
  lcst :: roomState
  pcs :: "nat \<Rightarrow> pc"
  tries :: "nat \<Rightarrow> nat"

definition lc_init :: lc_sys where
  "lc_init = \<lparr>lcst = stateMaterializing, pcs = (\<lambda>_. Start), tries = (\<lambda>_. 0)\<rparr>"

definition after_iter :: "nat \<Rightarrow> roomState \<Rightarrow> lc_sys \<Rightarrow> lc_sys" where
  "after_iter i seen c =
     (case beginTeardown_iter seen (lcst c) of
        (Some True, s') \<Rightarrow> c\<lparr>lcst := s', pcs := (pcs c)(i := Won)\<rparr>
      | (Some False, s') \<Rightarrow> c\<lparr>lcst := s', pcs := (pcs c)(i := Lost)\<rparr>
      | (None, s') \<Rightarrow> c\<lparr>lcst := s', pcs := (pcs c)(i := Start), tries := (tries c)(i := Suc (tries c i))\<rparr>)"

inductive lc_step :: "lc_sys \<Rightarrow> lc_sys \<Rightarrow> bool" where
  serve: "lc_step c (c\<lparr>lcst := snd (activate (lcst c))\<rparr>)"
| load: "pcs c i = Start \<Longrightarrow> lc_step c (c\<lparr>pcs := (pcs c)(i := Loaded (lcst c))\<rparr>)"
| cas: "pcs c i = Loaded seen \<Longrightarrow> lc_step c (after_iter i seen c)"
| finish: "pcs c i = Won \<Longrightarrow> lc_step c (c\<lparr>lcst := snd (finishDraining (lcst c))\<rparr>)"

inductive lc_reachable :: "lc_sys \<Rightarrow> bool" where
  lc_start: "lc_reachable lc_init"
| lc_next: "lc_reachable c \<Longrightarrow> lc_step c c' \<Longrightarrow> lc_reachable c'"

section \<open>Sequential behaviour\<close>

lemma transition_legal:
  "lc_transition from to s = (True, s') \<Longrightarrow> legalTransition from to \<and> s = from \<and> s' = to"
  by (auto simp: lc_transition_def compareAndSwap_def split: if_splits)

lemma transition_refused: "lc_transition from to s = (False, s') \<Longrightarrow> s' = s"
  by (auto simp: lc_transition_def compareAndSwap_def split: if_splits)

lemma legal_rank: "legalTransition a b \<Longrightarrow> rank a < rank b"
  by (cases a) auto

lemma closed_terminal: "\<not> legalTransition stateClosed s"
  by simp

lemma beginTeardown_twice:
  "beginTeardown s = (b, s') \<Longrightarrow> beginTeardown s' = (False, s')"
  by (auto simp: beginTeardown_def split: if_splits)

lemma beginTeardown_True_iff:
  "fst (beginTeardown s) \<longleftrightarrow> s = stateMaterializing \<or> s = stateActive"
  by (cases s) (auto simp: beginTeardown_def)

lemma beginTeardown_iter_self:
  "beginTeardown_iter s s = (Some (fst (beginTeardown s)), snd (beginTeardown s))"
  by (cases s) (auto simp: beginTeardown_iter_def beginTeardown_def compareAndSwap_def)

section \<open>The race\<close>

text \<open>
  The invariant ties the state to the winner: there is a winner exactly when the room is
  draining or closed, there is at most one, and a goroutine that has failed \<open>k\<close> times has seen
  the state advance \<open>k\<close> times.
\<close>

definition winners :: "lc_sys \<Rightarrow> nat set" where
  "winners c = {i. pcs c i = Won}"

definition lc_inv :: "lc_sys \<Rightarrow> bool" where
  "lc_inv c \<longleftrightarrow>
     (if rank (lcst c) < 2 then winners c = {} else \<exists>i. winners c = {i}) \<and>
     (\<forall>i. tries c i \<le> min 2 (rank (lcst c))) \<and>
     (\<forall>i s. pcs c i = Loaded s \<longrightarrow> tries c i \<le> rank s \<and> rank s \<le> rank (lcst c)) \<and>
     (\<forall>i. pcs c i = Lost \<longrightarrow> 2 \<le> rank (lcst c))"

lemma winners_simps [simp]:
  "winners (c\<lparr>lcst := s\<rparr>) = winners c"
  "winners (c\<lparr>tries := t\<rparr>) = winners c"
  "winners (c\<lparr>lcst := s, pcs := p\<rparr>) = winners (c\<lparr>pcs := p\<rparr>)"
  "winners (c\<lparr>pcs := p, tries := t\<rparr>) = winners (c\<lparr>pcs := p\<rparr>)"
  by (simp_all add: winners_def)

lemma winners_upd:
  "pcs c i \<noteq> Won \<Longrightarrow>
     winners (c\<lparr>pcs := (pcs c)(i := p)\<rparr>) = (if p = Won then insert i (winners c) else winners c)"
  by (auto simp: winners_def)

lemma lc_inv_init: "lc_inv lc_init"
  by (simp add: lc_inv_def lc_init_def winners_def)

lemma rank_inject: "rank a = rank b \<longleftrightarrow> a = b"
  by (cases a; cases b) auto

lemma lc_inv_advance:
  assumes "lc_inv c" "rank (lcst c) \<le> rank s" "rank (lcst c) < 2 \<longleftrightarrow> rank s < 2"
  shows "lc_inv (c\<lparr>lcst := s\<rparr>)"
proof -
  have "tries c i \<le> min 2 (rank s)" for i
    using assms(1,2) by (auto simp: lc_inv_def dest: spec [of _ i])
  moreover have "tries c i \<le> rank s' \<and> rank s' \<le> rank s" if "pcs c i = Loaded s'" for i s'
    using assms(1,2) that by (auto simp: lc_inv_def intro: order_trans)
  moreover have "2 \<le> rank s" if "pcs c i = Lost" for i
    using assms(1,2) that by (auto simp: lc_inv_def intro: order_trans)
  ultimately show ?thesis
    using assms(1,3) by (simp add: lc_inv_def)
qed

lemma lc_inv_serve: "lc_inv c \<Longrightarrow> lc_inv (c\<lparr>lcst := snd (activate (lcst c))\<rparr>)"
  by (cases "lcst c")
    (simp_all add: lc_inv_advance activate_def lc_transition_def compareAndSwap_def)

lemma lc_inv_finish:
  "lc_inv c \<Longrightarrow> lc_inv (c\<lparr>lcst := snd (finishDraining (lcst c))\<rparr>)"
  by (cases "lcst c")
    (simp_all add: lc_inv_advance finishDraining_def lc_transition_def compareAndSwap_def)

lemma lc_inv_load:
  "lc_inv c \<Longrightarrow> pcs c i = Start \<Longrightarrow> lc_inv (c\<lparr>pcs := (pcs c)(i := Loaded (lcst c))\<rparr>)"
  by (auto simp: lc_inv_def winners_upd)

lemma after_iter_cases:
  assumes "pcs c i = Loaded seen"
  obtains (lost) "seen = stateDraining \<or> seen = stateClosed"
        "after_iter i seen c = c\<lparr>pcs := (pcs c)(i := Lost)\<rparr>"
    | (won) "rank seen < 2" "lcst c = seen"
        "after_iter i seen c = c\<lparr>lcst := stateDraining, pcs := (pcs c)(i := Won)\<rparr>"
    | (again) "rank seen < 2" "lcst c \<noteq> seen"
        "after_iter i seen c =
           c\<lparr>pcs := (pcs c)(i := Start), tries := (tries c)(i := Suc (tries c i))\<rparr>"
  using assms
  by (cases seen)
    (auto simp: after_iter_def beginTeardown_iter_def compareAndSwap_def split: if_splits)

lemma lc_inv_cas:
  assumes inv: "lc_inv c" and pc: "pcs c i = Loaded seen"
  shows "lc_inv (after_iter i seen c)"
  using pc
proof (cases rule: after_iter_cases)
  case lost
  then have "2 \<le> rank seen" by auto
  moreover have "rank seen \<le> rank (lcst c)" using inv pc by (auto simp: lc_inv_def)
  ultimately have "2 \<le> rank (lcst c)" by (rule order_trans)
  with inv pc show ?thesis unfolding lost(2) by (simp add: lc_inv_def winners_upd)
next
  case won
  with inv have none: "winners c = {}" by (simp add: lc_inv_def)
  have tr: "tries c j \<le> 2" for j using inv by (simp add: lc_inv_def)
  have "rank s \<le> 2 \<and> tries c j \<le> rank s" if "pcs c j = Loaded s" for j s
    using inv won that by (force simp: lc_inv_def)
  with won none pc tr show ?thesis
    by (simp add: lc_inv_def winners_upd)
next
  case again
  from inv pc have le: "rank seen \<le> rank (lcst c)" "tries c i \<le> rank seen"
    by (auto simp: lc_inv_def)
  with again have "rank seen < rank (lcst c)"
    using rank_inject [of seen "lcst c"] by (auto simp: le_less)
  with le again(1) have "Suc (tries c i) \<le> rank (lcst c)" "Suc (tries c i) \<le> 2" by linarith+
  with inv pc show ?thesis unfolding again(3) by (auto simp: lc_inv_def winners_upd not_less)
qed

lemma lc_step_inv: "lc_step c c' \<Longrightarrow> lc_inv c \<Longrightarrow> lc_inv c'"
  by (induction rule: lc_step.induct)
    (simp_all add: lc_inv_serve lc_inv_load lc_inv_cas lc_inv_finish)

lemma lc_reachable_inv: "lc_reachable c \<Longrightarrow> lc_inv c"
  by (induction rule: lc_reachable.induct) (auto intro: lc_inv_init lc_step_inv)

lemma lc_step_rank: "lc_step c c' \<Longrightarrow> rank (lcst c) \<le> rank (lcst c')"
proof (induction rule: lc_step.induct)
  case (cas c i seen)
  then show ?case by (cases rule: after_iter_cases) auto
qed (auto simp: activate_def finishDraining_def lc_transition_def compareAndSwap_def)

section \<open>Properties\<close>

text \<open>
  The race for a room's teardown. However the goroutines that call \<^verbatim>\<open>beginTeardown\<close> interleave
  with each other, with activation and with the end of draining: at most one of them is told to
  run the teardown, one is told exactly when the room has left the active states, a goroutine that
  is told not to has someone else do it, and none retries its compare-and-swap more than twice.
\<close>

theorem beginTeardown_race:
  assumes "lc_reachable c"
  shows "((\<exists>i. pcs c i = Won) \<longleftrightarrow> lcst c = stateDraining \<or> lcst c = stateClosed) \<and>
    (pcs c i = Won \<longrightarrow> pcs c j = Won \<longrightarrow> i = j) \<and>
    (pcs c i = Lost \<longrightarrow> (\<exists>j. j \<noteq> i \<and> pcs c j = Won)) \<and>
    tries c i \<le> 2"
proof (intro conjI impI)
  note inv = lc_reachable_inv [OF assms]
  have rank2: "rank s < 2 \<longleftrightarrow> s \<noteq> stateDraining \<and> s \<noteq> stateClosed" for s by (cases s) auto
  show "(\<exists>i. pcs c i = Won) \<longleftrightarrow> lcst c = stateDraining \<or> lcst c = stateClosed"
    using inv rank2 [of "lcst c"] unfolding lc_inv_def winners_def by (auto split: if_splits)
  show "i = j" if "pcs c i = Won" "pcs c j = Won"
  proof -
    have "\<exists>k. winners c \<subseteq> {k}" using inv by (auto simp: lc_inv_def split: if_splits)
    moreover have "i \<in> winners c" "j \<in> winners c" using that by (simp_all add: winners_def)
    ultimately show ?thesis by blast
  qed
  show "tries c i \<le> 2" using inv by (simp add: lc_inv_def)
  show "\<exists>j. j \<noteq> i \<and> pcs c j = Won" if lost: "pcs c i = Lost"
  proof -
    from inv lost have "\<not> rank (lcst c) < 2" by (auto simp: lc_inv_def)
    with inv obtain j where "winners c = {j}" by (auto simp: lc_inv_def)
    then have "pcs c j = Won" unfolding winners_def by blast
    with lost show ?thesis by (metis pc.distinct(11))
  qed
qed

text \<open>Two goroutines load the state of a materializing room; the second one's CAS fails, it loads
  again and is told that the teardown is taken.\<close>

definition race_example :: lc_sys where
  "race_example = \<lparr>lcst = stateDraining,
     pcs = ((\<lambda>_. Start)(0 := Loaded stateMaterializing, 1 := Loaded stateMaterializing))
             (0 := Won, 1 := Start, 1 := Loaded stateDraining, 1 := Lost),
     tries = (\<lambda>_. 0)(1 := 1)\<rparr>"

lemma race_example_reachable: "lc_reachable race_example"
proof -
  let ?c1 = "lc_init\<lparr>pcs := (pcs lc_init)(0 := Loaded stateMaterializing)\<rparr>"
  let ?c2 = "?c1\<lparr>pcs := (pcs ?c1)(1 := Loaded stateMaterializing)\<rparr>"
  let ?c3 = "after_iter 0 stateMaterializing ?c2"
  let ?c4 = "after_iter 1 stateMaterializing ?c3"
  let ?c5 = "?c4\<lparr>pcs := (pcs ?c4)(1 := Loaded stateDraining)\<rparr>"
  note defs = lc_init_def after_iter_def beginTeardown_iter_def compareAndSwap_def
  have "lc_reachable ?c1"
    using lc_next [OF lc_start load [of lc_init 0]] by (simp add: defs)
  then have "lc_reachable ?c2"
    using lc_next [OF _ load [of ?c1 1]] by (simp add: defs)
  then have "lc_reachable ?c3" by (rule lc_next) (rule cas, simp add: defs)
  then have "lc_reachable ?c4" by (rule lc_next) (rule cas, simp add: defs)
  then have "lc_reachable ?c5"
    using lc_next [OF _ load [of ?c4 1]] by (simp add: defs)
  then have "lc_reachable (after_iter 1 stateDraining ?c5)" by (rule lc_next) (rule cas, simp)
  moreover have "after_iter 1 stateDraining ?c5 = race_example"
    by (simp add: defs race_example_def fun_upd_twist)
  ultimately show ?thesis by simp
qed

theorem beginTeardown_race_witness:
  "lcst race_example = stateDraining \<and> pcs race_example 1 = Lost \<and> (\<exists>j. j \<noteq> 1 \<and> pcs race_example j = Won) \<and>
     tries race_example 1 = 1 \<and> tries race_example 1 \<le> 2"
  using beginTeardown_race [OF race_example_reachable, of 1]
  by (simp add: race_example_def)

text \<open>
  The lifecycle only moves forward. No step of any interleaving lowers the rank of the state, so
  a room that has started to drain never serves again and a closed room stays closed.
\<close>

theorem lifecycle_monotone:
  assumes "lc_step\<^sup>*\<^sup>* c c'"
  shows "rank (lcst c) \<le> rank (lcst c') \<and> (lcst c = stateClosed \<longrightarrow> lcst c' = stateClosed)"
proof (intro conjI impI)
  from assms show le: "rank (lcst c) \<le> rank (lcst c')"
    by (induction rule: rtranclp_induct) (auto intro: order_trans lc_step_rank)
  show "lcst c' = stateClosed" if "lcst c = stateClosed"
    using le that by (cases "lcst c'") auto
qed

theorem lifecycle_monotone_witness:
  "rank (lcst lc_init) \<le> rank (lcst (lc_init\<lparr>lcst := snd (activate (lcst lc_init))\<rparr>)) \<and>
     lcst (lc_init\<lparr>lcst := snd (activate (lcst lc_init))\<rparr>) = stateActive"
  using lifecycle_monotone [OF r_into_rtranclp [of lc_step, OF serve [of lc_init]]]
  by (simp add: lc_init_def activate_def lc_transition_def compareAndSwap_def)

end
