(* ===== verification/Locator.thy ===== *)
theory Locator
  imports Control
begin

text \<open>
  \<^verbatim>\<open>internal/domain/service/assets_schema.go\<close>: the bounded-locator rule for a whiteboard's \<^verbatim>\<open>files\<close> map
  and a memo's image nodes. A string is its list of code points (\<^verbatim>\<open>for range\<close> over valid UTF-8);
  its \<^verbatim>\<open>len\<close> is the number of UTF-8 bytes.
\<close>

type_synonym rune = nat

definition utf8_width :: "rune \<Rightarrow> nat" where
  "utf8_width r = (if r < 128 then 1 else if r < 2048 then 2 else if r < 65536 then 3 else 4)"

definition byte_len :: "rune list \<Rightarrow> nat" where
  "byte_len s = sum_list (map utf8_width s)"

definition maxLocatorBytes :: nat where
  "maxLocatorBytes = 2048"

text \<open>Unicode category Zs, and the switch of \<^verbatim>\<open>trimECMAScript\<close>.\<close>

definition space_separator :: "rune \<Rightarrow> bool" where
  "space_separator r \<longleftrightarrow>
     r \<in> {32, 160, 5760, 8239, 8287, 12288} \<or> (8192 \<le> r \<and> r \<le> 8202)"

definition ecma_space :: "rune \<Rightarrow> bool" where
  "ecma_space r \<longleftrightarrow> r \<in> {9, 11, 12, 65279, 10, 13, 8232, 8233} \<or> space_separator r"

definition trimECMAScript :: "rune list \<Rightarrow> rune list" where
  "trimECMAScript s = rev (dropWhile ecma_space (rev (dropWhile ecma_space s)))"

text \<open>
  \<^verbatim>\<open>strings.ToLower\<close> on the characters the prefix test can see: no code point outside
  \<^verbatim>\<open>A\<close>..\<^verbatim>\<open>Z\<close> lowers to a letter of \<^verbatim>\<open>data:\<close>.
\<close>

definition lower :: "rune \<Rightarrow> rune" where
  "lower r = (if 65 \<le> r \<and> r \<le> 90 then r + 32 else r)"

definition data_prefix :: "rune list" where
  "data_prefix = [100, 97, 116, 97, 58]"

definition has_prefix :: "rune list \<Rightarrow> rune list \<Rightarrow> bool" where
  "has_prefix s p \<longleftrightarrow> take (length p) s = p"

datatype locator_error = TooLong nat | Empty | InlineData

definition validateLocator :: "rune list \<Rightarrow> locator_error option" where
  "validateLocator v =
     (if byte_len v > maxLocatorBytes then Some (TooLong (byte_len v))
      else let trimmed = trimECMAScript v
           in if trimmed = [] then Some Empty
              else if has_prefix (map lower trimmed) data_prefix then Some InlineData
              else None)"

text \<open>A value stored in the document: a string, or anything else the CRDT can hold.\<close>

datatype yvalue = YString "rune list" | YOther

datatype schema_error = NotAString "string + nat" | BadLocator "string + nat" locator_error

fun validateAssetsRoot :: "(string \<times> yvalue) list \<Rightarrow> schema_error option" where
  "validateAssetsRoot [] = None"
| "validateAssetsRoot ((key, raw) # rest) =
     (case raw of
        YOther \<Rightarrow> Some (NotAString (Inl key))
      | YString v \<Rightarrow>
          (case validateLocator v of
             Some err \<Rightarrow> Some (BadLocator (Inl key) err)
           | None \<Rightarrow> validateAssetsRoot rest))"

text \<open>
  What \<^verbatim>\<open>QuerySelectorAll("image")\<close> returned: an element with its optional \<^verbatim>\<open>src\<close> attribute, or a node
  that is not an element.
\<close>

datatype xml_node = Element "yvalue option" | OtherNode

fun validateImages_from :: "nat \<Rightarrow> xml_node list \<Rightarrow> schema_error option" where
  "validateImages_from i [] = None"
| "validateImages_from i (node # rest) =
     (case node of
        OtherNode \<Rightarrow> validateImages_from (Suc i) rest
      | Element None \<Rightarrow> validateImages_from (Suc i) rest
      | Element (Some YOther) \<Rightarrow> Some (NotAString (Inr i))
      | Element (Some (YString v)) \<Rightarrow>
          (case validateLocator v of
             Some err \<Rightarrow> Some (BadLocator (Inr i) err)
           | None \<Rightarrow> validateImages_from (Suc i) rest))"

definition validateMemoImages :: "xml_node list \<Rightarrow> schema_error option" where
  "validateMemoImages nodes = validateImages_from 0 nodes"

text \<open>
  \<^verbatim>\<open>validateSchema\<close> and \<^verbatim>\<open>validateStoredContent\<close>: the two roots are read from the document by the
  functions the caller passes, and only the one the content type names is read.
\<close>

definition validateContent ::
  "string \<Rightarrow> ('d \<Rightarrow> (string \<times> yvalue) list) \<Rightarrow> ('d \<Rightarrow> xml_node list) \<Rightarrow> 'd \<Rightarrow> schema_error option" where
  "validateContent content files images doc =
     (if content = ContentTypeWhiteboard then validateAssetsRoot (files doc)
      else if content = ContentTypeMemo then validateMemoImages (images doc)
      else None)"

section \<open>Trimming\<close>

lemma trim_decompose:
  "\<exists>pre post. s = pre @ trimECMAScript s @ post \<and> list_all ecma_space pre \<and> list_all ecma_space post"
proof -
  let ?t = "dropWhile ecma_space s"
  have "s = takeWhile ecma_space s @ ?t" by simp
  moreover have "?t = trimECMAScript s @ rev (takeWhile ecma_space (rev ?t))"
    unfolding trimECMAScript_def by (metis rev_append rev_rev_ident takeWhile_dropWhile_id)
  ultimately have "s = takeWhile ecma_space s @ trimECMAScript s @ rev (takeWhile ecma_space (rev ?t))"
    by simp
  then show ?thesis
    by (metis list_all_iff set_rev set_takeWhileD)
qed

lemma trim_edges:
  "trimECMAScript s \<noteq> [] \<Longrightarrow>
     \<not> ecma_space (hd (trimECMAScript s)) \<and> \<not> ecma_space (last (trimECMAScript s))"
proof -
  let ?t = "dropWhile ecma_space s" and ?u = "dropWhile ecma_space (rev (dropWhile ecma_space s))"
  assume ne: "trimECMAScript s \<noteq> []"
  then have u: "?u \<noteq> []" by (simp add: trimECMAScript_def)
  have "\<not> ecma_space (hd ?u)" using u by (simp add: hd_dropWhile)
  then have lastok: "\<not> ecma_space (last (trimECMAScript s))"
    using u by (simp add: trimECMAScript_def last_rev)
  obtain pre where "rev ?t = pre @ ?u" by (metis takeWhile_dropWhile_id)
  then have "?t = rev ?u @ rev pre" by (metis rev_append rev_rev_ident)
  then have "hd ?t = hd (rev ?u)" "?t \<noteq> []"
    using u by (metis hd_append2 rev_is_Nil_conv, metis append_is_Nil_conv rev_is_Nil_conv)
  moreover have "\<not> ecma_space (hd ?t)" using \<open>?t \<noteq> []\<close> by (simp add: hd_dropWhile)
  ultimately show ?thesis using lastok by (simp add: trimECMAScript_def)
qed

lemma trim_pad:
  assumes "list_all ecma_space pre" "list_all ecma_space post" "t \<noteq> []"
    "\<not> ecma_space (hd t)" "\<not> ecma_space (last t)"
  shows "trimECMAScript (pre @ t @ post) = t"
proof -
  obtain x xs where t: "t = x # xs" using assms(3) by (cases t) auto
  obtain y ys where t': "rev t = y # ys" using assms(3) by (cases "rev t") auto
  have y: "y = last t" using t' by (metis hd_rev list.sel(1))
  have "dropWhile ecma_space (pre @ t @ post) = dropWhile ecma_space (t @ post)"
    using assms(1) by (simp add: list_all_iff dropWhile_append2)
  then have "dropWhile ecma_space (pre @ t @ post) = t @ post"
    using assms(4) t by simp
  moreover have "dropWhile ecma_space (rev post @ rev t) = dropWhile ecma_space (rev t)"
    using assms(2) dropWhile_append2 [of "rev post" ecma_space "rev t"] by (simp add: list_all_iff)
  then have "dropWhile ecma_space (rev post @ rev t) = rev t"
    using assms(5) y unfolding t' by simp
  ultimately show ?thesis by (simp add: trimECMAScript_def)
qed

section \<open>What an accepted document can hold\<close>

lemma validateLocator_None:
  "validateLocator v = None \<longleftrightarrow>
     byte_len v \<le> maxLocatorBytes \<and> trimECMAScript v \<noteq> [] \<and>
     \<not> has_prefix (map lower (trimECMAScript v)) data_prefix"
  by (auto simp: validateLocator_def Let_def)

lemma validateAssetsRoot_None:
  "validateAssetsRoot fs = None \<longleftrightarrow>
     (\<forall>(k, raw) \<in> set fs. \<exists>v. raw = YString v \<and> validateLocator v = None)"
  by (induction fs rule: validateAssetsRoot.induct) (auto split: yvalue.splits option.splits)

lemma validateImages_None:
  "validateImages_from i ns = None \<longleftrightarrow>
     (\<forall>raw. Element (Some raw) \<in> set ns \<longrightarrow> (\<exists>v. raw = YString v \<and> validateLocator v = None))"
proof (induction i ns rule: validateImages_from.induct)
  case (2 i node rest)
  then show ?case
    by (cases node) (auto split: option.splits yvalue.splits)
qed simp

section \<open>Properties\<close>

text \<open>
  No inline data gets past the locator rule. Padding the scheme with any characters that
  ECMAScript trims and writing it in any mix of cases does not help: such a value is refused. And
  an accepted value is a non-empty string of at most 2048 bytes whose trimmed form does not start
  with the scheme.
\<close>

theorem inline_data_refused:
  assumes "list_all ecma_space pre" and "map lower scheme = data_prefix"
  shows "validateLocator (pre @ scheme @ rest) \<noteq> None"
proof
  let ?v = "pre @ scheme @ rest"
  assume ok: "validateLocator ?v = None"
  have scheme: "scheme \<noteq> []" "length scheme = 5"
    using arg_cong [OF assms(2), of length] by (auto simp: data_prefix_def)
  have nospace: "\<not> ecma_space x" if "x \<in> set scheme" for x
  proof -
    have "lower x \<in> set data_prefix" using that assms(2) by (metis image_eqI set_map)
    then show ?thesis
      by (auto simp: lower_def data_prefix_def ecma_space_def space_separator_def split: if_splits)
  qed
  have "dropWhile ecma_space ?v = dropWhile ecma_space (scheme @ rest)"
    using assms(1) by (simp add: list_all_iff dropWhile_append2)
  also have "\<dots> = scheme @ rest"
    using scheme(1) nospace by (cases scheme) auto
  finally have drop1: "dropWhile ecma_space ?v = scheme @ rest" .
  have "\<exists>rest'. trimECMAScript ?v = scheme @ rest'"
  proof (cases "list_all ecma_space rest")
    case True
    have "trimECMAScript (pre @ scheme @ rest) = scheme"
      by (rule trim_pad) (use assms(1) True scheme(1) nospace in auto)
    then show ?thesis by (intro exI [of _ "[]"]) simp
  next
    case False
    then have "dropWhile ecma_space (rev rest @ rev scheme) = dropWhile ecma_space (rev rest) @ rev scheme"
      by (auto simp: list_all_iff intro: dropWhile_append1)
    then show ?thesis by (auto simp: trimECMAScript_def drop1)
  qed
  then obtain rest' where "trimECMAScript ?v = scheme @ rest'" ..
  then have "has_prefix (map lower (trimECMAScript ?v)) data_prefix"
    using assms(2) by (simp add: has_prefix_def data_prefix_def)
  with ok show False by (simp add: validateLocator_None)
qed

text \<open>A no-break space and a line separator in front of \<^verbatim>\<open>DaTa:,\<close>.\<close>

theorem inline_data_refused_witness:
  "validateLocator ([160, 8232] @ [68, 97, 84, 97, 58] @ [44]) = Some InlineData \<and>
     validateLocator ([160, 8232] @ [68, 97, 84, 97, 58] @ [44]) \<noteq> None"
proof -
  have "validateLocator ([160, 8232] @ [68, 97, 84, 97, 58] @ [44]) \<noteq> None"
    by (rule inline_data_refused) (simp_all add: ecma_space_def space_separator_def lower_def data_prefix_def)
  moreover have "validateLocator ([160, 8232] @ [68, 97, 84, 97, 58] @ [44]) = Some InlineData"
    by (simp add: validateLocator_def byte_len_def utf8_width_def maxLocatorBytes_def trimECMAScript_def
        ecma_space_def space_separator_def has_prefix_def lower_def data_prefix_def Let_def)
  ultimately show ?thesis by simp
qed

text \<open>
  What a valid document holds. The content check accepts a document exactly when every value of
  the whiteboard's \<^verbatim>\<open>files\<close> map, or every present \<^verbatim>\<open>src\<close> of a memo's image elements, is a string that
  the locator rule accepts; nothing is checked for other content types.
\<close>

theorem validateContent_accepts:
  "validateContent ct files images d = None \<longleftrightarrow>
     (if ct = ContentTypeWhiteboard
      then \<forall>(k, raw) \<in> set (files d). \<exists>v. raw = YString v \<and> validateLocator v = None
      else if ct = ContentTypeMemo
      then \<forall>raw. Element (Some raw) \<in> set (images d) \<longrightarrow> (\<exists>v. raw = YString v \<and> validateLocator v = None)
      else True)"
  by (simp add: validateContent_def validateAssetsRoot_None validateMemoImages_def validateImages_None)

theorem validateContent_accepts_witness:
  "validateContent ContentTypeWhiteboard (\<lambda>_. [(''a'', YString [97]), (''b'', YOther)]) (\<lambda>_. []) () \<noteq> None"
  using validateContent_accepts [of ContentTypeWhiteboard "\<lambda>_. [(''a'', YString [97]), (''b'', YOther)]" "\<lambda>_. []" "()"]
  by simp

end
