(* ===== verification/RoomState.thy ===== *)
theory RoomState
  imports Control TokenBucket Lifecycle Locator "HOL-Library.Sublist"
begin

text \<open>
  The data of \<^verbatim>\<open>internal/domain/service/room.go\<close>: configuration, members, the room, and everything the
  room calls that is not code of this repository, gathered in the record \<open>env\<close>.

  The room runs on one goroutine, so its handlers are functions on the record \<open>room\<close>. What a
  handler does to the outside (sending a frame, closing a connection, publishing, saving, the
  metrics hooks) is appended to \<open>trace\<close>; what the outside answers is read from \<open>env\<close> at the
  position of the call in the trace, so every sequence of answers is covered. Log lines are left
  out.
\<close>

section \<open>Configuration\<close>

record limits =
  FlushFailureThreshold :: int
  MaxDocBytes :: int
  MaxConnsPerRoom :: int
  UpdateRatePerSec :: int
  UpdateBurst :: int

record roomConfig =
  SaveDebounce :: int
  IdleTimeout :: int
  SendBuffer :: int
  cfgLimits :: limits
  ContributionWindow :: int
  BackendTimeout :: int

abbreviation second :: int where
  "second \<equiv> 1000000000"

definition defaultFlushFailureThreshold :: int where
  "defaultFlushFailureThreshold = 5"

definition flushRetryMaxShift :: int where
  "flushRetryMaxShift = 5"

definition maxFlushRetryBackoff :: int where
  "maxFlushRetryBackoff = 30 * second"

definition budgetSkipSlack :: int where
  "budgetSkipSlack = 1024"

definition defaultBackendTimeout :: int where
  "defaultBackendTimeout = 30 * second"

definition DefaultLimits :: limits where
  "DefaultLimits = \<lparr>FlushFailureThreshold = defaultFlushFailureThreshold, MaxDocBytes = 30 * 2 ^ 20,
     MaxConnsPerRoom = 50, UpdateRatePerSec = 0, UpdateBurst = 0\<rparr>"

definition DefaultRoomConfig :: roomConfig where
  "DefaultRoomConfig = \<lparr>SaveDebounce = 2 * second, IdleTimeout = 30 * second, SendBuffer = 64,
     cfgLimits = DefaultLimits, ContributionWindow = 600 * second, BackendTimeout = defaultBackendTimeout\<rparr>"

section \<open>Port calls\<close>

text \<open>
  One constructor per call the room makes on a port or a metrics hook. The boolean of a fallible
  call is its outcome.
\<close>

datatype event =
    EvSend conn_ref frame bool
  | EvCloseAfterDrain conn_ref SessionEnd
  | EvPublish bool frame bool
  | EvFanoutPublished
  | EvFanoutFailed
  | EvConnOpened
  | EvConnClosed
  | EvSaveCheckpoint bytes bytes bool
  | EvSaveMetadata Metadata bool
  | EvSnapshotSaved
  | EvSnapshotFailed
  | EvUndurable nat int
  | EvDurabilityRestored
  | EvEscalated int
  | EvContributingActors nat
  | EvContribution "actor_id set" bool
  | EvFlightStarted nat "actor_id set"
  | EvCancelContext
  | EvCancelSubscription
  | EvReleaseHandle
  | EvCloseDone
  | EvOnReleased

section \<open>Code outside the repository\<close>

datatype sync_type = SyncMessageStep1 | SyncMessageStep2 | SyncMessageUpdate | SyncOther nat

record messageInfo =
  infoType :: nat
  infoSyncType :: sync_type
  infoBody :: bytes
  infoBodyLength :: int
  infoFrameLength :: int

text \<open>
  \<open>'d\<close> is a Yjs document and \<open>'a\<close> an awareness instance of the go-yjs core. Applying an update gives
  the document afterwards, the update event its observer saw (if any) and whether it returned no
  error. The second group is the \<^verbatim>\<open>protocol\<close> package, the third the awareness API, the fourth the
  ports: the answer of the call made when the trace has the given length, the order in which
  \<^verbatim>\<open>range\<close> visits a map then, and the clock.
\<close>

record ('d, 'a) env =
  apply_update :: "'d \<Rightarrow> bytes \<Rightarrow> 'd \<times> bytes option \<times> bool"
  apply_update_v2 :: "'d \<Rightarrow> bytes \<Rightarrow> 'd \<times> bytes option \<times> bool"
  encode_v2 :: "'d \<Rightarrow> bytes option"
  state_vector_v2 :: "bytes \<Rightarrow> bytes option"
  new_doc :: "document_id \<Rightarrow> 'd"
  get_map :: "string \<Rightarrow> 'd \<Rightarrow> 'd"
  get_xml_fragment :: "string \<Rightarrow> 'd \<Rightarrow> 'd"
  files_of :: "'d \<Rightarrow> (string \<times> yvalue) list"
  images_of :: "'d \<Rightarrow> xml_node list"
  canonicalEmptyUpdateV1 :: bytes
  read_message :: "bytes \<Rightarrow> (nat \<times> bytes) option"
  write_message :: "nat \<Rightarrow> bytes \<Rightarrow> bytes"
  inspect_message :: "bytes \<Rightarrow> messageInfo option"
  encode_sync_step1 :: "'d \<Rightarrow> bytes"
  encode_sync_step2 :: "'d \<Rightarrow> bytes \<Rightarrow> bytes option"
  encode_update :: "bytes \<Rightarrow> bytes"
  unmarshal_request_id :: "bytes \<Rightarrow> string option"
  new_awareness :: "'d \<Rightarrow> 'a"
  clear_local_state :: "'a \<Rightarrow> 'a"
  apply_awareness :: "'a \<Rightarrow> bytes \<Rightarrow> 'a \<times> bool"
  remove_awareness_states :: "'a \<Rightarrow> nat \<Rightarrow> 'a"
  awareness_states :: "'a \<Rightarrow> nat list"
  encode_awareness :: "'a \<Rightarrow> nat list \<Rightarrow> bytes"
  encode_awareness_message :: "bytes \<Rightarrow> bytes option"
  decode_awareness_id :: "bytes \<Rightarrow> nat option"
  send_ok :: "nat \<Rightarrow> conn_ref \<Rightarrow> bool"
  publish_ok :: "nat \<Rightarrow> bool"
  save_checkpoint_ok :: "nat \<Rightarrow> bool"
  save_metadata_ok :: "nat \<Rightarrow> bool"
  contribution_ok :: "nat \<Rightarrow> bool"
  flight_ok :: "nat \<Rightarrow> bool"
  range_order :: "nat \<Rightarrow> conn_id list \<Rightarrow> conn_id list"
  clock :: "nat \<Rightarrow> int"

section \<open>Members and the room\<close>

record roomMember =
  mid :: conn_id
  conn :: conn_ref
  actorID :: identity
  mode :: collaboratorMode
  pending :: bool
  bucket :: tokenBucket
  awarenessID :: nat
  hasAwareness :: bool
  durabilityPoisoned :: bool
  barrier :: string

record contributionFlight =
  flightId :: nat
  flightActors :: "actor_id set"

text \<open>
  \<open>saveTimer\<close> and \<open>idleTimer\<close> are the timers \<^verbatim>\<open>run\<close> holds: \<open>Some d\<close> is armed with duration \<open>d\<close>.
  \<open>doneClosed\<close> is whether the channel \<^verbatim>\<open>done\<close> is closed; \<open>flights\<close> numbers the contribution
  flights.
\<close>

record ('d, 'a) room =
  docId :: document_id
  content :: string
  doc :: 'd
  shadow :: "'d option"
  awareness :: 'a
  cfg :: roomConfig
  members :: "(conn_id \<times> roomMember) list"
  nextID :: conn_id
  awarenessOwners :: "nat \<rightharpoonup> conn_id"
  dirty :: bool
  docBytes :: int
  flushFailures :: nat
  undurableSince :: "int option"
  version :: int
  policyID :: string
  ownerRef :: string
  bucketID :: string
  isMultiUser :: "bool option"
  maxConns :: int
  contributors :: "actor_id set"
  docUpdates :: nat
  contributionFlight :: "contributionFlight option"
  flights :: nat
  lc :: roomState
  doneClosed :: bool
  saveTimer :: "int option"
  idleTimer :: "int option"
  trace :: "event list"

definition log_ev :: "event \<Rightarrow> ('d, 'a) room \<Rightarrow> ('d, 'a) room" where
  "log_ev ev r = r\<lparr>trace := trace r @ [ev]\<rparr>"

abbreviation tick :: "('d, 'a) room \<Rightarrow> nat" where
  "tick r \<equiv> length (trace r)"

abbreviation member :: "('d, 'a) room \<Rightarrow> conn_id \<Rightarrow> roomMember option" where
  "member r cid \<equiv> map_of (members r) cid"

abbreviation put_member :: "conn_id \<Rightarrow> roomMember \<Rightarrow> ('d, 'a) room \<Rightarrow> ('d, 'a) room" where
  "put_member cid m r \<equiv> r\<lparr>members := AList.update cid m (members r)\<rparr>"

section \<open>Fan-out and the drop cascade\<close>

text \<open>
  \<^verbatim>\<open>sendMember\<close>, \<^verbatim>\<open>broadcast\<close>, \<^verbatim>\<open>evictAwareness\<close> and \<^verbatim>\<open>dropMember\<close> call each other: a send that fails drops
  the member, dropping evicts its awareness, evicting broadcasts. The three that are not
  \<^verbatim>\<open>dropMember\<close> take it as an argument; \<^verbatim>\<open>dropMember\<close> itself recurses on fuel. The fuel it is called
  with is one more than the number of members, and \<open>dropMember_unfold\<close> below shows that the result
  satisfies the recursion as the source writes it.
\<close>

definition sendMember_with ::
  "('d, 'a) env \<Rightarrow> (conn_id \<Rightarrow> ('d, 'a) room \<Rightarrow> ('d, 'a) room) \<Rightarrow> roomMember \<Rightarrow> frame \<Rightarrow> ('d, 'a) room \<Rightarrow> ('d, 'a) room" where
  "sendMember_with e dropf m f r =
     (let ok = send_ok e (tick r) (conn m); r1 = log_ev (EvSend (conn m) f ok) r
      in if ok then r1 else dropf (mid m) r1)"

text \<open>
  The body of a \<^verbatim>\<open>for id, m := range r.members\<close> loop: a key deleted before it is reached is not
  produced, and \<open>m\<close> is the value at that moment.
\<close>

fun range_loop ::
  "(conn_id \<Rightarrow> roomMember \<Rightarrow> ('d, 'a) room \<Rightarrow> ('d, 'a) room) \<Rightarrow> conn_id list \<Rightarrow> ('d, 'a) room \<Rightarrow> ('d, 'a) room" where
  "range_loop body [] r = r"
| "range_loop body (i # is) r =
     (case member r i of
        None \<Rightarrow> range_loop body is r
      | Some m \<Rightarrow> range_loop body is (body i m r))"

definition range_members ::
  "('d, 'a) env \<Rightarrow> (conn_id \<Rightarrow> roomMember \<Rightarrow> ('d, 'a) room \<Rightarrow> ('d, 'a) room) \<Rightarrow> ('d, 'a) room \<Rightarrow> ('d, 'a) room" where
  "range_members e body r = range_loop body (range_order e (tick r) (keys (members r))) r"

definition broadcast_with ::
  "('d, 'a) env \<Rightarrow> (conn_id \<Rightarrow> ('d, 'a) room \<Rightarrow> ('d, 'a) room) \<Rightarrow> frame \<Rightarrow> conn_id \<Rightarrow> ('d, 'a) room \<Rightarrow> ('d, 'a) room" where
  "broadcast_with e dropf f except r =
     range_members e (\<lambda>cid m r. if cid = except \<or> pending m then r else sendMember_with e dropf m f r) r"

definition publishToPeers :: "('d, 'a) env \<Rightarrow> frame \<Rightarrow> bool \<Rightarrow> ('d, 'a) room \<Rightarrow> ('d, 'a) room" where
  "publishToPeers e f ephemeral r =
     (let ok = publish_ok e (tick r); r1 = log_ev (EvPublish ephemeral f ok) r
      in log_ev (if ok then EvFanoutPublished else EvFanoutFailed) r1)"

definition forcedAwarenessRemoval ::
  "('d, 'a) env \<Rightarrow> nat \<Rightarrow> ('d, 'a) room \<Rightarrow> bytes option \<times> ('d, 'a) room" where
  "forcedAwarenessRemoval e clientID r =
     (let aw = remove_awareness_states e (awareness r) clientID
      in (encode_awareness_message e (encode_awareness e aw [clientID]), r\<lparr>awareness := aw\<rparr>))"

definition evictAwareness_with ::
  "('d, 'a) env \<Rightarrow> (conn_id \<Rightarrow> ('d, 'a) room \<Rightarrow> ('d, 'a) room) \<Rightarrow> roomMember \<Rightarrow> ('d, 'a) room \<Rightarrow> ('d, 'a) room" where
  "evictAwareness_with e dropf m r =
     (if \<not> hasAwareness m then r
      else if awarenessOwners r (awarenessID m) \<noteq> Some (mid m) then r
      else let r1 = r\<lparr>awarenessOwners := (awarenessOwners r)(awarenessID m := None)\<rparr>
           in case forcedAwarenessRemoval e (awarenessID m) r1 of
                (None, r2) \<Rightarrow> r2
              | (Some f, r2) \<Rightarrow>
                  publishToPeers e (FRaw f) True (broadcast_with e dropf (FRaw f) (mid m) r2))"

definition deregister :: "conn_id \<Rightarrow> roomMember \<Rightarrow> ('d, 'a) room \<Rightarrow> ('d, 'a) room" where
  "deregister cid m r =
     (let r1 = r\<lparr>members := AList.delete cid (members r)\<rparr>
      in if \<not> pending m then log_ev EvConnClosed r1 else r1)"

fun dropMember_fuel :: "('d, 'a) env \<Rightarrow> nat \<Rightarrow> conn_id \<Rightarrow> ('d, 'a) room \<Rightarrow> bool \<times> ('d, 'a) room" where
  "dropMember_fuel e 0 cid r = (False, r)"
| "dropMember_fuel e (Suc n) cid r =
     (case member r cid of
        None \<Rightarrow> (False, r)
      | Some m \<Rightarrow>
          (True, evictAwareness_with e (\<lambda>i s. snd (dropMember_fuel e n i s)) m (deregister cid m r)))"

definition dropMember :: "('d, 'a) env \<Rightarrow> conn_id \<Rightarrow> ('d, 'a) room \<Rightarrow> bool \<times> ('d, 'a) room" where
  "dropMember e cid r = dropMember_fuel e (Suc (length (members r))) cid r"

abbreviation dropIt :: "('d, 'a) env \<Rightarrow> conn_id \<Rightarrow> ('d, 'a) room \<Rightarrow> ('d, 'a) room" where
  "dropIt e cid r \<equiv> snd (dropMember e cid r)"

definition sendMember :: "('d, 'a) env \<Rightarrow> roomMember \<Rightarrow> frame \<Rightarrow> ('d, 'a) room \<Rightarrow> ('d, 'a) room" where
  "sendMember e = sendMember_with e (dropIt e)"

definition broadcast :: "('d, 'a) env \<Rightarrow> frame \<Rightarrow> conn_id \<Rightarrow> ('d, 'a) room \<Rightarrow> ('d, 'a) room" where
  "broadcast e = broadcast_with e (dropIt e)"

definition evictAwareness :: "('d, 'a) env \<Rightarrow> roomMember \<Rightarrow> ('d, 'a) room \<Rightarrow> ('d, 'a) room" where
  "evictAwareness e = evictAwareness_with e (dropIt e)"

definition sendTo :: "('d, 'a) env \<Rightarrow> conn_id \<Rightarrow> frame \<Rightarrow> ('d, 'a) room \<Rightarrow> ('d, 'a) room" where
  "sendTo e cid f r = (case member r cid of None \<Rightarrow> r | Some m \<Rightarrow> sendMember e m f r)"

definition broadcastControl :: "('d, 'a) env \<Rightarrow> ControlMessage \<Rightarrow> ('d, 'a) room \<Rightarrow> ('d, 'a) room" where
  "broadcastControl e msg r =
     (case encodeControl msg of None \<Rightarrow> r | Some f \<Rightarrow> broadcast e f 0 r)"

definition activeMemberCount :: "('d, 'a) room \<Rightarrow> nat" where
  "activeMemberCount r = length (filter (\<lambda>(cid, m). \<not> pending m) (members r))"

definition users_control :: "('d, 'a) room \<Rightarrow> ControlMessage" where
  "users_control r = (control ControlRoomUserChange)\<lparr>Users := int (activeMemberCount r)\<rparr>"

definition disconnect :: "('d, 'a) env \<Rightarrow> conn_id \<Rightarrow> SessionEndCode \<Rightarrow> ('d, 'a) room \<Rightarrow> ('d, 'a) room" where
  "disconnect e cid code r =
     (case member r cid of
        None \<Rightarrow> r
      | Some m \<Rightarrow>
          (let se = session_end code;
               r1 = (case encodeControl (end_control se) of
                       None \<Rightarrow> r
                     | Some f \<Rightarrow> log_ev (EvSend (conn m) f (send_ok e (tick r) (conn m))) r);
               r2 = log_ev (EvCloseAfterDrain (conn m) se) r1;
               (dropped, r3) = dropMember e cid r2
           in if dropped then broadcastControl e (users_control r3) r3 else r3))"

end
