(* ===== verification/RoomCascade.thy ===== *)
theory RoomCascade
  imports RoomState
begin

text \<open>
  Facts about the fan-out functions of \<open>RoomState\<close>. The locale \<open>cascade\<close> is the interface between
  them and the handlers: a reflexive, transitive relation that the few primitive actions respect
  holds between the room before and after any send, broadcast, eviction or drop. It is interpreted
  for the shrinking of the member table (which gives termination of the cascade), for everything
  a fan-out leaves alone (\<open>quiet\<close>), and for the connection gauge.
\<close>

section \<open>Relations a fan-out respects\<close>

lemma range_loop_inv:
  assumes "\<And>i m s. P s \<Longrightarrow> member s i = Some m \<Longrightarrow> P (body i m s)" and "P r"
  shows "P (range_loop body is r)"
  using assms(2) by (induction "is" arbitrary: r) (auto split: option.splits intro: assms(1))

locale cascade =
  fixes okf :: "frame \<Rightarrow> bool"
    and R :: "('d, 'a) room \<Rightarrow> ('d, 'a) room \<Rightarrow> bool"
  assumes okf_raw: "okf (FRaw b)"
    and R_refl: "R r r"
    and R_trans: "R r s \<Longrightarrow> R s t \<Longrightarrow> R r t"
    and R_send: "okf f \<Longrightarrow> R r (log_ev (EvSend c f ok) r)"
    and R_publish: "R r (log_ev (EvPublish True f ok) r)"
    and R_fanout: "R r (log_ev EvFanoutPublished r)" "R r (log_ev EvFanoutFailed r)"
    and R_dereg: "member r i = Some m \<Longrightarrow> R r (deregister i m r)"
    and R_owner: "R r (r\<lparr>awarenessOwners := (awarenessOwners r)(k := None)\<rparr>)"
    and R_aware: "R r (r\<lparr>awareness := aw\<rparr>)"
begin

lemma range_loop_R:
  "(\<And>i m s. member s i = Some m \<Longrightarrow> R s (body i m s)) \<Longrightarrow> R r (range_loop body is r)"
proof (induction "is" arbitrary: r)
  case (Cons i "is")
  show ?case
  proof (cases "member r i")
    case (Some m)
    then show ?thesis using R_trans [OF Cons.prems Cons.IH] Cons.prems by simp
  qed (use Cons in simp)
qed (simp add: R_refl)

lemma range_members_R:
  "(\<And>i m s. member s i = Some m \<Longrightarrow> R s (body i m s)) \<Longrightarrow> R r (range_members e body r)"
  by (simp add: range_members_def range_loop_R)

lemma sendMember_with_R:
  "okf f \<Longrightarrow> (\<And>i s. R s (dropf i s)) \<Longrightarrow> R r (sendMember_with e dropf m f r)"
proof -
  assume f: "okf f" and d: "\<And>i s. R s (dropf i s)"
  have "R r (dropf (mid m) (log_ev (EvSend (conn m) f ok) r))" for ok
    by (rule R_trans [OF R_send [OF f] d])
  then show ?thesis by (simp add: sendMember_with_def Let_def R_send f)
qed

lemma broadcast_with_R: "okf f \<Longrightarrow> (\<And>i s. R s (dropf i s)) \<Longrightarrow> R r (broadcast_with e dropf f x r)"
  unfolding broadcast_with_def
  by (rule range_members_R) (auto intro: R_refl sendMember_with_R)

lemma publish_R: "R r (publishToPeers e f True r)"
  by (auto simp: publishToPeers_def Let_def intro: R_publish R_fanout R_trans)

lemma evictAwareness_with_R:
  assumes d: "\<And>i s. R s (dropf i s)"
  shows "R r (evictAwareness_with e dropf m r)"
proof -
  let ?r1 = "r\<lparr>awarenessOwners := (awarenessOwners r)(awarenessID m := None)\<rparr>"
  have "R r ?r1" by (rule R_owner)
  then have aw: "R r (?r1\<lparr>awareness := a\<rparr>)" for a by (rule R_trans) (rule R_aware)
  have "R r (publishToPeers e (FRaw f) True (broadcast_with e dropf (FRaw f) x (?r1\<lparr>awareness := a\<rparr>)))" for f x a
    by (rule R_trans [OF aw], rule R_trans [OF broadcast_with_R publish_R], rule okf_raw, rule d)
  with aw show ?thesis
    by (auto simp: evictAwareness_with_def forcedAwarenessRemoval_def Let_def R_refl split: option.splits)
qed

lemma dropMember_fuel_R: "R r (snd (dropMember_fuel e n i r))"
proof (induction n arbitrary: i r)
  case (Suc n)
  show ?case
  proof (cases "member r i")
    case (Some m)
    then show ?thesis
      using R_trans [OF R_dereg [OF Some] evictAwareness_with_R] Suc.IH by simp
  qed (simp add: R_refl)
qed (simp add: R_refl)

lemma dropMember_R: "R r (dropIt e i r)"
  by (simp only: dropMember_def dropMember_fuel_R)

lemma sendMember_R: "okf f \<Longrightarrow> R r (sendMember e m f r)"
  by (simp only: sendMember_def) (erule sendMember_with_R, rule dropMember_R)

lemma broadcast_R: "okf f \<Longrightarrow> R r (broadcast e f x r)"
  by (simp only: broadcast_def) (erule broadcast_with_R, rule dropMember_R)

lemma evictAwareness_R: "R r (evictAwareness e m r)"
  by (simp only: evictAwareness_def) (rule evictAwareness_with_R, rule dropMember_R)

lemma sendTo_R: "okf f \<Longrightarrow> R r (sendTo e i f r)"
  by (auto simp: sendTo_def R_refl sendMember_R split: option.splits)

lemma broadcastControl_R: "okf (FControl msg) \<Longrightarrow> R r (broadcastControl e msg r)"
  by (simp add: broadcastControl_def broadcast_R)

end

section \<open>The cascade terminates\<close>

lemma log_ev_simps [simp]:
  "members (log_ev ev r) = members r" "trace (log_ev ev r) = trace r @ [ev]"
  "doc (log_ev ev r) = doc r" "shadow (log_ev ev r) = shadow r" "dirty (log_ev ev r) = dirty r"
  "awarenessOwners (log_ev ev r) = awarenessOwners r" "awareness (log_ev ev r) = awareness r"
  "content (log_ev ev r) = content r" "cfg (log_ev ev r) = cfg r" "lc (log_ev ev r) = lc r"
  "docBytes (log_ev ev r) = docBytes r" "flushFailures (log_ev ev r) = flushFailures r"
  "version (log_ev ev r) = version r" "nextID (log_ev ev r) = nextID r"
  "contributors (log_ev ev r) = contributors r" "docUpdates (log_ev ev r) = docUpdates r"
  "docId (log_ev ev r) = docId r" "undurableSince (log_ev ev r) = undurableSince r"
  "isMultiUser (log_ev ev r) = isMultiUser r" "maxConns (log_ev ev r) = maxConns r"
  "contributionFlight (log_ev ev r) = contributionFlight r" "flights (log_ev ev r) = flights r"
  "doneClosed (log_ev ev r) = doneClosed r" "saveTimer (log_ev ev r) = saveTimer r"
  "idleTimer (log_ev ev r) = idleTimer r" "policyID (log_ev ev r) = policyID r"
  "ownerRef (log_ev ev r) = ownerRef r" "bucketID (log_ev ev r) = bucketID r"
  by (simp_all add: log_ev_def)

lemma deregister_members [simp]: "members (deregister i m r) = AList.delete i (members r)"
  by (simp add: deregister_def Let_def)

interpretation shrink: cascade "\<lambda>_. True" "\<lambda>r s. length (members s) \<le> length (members r)"
  by unfold_locales (auto simp: length_delete_bound)

text \<open>Two drop functions that agree on small rooms give the same loops there.\<close>

lemma range_loop_agree:
  assumes "\<And>i m s. length (members s) < k \<Longrightarrow> member s i = Some m \<Longrightarrow> b1 i m s = b2 i m s"
    and "\<And>i m s. member s i = Some m \<Longrightarrow> length (members (b1 i m s)) \<le> length (members s)"
    and "length (members r) < k"
  shows "range_loop b1 is r = range_loop b2 is r"
  using assms(3)
proof (induction "is" arbitrary: r)
  case (Cons i "is")
  show ?case
  proof (cases "member r i")
    case (Some m)
    have "b1 i m r = b2 i m r" using assms(1) Cons.prems Some by blast
    moreover have "length (members (b1 i m r)) < k"
      using assms(2) [OF Some] Cons.prems by simp
    ultimately show ?thesis using Cons.IH Some by simp
  qed (use Cons in simp)
qed simp

lemma broadcast_with_agree:
  assumes "\<And>i s. length (members s) < k \<Longrightarrow> d1 i s = d2 i s"
    and "\<And>i s. length (members (d1 i s)) \<le> length (members s)"
    and "length (members r) < k"
  shows "broadcast_with e d1 f x r = broadcast_with e d2 f x r"
  unfolding broadcast_with_def range_members_def
proof (rule range_loop_agree [where k = k])
  fix i m and s :: "('a, 'b) room" assume "length (members s) < k"
  then show "(if i = x \<or> pending m then s else sendMember_with e d1 m f s) =
      (if i = x \<or> pending m then s else sendMember_with e d2 m f s)"
    using assms(1) by (simp add: sendMember_with_def Let_def)
next
  fix i m and s :: "('a, 'b) room"
  show "length (members (if i = x \<or> pending m then s else sendMember_with e d1 m f s)) \<le> length (members s)"
    using assms(2) [of "mid m" "log_ev (EvSend (conn m) f False) s"]
    by (auto simp: sendMember_with_def Let_def)
qed (rule assms(3))

lemma evictAwareness_with_agree:
  assumes "\<And>i s. length (members s) < k \<Longrightarrow> d1 i s = d2 i s"
    and "\<And>i s. length (members (d1 i s)) \<le> length (members s)"
    and "length (members r) < k"
  shows "evictAwareness_with e d1 m r = evictAwareness_with e d2 m r"
  using broadcast_with_agree [OF assms(1,2)] assms(3)
  by (auto simp: evictAwareness_with_def forcedAwarenessRemoval_def Let_def split: option.splits)

lemma dropMember_fuel_irrelevant:
  "length (members r) < n \<Longrightarrow> length (members r) < k \<Longrightarrow>
     dropMember_fuel e n i r = dropMember_fuel e k i r"
proof (induction n arbitrary: k i r)
  case (Suc n)
  then obtain k' where k: "k = Suc k'" by (cases k) auto
  show ?case
  proof (cases "member r i")
    case (Some m)
    let ?r = "deregister i m r"
    have lt: "length (members ?r) < length (members r)"
      using Some by (auto intro: length_delete_lt dest: map_of_Some_keys)
    have "evictAwareness_with e (\<lambda>i s. snd (dropMember_fuel e n i s)) m ?r =
        evictAwareness_with e (\<lambda>i s. snd (dropMember_fuel e k' i s)) m ?r"
    proof (rule evictAwareness_with_agree [where k = "length (members r)"])
      fix i and s :: "('a, 'b) room" assume "length (members s) < length (members r)"
      then show "snd (dropMember_fuel e n i s) = snd (dropMember_fuel e k' i s)"
        using Suc.prems k Suc.IH [of s k' i] by simp
    qed (use lt shrink.dropMember_fuel_R in auto)
    then show ?thesis using Some k by simp
  qed (simp add: k)
qed simp

lemma dropMember_unfolded:
  "dropMember e i r =
     (case member r i of None \<Rightarrow> (False, r) | Some m \<Rightarrow> (True, evictAwareness e m (deregister i m r)))"
proof (cases "member r i")
  case (Some m)
  let ?r = "deregister i m r"
  have lt: "length (members ?r) < length (members r)"
    using Some by (auto intro: length_delete_lt dest: map_of_Some_keys)
  have "evictAwareness_with e (\<lambda>i s. snd (dropMember_fuel e (length (members r)) i s)) m ?r =
      evictAwareness_with e (dropIt e) m ?r"
  proof (rule evictAwareness_with_agree [where k = "length (members r)"])
    fix i and s :: "('a, 'b) room" assume "length (members s) < length (members r)"
    then show "snd (dropMember_fuel e (length (members r)) i s) = dropIt e i s"
      unfolding dropMember_def using dropMember_fuel_irrelevant [of s "length (members r)" "Suc (length (members s))" e i]
      by simp
  qed (use lt shrink.dropMember_fuel_R in auto)
  then show ?thesis
    using Some by (simp add: dropMember_def evictAwareness_def)
qed (simp add: dropMember_def)

section \<open>What a fan-out leaves alone\<close>

fun quiet_event :: "event \<Rightarrow> bool" where
  "quiet_event (EvSend _ _ _) = True"
| "quiet_event (EvPublish _ _ _) = True"
| "quiet_event EvFanoutPublished = True"
| "quiet_event EvFanoutFailed = True"
| "quiet_event EvConnClosed = True"
| "quiet_event _ = False"

definition quiet :: "('d, 'a) room \<Rightarrow> ('d, 'a) room \<Rightarrow> bool" where
  "quiet r s \<longleftrightarrow>
     s = r\<lparr>members := members s, awarenessOwners := awarenessOwners s, awareness := awareness s, trace := trace s\<rparr> \<and>
     map_of (members s) \<subseteq>\<^sub>m map_of (members r) \<and>
     awarenessOwners s \<subseteq>\<^sub>m awarenessOwners r \<and>
     (distinct (keys (members r)) \<longrightarrow> distinct (keys (members s))) \<and>
     (\<exists>evs. trace s = trace r @ evs \<and> list_all quiet_event evs)"

lemma quietI:
  assumes "s = r\<lparr>members := ms, awarenessOwners := os, awareness := aw, trace := trace r @ evs\<rparr>"
    "map_of ms \<subseteq>\<^sub>m map_of (members r)" "os \<subseteq>\<^sub>m awarenessOwners r"
    "distinct (keys (members r)) \<Longrightarrow> distinct (keys ms)" "list_all quiet_event evs"
  shows "quiet r s"
  using assms by (auto simp: quiet_def)

lemma quiet_trans: "quiet r s \<Longrightarrow> quiet s t \<Longrightarrow> quiet r t"
  unfolding quiet_def by (cases r; cases s; cases t) (auto intro: map_le_trans)

lemma quiet_refl: "quiet r r"
  by (simp add: quiet_def map_le_refl)

lemma quiet_log: "quiet_event ev \<Longrightarrow> quiet r (log_ev ev r)"
  by (simp add: quiet_def log_ev_def)

lemma map_le_delete: "map_of (AList.delete k xs) \<subseteq>\<^sub>m map_of xs"
  by (auto simp: map_le_def)

lemma quiet_deregister: "quiet r (deregister i m r)"
  unfolding quiet_def deregister_def Let_def log_ev_def
  by (auto simp: map_le_delete distinct_keys_delete)

lemma quiet_owner: "quiet r (r\<lparr>awarenessOwners := (awarenessOwners r)(k := None)\<rparr>)"
  by (simp add: quiet_def map_le_def)

lemma quiet_aware: "quiet r (r\<lparr>awareness := aw\<rparr>)"
  by (simp add: quiet_def map_le_refl)

interpretation quiet: cascade "\<lambda>_. True" quiet
proof unfold_locales
  fix r s t :: "('a, 'b) room"
  show "quiet r s \<Longrightarrow> quiet s t \<Longrightarrow> quiet r t" by (rule quiet_trans)
qed (simp_all add: quiet_refl quiet_log quiet_deregister quiet_owner quiet_aware)

lemma quiet_frame:
  assumes "quiet r s"
  shows "doc s = doc r" "shadow s = shadow r" "dirty s = dirty r" "content s = content r" "cfg s = cfg r"
    "lc s = lc r" "docBytes s = docBytes r" "flushFailures s = flushFailures r" "version s = version r"
    "nextID s = nextID r" "contributors s = contributors r" "docUpdates s = docUpdates r"
    "docId s = docId r" "undurableSince s = undurableSince r" "isMultiUser s = isMultiUser r"
    "maxConns s = maxConns r" "contributionFlight s = contributionFlight r" "flights s = flights r"
    "doneClosed s = doneClosed r" "saveTimer s = saveTimer r" "idleTimer s = idleTimer r"
    "policyID s = policyID r" "ownerRef s = ownerRef r" "bucketID s = bucketID r"
  using assms unfolding quiet_def by (cases r; cases s; simp)+

lemma quiet_member: "quiet r s \<Longrightarrow> member s i = Some m \<Longrightarrow> member r i = Some m"
  by (auto simp: quiet_def map_le_def dom_def)

lemma quiet_trace: "quiet r s \<Longrightarrow> \<exists>evs. trace s = trace r @ evs \<and> list_all quiet_event evs"
  by (simp add: quiet_def)

end
