(* ===== verification/RoomDurability.thy ===== *)
theory RoomDurability
  imports RoomCascade
begin

text \<open>
  The durability half of the room: barrier requests (\<^verbatim>\<open>room.go\<close>), the contribution window
  (\<^verbatim>\<open>presence.go\<close>), the flush state machine (\<^verbatim>\<open>flush.go\<close>), \<^verbatim>\<open>persist\<close>, the timers, and the one ordered
  \<^verbatim>\<open>teardown\<close>. A \<^verbatim>\<open>teardown\<close> takes its flush as a function; the nil flush is the identity.
\<close>

section \<open>Barrier requests\<close>

definition persisted_control :: "string \<Rightarrow> ControlMessage" where
  "persisted_control rid = (control ControlPersisted)\<lparr>RequestID := rid\<rparr>"

definition persist_failed_control :: "string \<Rightarrow> string \<Rightarrow> ControlMessage" where
  "persist_failed_control rid reason =
     (control ControlPersistFailed)\<lparr>RequestID := rid, ErrorText := reason\<rparr>"

definition answerBarrier :: "('d, 'a) env \<Rightarrow> conn_id \<Rightarrow> string \<Rightarrow> ('d, 'a) room \<Rightarrow> ('d, 'a) room" where
  "answerBarrier e src rid r =
     (case encodeControl (persisted_control rid) of None \<Rightarrow> r | Some f \<Rightarrow> sendTo e src f r)"

definition failBarrier :: "('d, 'a) env \<Rightarrow> conn_id \<Rightarrow> string \<Rightarrow> string \<Rightarrow> ('d, 'a) room \<Rightarrow> ('d, 'a) room" where
  "failBarrier e src rid reason r =
     (case encodeControl (persist_failed_control rid reason) of None \<Rightarrow> r | Some f \<Rightarrow> sendTo e src f r)"

definition poisonDurability :: "conn_id \<Rightarrow> ('d, 'a) room \<Rightarrow> ('d, 'a) room" where
  "poisonDurability src r =
     (case member r src of
        None \<Rightarrow> r
      | Some m \<Rightarrow> if durabilityPoisoned m then r else put_member src (m\<lparr>durabilityPoisoned := True\<rparr>) r)"

definition failMemberBarrier :: "('d, 'a) env \<Rightarrow> conn_id \<Rightarrow> string \<Rightarrow> ('d, 'a) room \<Rightarrow> ('d, 'a) room" where
  "failMemberBarrier e src reason r =
     (case member r src of
        None \<Rightarrow> r
      | Some m \<Rightarrow>
          if barrier m = '''' then r
          else failBarrier e src (barrier m) reason (put_member src (m\<lparr>barrier := ''''\<rparr>) r))"

definition resolveBarriers :: "('d, 'a) env \<Rightarrow> ('d, 'a) room \<Rightarrow> ('d, 'a) room" where
  "resolveBarriers e r =
     range_members e (\<lambda>cid m s.
       if barrier m = '''' then s
       else answerBarrier e cid (barrier m) (put_member cid (m\<lparr>barrier := ''''\<rparr>) s)) r"

definition failBarriers :: "('d, 'a) env \<Rightarrow> string \<Rightarrow> ('d, 'a) room \<Rightarrow> ('d, 'a) room" where
  "failBarriers e reason r =
     range_members e (\<lambda>cid m s.
       if barrier m = '''' then s
       else failBarrier e cid (barrier m) reason (put_member cid (m\<lparr>barrier := ''''\<rparr>) s)) r"

definition maxRequestIDLen :: nat where
  "maxRequestIDLen = 64"

definition id_char :: "char \<Rightarrow> bool" where
  "id_char c = (let n = of_char c :: nat in
     (97 \<le> n \<and> n \<le> 122) \<or> (65 \<le> n \<and> n \<le> 90) \<or> (48 \<le> n \<and> n \<le> 57) \<or> c = CHR ''-'' \<or> c = CHR ''_'' \<or> c = CHR ''.'')"

definition validRequestID :: "string \<Rightarrow> bool" where
  "validRequestID rid =
     (if rid = '''' \<or> length rid > maxRequestIDLen then False else list_all id_char rid)"

definition durabilityRequestID :: "('d, 'a) env \<Rightarrow> bytes \<Rightarrow> string" where
  "durabilityRequestID e payload =
     (case unmarshal_request_id e payload of
        None \<Rightarrow> ''''
      | Some rid \<Rightarrow> if validRequestID rid then rid else '''')"

abbreviation poisonedReason :: string where "poisonedReason \<equiv> ''an earlier update from this session was rejected; resync before requesting durability''"
abbreviation droppedReason :: string where "droppedReason \<equiv> ''a previous update from this session was not accepted''"
abbreviation readOnlyText :: string where "readOnlyText \<equiv> ''this session is read-only''"
abbreviation outstandingReason :: string where "outstandingReason \<equiv> ''a durability request is already outstanding on this session''"
abbreviation noPeriodicReason :: string where "noPeriodicReason \<equiv> ''durability requests are unavailable while periodic saving is disabled''"
abbreviation rejectedReason :: string where "rejectedReason \<equiv> ''the update this request covered was rejected''"
abbreviation notPersistedReason :: string where "notPersistedReason \<equiv> ''the document could not be persisted''"
abbreviation roomEndedReason :: string where "roomEndedReason \<equiv> ''the room ended before the document could be persisted''"

definition handleDurabilityRequest ::
  "('d, 'a) env \<Rightarrow> conn_id \<Rightarrow> bytes \<Rightarrow> bool \<Rightarrow> ('d, 'a) room \<Rightarrow> bool \<times> ('d, 'a) room" where
  "handleDurabilityRequest e src payload sessionDropped r =
     (let rid = durabilityRequestID e payload
      in if rid = '''' then (False, r)
         else case member r src of
           None \<Rightarrow> (False, r)
         | Some m \<Rightarrow>
             if durabilityPoisoned m then (False, failBarrier e src rid poisonedReason r)
             else if sessionDropped then (False, failBarrier e src rid droppedReason r)
             else if mode m \<noteq> ModeCollaborator then (False, failBarrier e src rid readOnlyText r)
             else if barrier m \<noteq> '''' then (False, failBarrier e src rid outstandingReason r)
             else if \<not> dirty r then (False, answerBarrier e src rid r)
             else if SaveDebounce (cfg r) \<le> 0 then (False, failBarrier e src rid noPeriodicReason r)
             else (False, put_member src (m\<lparr>barrier := rid\<rparr>) r))"

section \<open>The contribution window\<close>

definition contributionEnabled :: "('d, 'a) room \<Rightarrow> bool" where
  "contributionEnabled r \<longleftrightarrow> ContributionWindow (cfg r) > 0"

definition detachContributors :: "('d, 'a) room \<Rightarrow> actor_id set \<times> ('d, 'a) room" where
  "detachContributors r =
     (let detached = contributors r
      in (detached, log_ev (EvContributingActors (card detached)) (r\<lparr>contributors := {}\<rparr>)))"

definition mergeContributors :: "actor_id set \<Rightarrow> ('d, 'a) room \<Rightarrow> ('d, 'a) room" where
  "mergeContributors actors r = r\<lparr>contributors := contributors r \<union> actors\<rparr>"

definition emitContribution :: "('d, 'a) env \<Rightarrow> actor_id set \<Rightarrow> ('d, 'a) room \<Rightarrow> bool \<times> ('d, 'a) room" where
  "emitContribution e actors r =
     (let ok = contribution_ok e (tick r) in (ok, log_ev (EvContribution actors ok) r))"

definition flushContribution :: "('d, 'a) env \<Rightarrow> ('d, 'a) room \<Rightarrow> ('d, 'a) room" where
  "flushContribution e r =
     (case detachContributors r of
        (detached, r1) \<Rightarrow>
          if detached = {} then r1
          else case emitContribution e detached r1 of
                 (ok, r2) \<Rightarrow> if ok then r2 else mergeContributors detached r2)"

definition startContributionFlush :: "('d, 'a) env \<Rightarrow> ('d, 'a) room \<Rightarrow> ('d, 'a) room" where
  "startContributionFlush e r =
     (if contributionFlight r \<noteq> None then r
      else case detachContributors r of
             (detached, r1) \<Rightarrow>
               if detached = {} then r1
               else log_ev (EvFlightStarted (flights r1) detached)
                 (r1\<lparr>contributionFlight := Some \<lparr>flightId = flights r1, flightActors = detached\<rparr>,
                     flights := Suc (flights r1)\<rparr>))"

definition finishContributionFlush :: "('d, 'a) env \<Rightarrow> nat option \<Rightarrow> ('d, 'a) room \<Rightarrow> ('d, 'a) room" where
  "finishContributionFlush e flight r =
     (case (flight, contributionFlight r) of
        (Some fid, Some fl) \<Rightarrow>
          if flightId fl \<noteq> fid then r
          else let r1 = r\<lparr>contributionFlight := None\<rparr>
               in if flight_ok e fid then r1 else mergeContributors (flightActors fl) r1
      | _ \<Rightarrow> r)"

definition settleContributionFlight :: "('d, 'a) env \<Rightarrow> ('d, 'a) room \<Rightarrow> ('d, 'a) room" where
  "settleContributionFlight e r =
     (case contributionFlight r of
        None \<Rightarrow> r
      | Some fl \<Rightarrow>
          (let r1 = (if flight_ok e (flightId fl) then r else mergeContributors (flightActors fl) r)
           in r1\<lparr>contributionFlight := None\<rparr>))"

definition recordContribution :: "conn_id \<Rightarrow> ('d, 'a) room \<Rightarrow> ('d, 'a) room" where
  "recordContribution src r =
     (case member r src of
        None \<Rightarrow> r
      | Some m \<Rightarrow>
          (case actorID m of
             None \<Rightarrow> r
           | Some actor \<Rightarrow> if contributionEnabled r then r\<lparr>contributors := insert actor (contributors r)\<rparr> else r))"

section \<open>Teardown\<close>

definition destroyShadow :: "('d, 'a) room \<Rightarrow> ('d, 'a) room" where
  "destroyShadow r = r\<lparr>shadow := None\<rparr>"

text \<open>The loop that announces the end to every member and closes behind it.\<close>

definition endMember :: "('d, 'a) env \<Rightarrow> SessionEnd \<Rightarrow> conn_id \<Rightarrow> roomMember \<Rightarrow> ('d, 'a) room \<Rightarrow> ('d, 'a) room" where
  "endMember e se cid m r =
     (let r1 = (case encodeControl (end_control se) of
                  None \<Rightarrow> r
                | Some f \<Rightarrow> log_ev (EvSend (conn m) f (send_ok e (tick r) (conn m))) r);
          r2 = log_ev (EvCloseAfterDrain (conn m) se) r1;
          r3 = r2\<lparr>members := AList.delete cid (members r2)\<rparr>
      in if \<not> pending m then log_ev EvConnClosed r3 else r3)"

definition endMembers :: "('d, 'a) env \<Rightarrow> SessionEnd \<Rightarrow> ('d, 'a) room \<Rightarrow> ('d, 'a) room" where
  "endMembers e se r = range_members e (endMember e se) r"

definition releaseRoom :: "('d, 'a) room \<Rightarrow> ('d, 'a) room" where
  "releaseRoom r =
     (let r1 = log_ev EvCancelContext r;
          r2 = log_ev EvCancelSubscription r1;
          r3 = log_ev EvReleaseHandle r2;
          r4 = log_ev EvCloseDone (r3\<lparr>doneClosed := True\<rparr>);
          r5 = log_ev EvOnReleased r4
      in r5\<lparr>lc := snd (finishDraining (lc r5))\<rparr>)"

definition teardown_body :: "('d, 'a) env \<Rightarrow> SessionEndCode \<Rightarrow> ('d, 'a) room \<Rightarrow> ('d, 'a) room" where
  "teardown_body e code r =
     (let r1 = failBarriers e roomEndedReason r;
          r2 = endMembers e (session_end code) r1;
          r3 = (if code \<noteq> CodeDocumentDeleted
                then flushContribution e (settleContributionFlight e r2) else r2)
      in releaseRoom r3)"

definition teardown ::
  "('d, 'a) env \<Rightarrow> SessionEndCode \<Rightarrow> (('d, 'a) room \<Rightarrow> ('d, 'a) room) \<Rightarrow> ('d, 'a) room \<Rightarrow> ('d, 'a) room" where
  "teardown e code flush r =
     (let r0 = destroyShadow r
      in case beginTeardown (lc r0) of
           (False, _) \<Rightarrow> r0
         | (True, s) \<Rightarrow> teardown_body e code (flush (r0\<lparr>lc := s\<rparr>)))"

section \<open>Flushing\<close>

definition onFlushSucceeded :: "('d, 'a) room \<Rightarrow> ('d, 'a) room" where
  "onFlushSucceeded r =
     (if flushFailures r = 0 then r
      else log_ev EvDurabilityRestored (r\<lparr>flushFailures := 0, undurableSince := None\<rparr>))"

definition flushThreshold :: "('d, 'a) room \<Rightarrow> int" where
  "flushThreshold r =
     (let t = FlushFailureThreshold (cfgLimits (cfg r))
      in if t \<le> 0 then defaultFlushFailureThreshold else t)"

definition undurableFor :: "('d, 'a) env \<Rightarrow> ('d, 'a) room \<Rightarrow> int" where
  "undurableFor e r = (case undurableSince r of None \<Rightarrow> 0 | Some t \<Rightarrow> clock e (tick r) - t)"

definition escalateUndurable :: "('d, 'a) env \<Rightarrow> int \<Rightarrow> ('d, 'a) room \<Rightarrow> ('d, 'a) room" where
  "escalateUndurable e undurable r =
     teardown e CodeEditsNotSaved (\<lambda>s. s) (log_ev (EvEscalated undurable) r)"

definition save_error_control :: "string \<Rightarrow> string \<Rightarrow> ControlMessage" where
  "save_error_control reason text = (control ControlSaveError)\<lparr>Reason := reason, ErrorText := text\<rparr>"

definition onFlushFailed :: "('d, 'a) env \<Rightarrow> ('d, 'a) room \<Rightarrow> ('d, 'a) room" where
  "onFlushFailed e r =
     (let r1 = r\<lparr>flushFailures := Suc (flushFailures r)\<rparr>;
          r2 = (if undurableSince r1 = None then r1\<lparr>undurableSince := Some (clock e (tick r1))\<rparr> else r1);
          undurable = undurableFor e r2;
          r3 = failBarriers e notPersistedReason r2;
          r4 = log_ev EvSnapshotFailed r3;
          r5 = log_ev (EvUndurable (flushFailures r4) undurable) r4
      in if int (flushFailures r5) < flushThreshold r5
         then broadcastControl e
           (save_error_control ReasonNotYetDurable ''recent edits are not yet saved; retrying'') r5
         else escalateUndurable e undurable r5)"

definition snapshot_meta :: "('d, 'a) room \<Rightarrow> Metadata" where
  "snapshot_meta r = emptyMetadata\<lparr>metaID := docId r, metaContentType := content r, metaVersion := version r + 1,
     metaAuthorizationPolicyID := policyID r, metaOwnerRef := ownerRef r, metaStorageBucketID := bucketID r\<rparr>"

definition encode_failed :: "('d, 'a) env \<Rightarrow> ('d, 'a) room \<Rightarrow> ('d, 'a) room" where
  "encode_failed e r =
     broadcastControl e (save_error_control '''' ''snapshot encode failed'') (log_ev EvSnapshotFailed r)"

definition persist_accepted :: "('d, 'a) env \<Rightarrow> ('d, 'a) room \<Rightarrow> ('d, 'a) room" where
  "persist_accepted e r =
     (let r1 = r\<lparr>version := version r + 1, dirty := False\<rparr>;
          r2 = resolveBarriers e r1;
          r3 = onFlushSucceeded r2;
          r4 = log_ev EvSnapshotSaved r3
      in broadcastControl e ((control ControlSaved)\<lparr>Version := version r4\<rparr>) r4)"

definition persist :: "('d, 'a) env \<Rightarrow> ('d, 'a) room \<Rightarrow> ('d, 'a) room" where
  "persist e r =
     (if \<not> dirty r then r
      else case encode_v2 e (doc r) of
        None \<Rightarrow> encode_failed e r
      | Some snapshot \<Rightarrow>
          (let r1 = r\<lparr>docBytes := int (length snapshot)\<rparr>
           in case state_vector_v2 e snapshot of
                None \<Rightarrow> encode_failed e r1
              | Some vector \<Rightarrow>
                  (let ok = save_checkpoint_ok e (tick r1);
                       r2 = log_ev (EvSaveCheckpoint snapshot vector ok) r1
                   in if \<not> ok then onFlushFailed e r2
                      else let ok' = save_metadata_ok e (tick r2);
                               r3 = log_ev (EvSaveMetadata (snapshot_meta r2) ok') r2
                           in if \<not> ok' then onFlushFailed e r3 else persist_accepted e r3)))"

section \<open>Timers and idle release\<close>

definition armSaveTimer :: "('d, 'a) room \<Rightarrow> ('d, 'a) room" where
  "armSaveTimer r =
     (if SaveDebounce (cfg r) \<le> 0 then r else r\<lparr>saveTimer := Some (SaveDebounce (cfg r))\<rparr>)"

definition retryBackoff :: "('d, 'a) room \<Rightarrow> int" where
  "retryBackoff r =
     (let b = SaveDebounce (cfg r) * 2 ^ nat (min (int (flushFailures r) - 1) flushRetryMaxShift)
      in if b > maxFlushRetryBackoff then maxFlushRetryBackoff else b)"

definition armRetryTimer :: "('d, 'a) room \<Rightarrow> ('d, 'a) room" where
  "armRetryTimer r =
     (if \<not> dirty r \<or> flushFailures r = 0 \<or> SaveDebounce (cfg r) \<le> 0 then r
      else r\<lparr>saveTimer := Some (retryBackoff r)\<rparr>)"

definition armIdleTimer :: "('d, 'a) room \<Rightarrow> ('d, 'a) room" where
  "armIdleTimer r = r\<lparr>idleTimer := Some (if IdleTimeout (cfg r) \<le> 0 then 1 else IdleTimeout (cfg r))\<rparr>"

definition releaseIfEmpty :: "('d, 'a) env \<Rightarrow> ('d, 'a) room \<Rightarrow> bool \<times> ('d, 'a) room" where
  "releaseIfEmpty e r =
     (if members r \<noteq> [] then (False, r)
      else let r1 = persist e r
           in if lc r1 \<noteq> stateActive then (True, r1)
              else if dirty r1 \<and> flushFailures r1 > 0 \<and> SaveDebounce (cfg r1) > 0
              then (False, armIdleTimer (armRetryTimer r1))
              else (True, teardown e CodeServerShutdown (\<lambda>s. s) r1))"

end
