(* ===== verification/RoomSync.thy ===== *)
theory RoomSync
  imports RoomDurability
begin

text \<open>
  Inbound traffic of the room: the guarded apply with its validation shadow and size budget
  (\<^verbatim>\<open>room.go\<close>), sync dispatch (\<^verbatim>\<open>sync.go\<close>), awareness framing (\<^verbatim>\<open>awareness_wire.go\<close>) and the message
  switch. A panic (\<^verbatim>\<open>invariantFailed\<close>) is the result \<open>None\<close> together with the room at that point; it is
  passed up to the run loop, which recovers.
\<close>

section \<open>The guarded apply\<close>

record updateOrigin =
  src :: conn_id
  peer :: bool

datatype applyResult = applyOK | applyRejectedTooLarge | applyRejectedSchema | applyCandidateFailed

definition cloneDoc :: "('d, 'a) env \<Rightarrow> 'd \<Rightarrow> document_id \<Rightarrow> 'd option" where
  "cloneDoc e source guid =
     (case encode_v2 e source of
        None \<Rightarrow> None
      | Some state \<Rightarrow>
          (case apply_update_v2 e (new_doc e guid) state of (d, _, ok) \<Rightarrow> if ok then Some d else None))"

definition validateSchema :: "('d, 'a) env \<Rightarrow> ('d, 'a) room \<Rightarrow> 'd \<Rightarrow> schema_error option" where
  "validateSchema e r d = validateContent (content r) (files_of e) (images_of e) d"

definition applyWouldExceedMaxDocBytes :: "('d, 'a) env \<Rightarrow> bytes \<Rightarrow> ('d, 'a) room \<Rightarrow> bool \<times> ('d, 'a) room" where
  "applyWouldExceedMaxDocBytes e update r =
     (let limit = MaxDocBytes (cfgLimits (cfg r))
      in if limit \<le> 0 then (False, r)
         else if docBytes r > 0 \<and> docBytes r + 2 * int (length update) + budgetSkipSlack \<le> limit then (False, r)
         else case encode_v2 e (doc r) of
           None \<Rightarrow> (False, r)
         | Some cur \<Rightarrow>
             (let r1 = r\<lparr>docBytes := int (length cur)\<rparr>
              in case apply_update_v2 e (new_doc e (docId r)) cur of
                   (s1, _, ok1) \<Rightarrow>
                     if \<not> ok1 then (False, r1)
                     else case apply_update e s1 update of
                       (s2, _, ok2) \<Rightarrow>
                         if \<not> ok2 then (False, r1)
                         else case encode_v2 e s2 of
                           None \<Rightarrow> (False, r1)
                         | Some encoded \<Rightarrow> (int (length encoded) > limit, r1)))"

definition onDocUpdate :: "('d, 'a) env \<Rightarrow> bytes \<Rightarrow> updateOrigin \<Rightarrow> ('d, 'a) room \<Rightarrow> ('d, 'a) room" where
  "onDocUpdate e update origin r =
     (let r1 = r\<lparr>dirty := True, docUpdates := Suc (docUpdates r), docBytes := docBytes r + int (length update)\<rparr>;
          r2 = broadcast e (FRaw (encode_update e update)) (src origin) r1
      in if \<not> peer origin then publishToPeers e (FRaw update) False r2 else r2)"

definition rebuildShadow :: "('d, 'a) env \<Rightarrow> ('d, 'a) room \<Rightarrow> ('d, 'a) room option" where
  "rebuildShadow e r = map_option (\<lambda>fresh. r\<lparr>shadow := Some fresh\<rparr>) (cloneDoc e (doc r) (docId r))"

text \<open>The apply on the authoritative document, with its observer; a failure is fatal under a shadow.\<close>

definition applyLive ::
  "('d, 'a) env \<Rightarrow> bytes \<Rightarrow> updateOrigin \<Rightarrow> ('d, 'a) room \<Rightarrow> applyResult option \<times> ('d, 'a) room" where
  "applyLive e update origin r =
     (case apply_update e (doc r) update of
        (d, ev, ok) \<Rightarrow>
          (let r1 = r\<lparr>doc := d\<rparr>;
               r2 = (case ev of None \<Rightarrow> r1 | Some u \<Rightarrow> onDocUpdate e u origin r1)
           in if \<not> ok \<and> shadow r2 \<noteq> None then (None, r2) else (Some applyOK, r2)))"

definition reject_after_rebuild ::
  "('d, 'a) env \<Rightarrow> applyResult \<Rightarrow> ('d, 'a) room \<Rightarrow> applyResult option \<times> ('d, 'a) room" where
  "reject_after_rebuild e res r =
     (case rebuildShadow e r of None \<Rightarrow> (None, r) | Some r' \<Rightarrow> (Some res, r'))"

definition applyUpdate ::
  "('d, 'a) env \<Rightarrow> bytes \<Rightarrow> updateOrigin \<Rightarrow> ('d, 'a) room \<Rightarrow> applyResult option \<times> ('d, 'a) room" where
  "applyUpdate e update origin r =
     (case applyWouldExceedMaxDocBytes e update r of
        (exceeds, r1) \<Rightarrow>
          if exceeds \<and> \<not> peer origin then (Some applyRejectedTooLarge, r1)
          else case shadow r1 of
            None \<Rightarrow> applyLive e update origin r1
          | Some sh \<Rightarrow>
              (case apply_update e sh update of
                 (sh', _, ok) \<Rightarrow>
                   (let r2 = r1\<lparr>shadow := Some sh'\<rparr>
                    in if \<not> ok then reject_after_rebuild e applyCandidateFailed r2
                       else if validateSchema e r2 sh' \<noteq> None then reject_after_rebuild e applyRejectedSchema r2
                       else applyLive e update origin r2)))"

section \<open>Sync messages\<close>

record syncOutcome =
  mutating :: bool
  applied :: bool
  rejectedTooLarge :: bool
  rejectedSchema :: bool
  rejectedNotWritable :: bool

definition noOutcome :: syncOutcome where
  "noOutcome = \<lparr>mutating = False, applied = False, rejectedTooLarge = False, rejectedSchema = False, rejectedNotWritable = False\<rparr>"

text \<open>\<open>SyncReturned outcome reply\<close>, an error return, or the panic of the apply.\<close>

datatype sync_result = SyncReturned syncOutcome bytes | SyncError | SyncPanic

definition dispatchSync ::
  "('d, 'a) env \<Rightarrow> bytes \<Rightarrow> conn_id \<Rightarrow> bool \<Rightarrow> ('d, 'a) room \<Rightarrow> sync_result \<times> ('d, 'a) room" where
  "dispatchSync e framed source canMutate r =
     (case inspect_message e framed of
        None \<Rightarrow> (SyncError, r)
      | Some info \<Rightarrow>
          if infoType info \<noteq> WireSync then (SyncReturned noOutcome [], r)
          else case infoSyncType info of
            SyncMessageStep1 \<Rightarrow>
              (case encode_sync_step2 e (doc r) (infoBody info) of
                 None \<Rightarrow> (SyncError, r)
               | Some step2 \<Rightarrow> (SyncReturned noOutcome step2, r))
          | SyncOther _ \<Rightarrow> (SyncReturned noOutcome [], r)
          | st \<Rightarrow>
              if \<not> canMutate
              then (SyncReturned (noOutcome\<lparr>mutating := True,
                      rejectedNotWritable := (st = SyncMessageUpdate \<or> infoBody info \<noteq> canonicalEmptyUpdateV1 e)\<rparr>) [], r)
              else case applyUpdate e (infoBody info) \<lparr>src = source, peer = False\<rparr> r of
                (None, r') \<Rightarrow> (SyncPanic, r')
              | (Some applyRejectedTooLarge, r') \<Rightarrow>
                  (SyncReturned (noOutcome\<lparr>mutating := True, rejectedTooLarge := True\<rparr>) [], r')
              | (Some applyRejectedSchema, r') \<Rightarrow>
                  (SyncReturned (noOutcome\<lparr>mutating := True, rejectedSchema := True\<rparr>) [], r')
              | (Some applyCandidateFailed, r') \<Rightarrow> (SyncReturned (noOutcome\<lparr>mutating := True\<rparr>) [], r')
              | (Some applyOK, r') \<Rightarrow> (SyncReturned (noOutcome\<lparr>mutating := True, applied := True\<rparr>) [], r'))"

definition canMutate :: "conn_id \<Rightarrow> ('d, 'a) room \<Rightarrow> bool" where
  "canMutate source r = (case member r source of None \<Rightarrow> False | Some m \<Rightarrow> mode m = ModeCollaborator)"

definition update_rejected_control :: ControlMessage where
  "update_rejected_control = (control ControlUpdateRejected)
     \<lparr>ErrorText := ''update rejected: file locators must be references, not inline data''\<rparr>"

definition handleSync :: "('d, 'a) env \<Rightarrow> conn_id \<Rightarrow> bytes \<Rightarrow> ('d, 'a) room \<Rightarrow> bool option \<times> ('d, 'a) room" where
  "handleSync e source payload r =
     (let wasDirty = dirty r; updatesBefore = docUpdates r
      in case dispatchSync e (write_message e WireSync payload) source (canMutate source r) r of
           (SyncPanic, r1) \<Rightarrow> (None, r1)
         | (SyncError, r1) \<Rightarrow> (Some False, r1)
         | (SyncReturned oc reply, r1) \<Rightarrow>
             (let r2 = (if reply \<noteq> [] then sendTo e source (FRaw reply) r1 else r1)
              in if rejectedTooLarge oc
                 then (Some False, disconnect e source CodeDocumentSizeLimitExceeded
                         (failMemberBarrier e source rejectedReason r2))
                 else if rejectedSchema oc
                 then let r3 = failMemberBarrier e source rejectedReason (poisonDurability source r2);
                          r4 = (case encodeControl update_rejected_control of
                                  None \<Rightarrow> r3 | Some f \<Rightarrow> sendTo e source f r3)
                      in (Some False, disconnect e source CodeContentRefused r4)
                 else if rejectedNotWritable oc
                 then (Some False, disconnect e source CodeForbidden
                         (failMemberBarrier e source rejectedReason (poisonDurability source r2)))
                 else let r3 = (if applied oc \<and> docUpdates r2 \<noteq> updatesBefore
                                then recordContribution source r2 else r2)
                      in (Some (dirty r3 \<and> \<not> wasDirty), r3)))"

section \<open>Awareness framing\<close>

fun varUintLen :: "nat \<Rightarrow> nat" where
  "varUintLen v = (if v < 128 then 1 else Suc (varUintLen (v div 128)))"

declare varUintLen.simps [simp del]

definition awarenessBody :: "('d, 'a) env \<Rightarrow> bytes \<Rightarrow> bytes option" where
  "awarenessBody e frame =
     (case inspect_message e frame of
        None \<Rightarrow> None
      | Some info \<Rightarrow>
          if infoType info \<noteq> WireAwareness then None
          else if infoBodyLength info < 0 then None
          else if infoFrameLength info \<noteq> 1 + int (varUintLen (nat (infoBodyLength info))) + infoBodyLength info
          then None
          else Some (infoBody info))"

definition trackAwarenessID :: "('d, 'a) env \<Rightarrow> conn_id \<Rightarrow> bytes \<Rightarrow> ('d, 'a) room \<Rightarrow> ('d, 'a) room" where
  "trackAwarenessID e source payload r =
     (case member r source of
        None \<Rightarrow> r
      | Some m \<Rightarrow>
          if hasAwareness m then r
          else case decode_awareness_id e payload of
            None \<Rightarrow> r
          | Some clientID \<Rightarrow>
              (put_member source (m\<lparr>awarenessID := clientID, hasAwareness := True\<rparr>) r)
                \<lparr>awarenessOwners := (awarenessOwners r)(clientID \<mapsto> source)\<rparr>)"

section \<open>The message switch\<close>

definition allowRate :: "('d, 'a) env \<Rightarrow> conn_id \<Rightarrow> ('d, 'a) room \<Rightarrow> bool \<times> ('d, 'a) room" where
  "allowRate e source r =
     (case member r source of
        None \<Rightarrow> (True, r)
      | Some m \<Rightarrow>
          (case allow (clock e (tick r)) (bucket m) of
             (ok, b) \<Rightarrow> (ok, put_member source (m\<lparr>bucket := b\<rparr>) r)))"

definition relay :: "('d, 'a) env \<Rightarrow> bytes \<Rightarrow> conn_id \<Rightarrow> ('d, 'a) room \<Rightarrow> ('d, 'a) room" where
  "relay e frame source r = publishToPeers e (FRaw frame) True (broadcast e (FRaw frame) source r)"

definition handleAwareness :: "('d, 'a) env \<Rightarrow> conn_id \<Rightarrow> bytes \<Rightarrow> ('d, 'a) room \<Rightarrow> ('d, 'a) room" where
  "handleAwareness e source frame r =
     (case awarenessBody e frame of
        None \<Rightarrow> r
      | Some body \<Rightarrow>
          (case apply_awareness e (awareness r) body of
             (aw, ok) \<Rightarrow>
               (let r1 = r\<lparr>awareness := aw\<rparr>
                in if \<not> ok then r1
                   else relay e frame source (trackAwarenessID e source body r1))))"

definition handleMessage ::
  "('d, 'a) env \<Rightarrow> conn_id \<Rightarrow> bytes \<Rightarrow> bool \<Rightarrow> ('d, 'a) room \<Rightarrow> bool option \<times> ('d, 'a) room" where
  "handleMessage e source frame sessionDropped r =
     (case member r source of
        None \<Rightarrow> (Some False, r)
      | Some _ \<Rightarrow>
          (case (read_message e frame, allowRate e source r) of
             (_, (False, r1)) \<Rightarrow> (Some False, disconnect e source CodeUpdateRateExceeded r1)
           | (None, (True, r1)) \<Rightarrow> (Some False, r1)
           | (Some (msgType, payload), (True, r1)) \<Rightarrow>
               if msgType = WireSync then handleSync e source payload r1
               else if msgType = WireAwareness then (Some False, handleAwareness e source frame r1)
               else if msgType = WireEphemeral then (Some False, relay e frame source r1)
               else if msgType = WireDurabilityRequest
               then (case handleDurabilityRequest e source payload sessionDropped r1 of (b, r2) \<Rightarrow> (Some b, r2))
               else (Some False, r1)))"

section \<open>Peer traffic\<close>

definition applyPeerEphemeral :: "('d, 'a) env \<Rightarrow> bytes \<Rightarrow> ('d, 'a) room \<Rightarrow> ('d, 'a) room" where
  "applyPeerEphemeral e frame r =
     (case inspect_message e frame of
        None \<Rightarrow> r
      | Some info \<Rightarrow>
          if infoType info = WireAwareness
          then (case awarenessBody e frame of
                  None \<Rightarrow> r
                | Some body \<Rightarrow>
                    broadcast e (FRaw frame) 0 (r\<lparr>awareness := fst (apply_awareness e (awareness r) body)\<rparr>))
          else if infoType info = WireEphemeral then broadcast e (FRaw frame) 0 r
          else r)"

definition handlePeer :: "('d, 'a) env \<Rightarrow> bytes \<Rightarrow> bool \<Rightarrow> ('d, 'a) room \<Rightarrow> bool option \<times> ('d, 'a) room" where
  "handlePeer e payload ephemeral r =
     (if ephemeral then (Some False, applyPeerEphemeral e payload r)
      else case applyUpdate e payload \<lparr>src = 0, peer = True\<rparr> r of
        (None, r1) \<Rightarrow> (None, r1)
      | (Some _, r1) \<Rightarrow> (Some (dirty r1 \<and> \<not> dirty r), r1))"

end
