(* ===== verification/RoomLoop.thy ===== *)
theory RoomLoop
  imports RoomSync
begin

text \<open>
  Joining, leaving, the command switch \<^verbatim>\<open>dispatch\<close> and the select loop \<^verbatim>\<open>run\<close> of \<^verbatim>\<open>room.go\<close>, admission to
  the command queue, and the materialization of a room (\<^verbatim>\<open>newRoom\<close>). One turn of the select loop is
  \<open>run_step\<close>; \<open>run_reach\<close> are the states a running room can be in.
\<close>

section \<open>Joining and leaving\<close>

datatype join_error = ErrRoomFull | ErrRoomUnavailable

definition readOnlyReasonForIdentity :: "identity \<Rightarrow> string" where
  "readOnlyReasonForIdentity i =
     (if i = None \<or> i = Some uuidNil then ReasonNotAuthenticated else ReasonNoUpdateAccess)"

definition resolveJoinCapability ::
  "identity \<Rightarrow> collaboratorMode \<Rightarrow> bool option \<Rightarrow> ('d, 'a) room \<Rightarrow> (collaboratorMode \<times> string) \<times> ('d, 'a) room" where
  "resolveJoinCapability ident requested multiUser r =
     (let r1 = (case multiUser of None \<Rightarrow> r | Some b \<Rightarrow> r\<lparr>isMultiUser := Some b\<rparr>);
          reason = readOnlyReasonForIdentity ident
      in if requested = ModeCollaborator \<and> isMultiUser r1 = Some False \<and>
            list_ex (\<lambda>(cid, m). mode m = ModeCollaborator) (members r1)
         then ((ModeViewer, ReasonMultiUserNotAllowed), r1)
         else if requested = ModeViewer then ((requested, reason), r1)
         else ((requested, ''''), r1))"

definition awarenessSnapshot :: "('d, 'a) env \<Rightarrow> 'a \<Rightarrow> bytes option" where
  "awarenessSnapshot e aw =
     (let clients = awareness_states e aw
      in if clients = [] then None else encode_awareness_message e (encode_awareness e aw clients))"

definition optional_frame :: "frame option \<Rightarrow> frame list" where
  "optional_frame f = (case f of None \<Rightarrow> [] | Some x \<Rightarrow> [x])"

definition initialJoinFrames ::
  "('d, 'a) env \<Rightarrow> frame \<Rightarrow> collaboratorMode \<Rightarrow> string \<Rightarrow> ('d, 'a) room \<Rightarrow> frame list" where
  "initialJoinFrames e adm md reason r =
     (let frames = [adm, FRaw (encode_sync_step1 e (doc r))] @
            optional_frame (map_option FRaw (awarenessSnapshot e (awareness r)))
      in if md \<noteq> ModeViewer then frames
         else frames @
           optional_frame (encodeControl ((control ControlReadOnlyState)\<lparr>ReadOnly := Some True, Reason := reason\<rparr>)) @
           (if reason = ReasonMultiUserNotAllowed
            then optional_frame (encodeControl ((control ControlCollaboratorMode)
                   \<lparr>Mode := mode_literal ModeViewer, Reason := reason\<rparr>))
            else []))"

definition admission_control :: "collaboratorMode \<Rightarrow> string \<Rightarrow> ControlMessage" where
  "admission_control md reason = (control ControlAdmission)
     \<lparr>Mode := (if md = ModeViewer then AdmissionRead else AdmissionWrite), Reason := reason\<rparr>"

definition handleJoin ::
  "('d, 'a) env \<Rightarrow> conn_ref \<Rightarrow> identity \<Rightarrow> collaboratorMode \<Rightarrow> bool option \<Rightarrow> ('d, 'a) room \<Rightarrow>
     (join_error + conn_id \<times> frame list) \<times> ('d, 'a) room" where
  "handleJoin e c ident requested multiUser r =
     (case resolveJoinCapability ident requested multiUser r of
        ((md, reason), r1) \<Rightarrow>
          if maxConns r1 > 0 \<and> int (length (members r1)) \<ge> maxConns r1 then (Inl ErrRoomFull, r1)
          else
            (let r2 = r1\<lparr>nextID := Suc (nextID r1)\<rparr>;
                 cid = nextID r2;
                 lim = cfgLimits (cfg r2);
                 m = \<lparr>mid = cid, conn = c, actorID = ident, mode = md, pending = True,
                      bucket = newTokenBucket (UpdateRatePerSec lim) (UpdateBurst lim) (clock e (tick r2)),
                      awarenessID = 0, hasAwareness = False, durabilityPoisoned = False, barrier = ''''\<rparr>
             in case encodeControl (admission_control md reason) of
                  None \<Rightarrow> (Inl ErrRoomUnavailable, r2)
                | Some adm \<Rightarrow>
                    (let r3 = put_member cid m r2
                     in (Inr (cid, initialJoinFrames e adm md reason r3), r3))))"

definition handleActivate :: "('d, 'a) env \<Rightarrow> conn_id \<Rightarrow> ('d, 'a) room \<Rightarrow> join_error option \<times> ('d, 'a) room" where
  "handleActivate e cid r =
     (case member r cid of
        None \<Rightarrow> (Some ErrRoomUnavailable, r)
      | Some m \<Rightarrow>
          if \<not> pending m then (None, r)
          else let r1 = put_member cid (m\<lparr>pending := False\<rparr>) r;
                   r2 = log_ev EvConnOpened r1
               in (None, broadcastControl e (users_control r2) r2))"

definition handleLeave :: "('d, 'a) env \<Rightarrow> conn_id \<Rightarrow> ('d, 'a) room \<Rightarrow> ('d, 'a) room" where
  "handleLeave e cid r =
     (case member r cid of
        None \<Rightarrow> r
      | Some m \<Rightarrow>
          (let r1 = dropIt e cid r
           in if pending m then r1 else broadcastControl e (users_control r1) r1))"

section \<open>Commands\<close>

datatype command =
    CmdJoin conn_ref identity collaboratorMode "bool option"
  | CmdActivate conn_id
  | CmdLeave conn_id
  | CmdMessage conn_id bytes bool
  | CmdClose
  | CmdCloseDeleted
  | CmdContributionDone "nat option"

text \<open>What a command's result channel receives.\<close>

datatype reply = NoReply | JoinReply "join_error + conn_id \<times> frame list" | AckReply "join_error option"

definition armIdleIfEmpty :: "('d, 'a) room \<Rightarrow> ('d, 'a) room" where
  "armIdleIfEmpty r = (if members r = [] then armIdleTimer r else r)"

definition handleMessageCmd ::
  "('d, 'a) env \<Rightarrow> conn_id \<Rightarrow> bytes \<Rightarrow> bool \<Rightarrow> ('d, 'a) room \<Rightarrow> bool \<times> ('d, 'a) room" where
  "handleMessageCmd e source data dropped r =
     (case handleMessage e source data dropped r of
        (None, r1) \<Rightarrow> (False, r1)
      | (Some mut, r1) \<Rightarrow> (True, armIdleIfEmpty (if mut then armSaveTimer r1 else r1)))"

text \<open>\<open>dispatch\<close> returns whether it panicked, whether the loop keeps running, the reply and the room.\<close>

datatype turn = KeepRunning | Stop | Panicked

definition dispatch :: "('d, 'a) env \<Rightarrow> command \<Rightarrow> ('d, 'a) room \<Rightarrow> turn \<times> reply \<times> ('d, 'a) room" where
  "dispatch e cmd r =
     (case cmd of
        CmdJoin c ident md multiUser \<Rightarrow>
          (case handleJoin e c ident md multiUser (r\<lparr>idleTimer := None\<rparr>) of
             (res, r1) \<Rightarrow> (KeepRunning, JoinReply res, armIdleIfEmpty r1))
      | CmdActivate cid \<Rightarrow> (case handleActivate e cid r of (res, r1) \<Rightarrow> (KeepRunning, AckReply res, r1))
      | CmdLeave cid \<Rightarrow> (KeepRunning, NoReply, armIdleIfEmpty (handleLeave e cid r))
      | CmdMessage source data dropped \<Rightarrow>
          (case handleMessageCmd e source data dropped r of
             (ok, r1) \<Rightarrow> (if ok then KeepRunning else Panicked, NoReply, r1))
      | CmdCloseDeleted \<Rightarrow> (Stop, AckReply None, teardown e CodeDocumentDeleted (\<lambda>s. s) r)
      | CmdClose \<Rightarrow> (Stop, NoReply, teardown e CodeServerShutdown (persist e) r)
      | CmdContributionDone fl \<Rightarrow> (KeepRunning, NoReply, finishContributionFlush e fl r))"

section \<open>The select loop\<close>

datatype loop_event = LCommand command | LPeer bytes bool | LSaveTimer | LIdleTimer | LContribTimer

definition recover_panic :: "('d, 'a) env \<Rightarrow> ('d, 'a) room \<Rightarrow> ('d, 'a) room" where
  "recover_panic e r = teardown e CodeEditsNotSaved (\<lambda>s. s) r"

definition run_step :: "('d, 'a) env \<Rightarrow> loop_event \<Rightarrow> ('d, 'a) room \<Rightarrow> bool \<times> ('d, 'a) room" where
  "run_step e ev r =
     (case ev of
        LCommand cmd \<Rightarrow>
          (case dispatch e cmd r of
             (KeepRunning, _, r1) \<Rightarrow> (True, r1)
           | (Stop, _, r1) \<Rightarrow> (False, r1)
           | (Panicked, _, r1) \<Rightarrow> (False, recover_panic e r1))
      | LPeer payload ephemeral \<Rightarrow>
          (case handlePeer e payload ephemeral r of
             (None, r1) \<Rightarrow> (False, recover_panic e r1)
           | (Some mut, r1) \<Rightarrow> (True, if mut then armSaveTimer r1 else r1))
      | LSaveTimer \<Rightarrow>
          (let r1 = persist e (r\<lparr>saveTimer := None\<rparr>)
           in if lc r1 \<noteq> stateActive then (False, r1) else (True, armRetryTimer r1))
      | LIdleTimer \<Rightarrow>
          (case releaseIfEmpty e (r\<lparr>idleTimer := None\<rparr>) of (stop, r1) \<Rightarrow> (\<not> stop, r1))
      | LContribTimer \<Rightarrow> (True, startContributionFlush e r))"

text \<open>A timer case of the select is ready only when the timer is armed; the contribution ticker
  only when its window is positive (\<^verbatim>\<open>newOptionalTicker\<close>).\<close>

definition ready :: "loop_event \<Rightarrow> ('d, 'a) room \<Rightarrow> bool" where
  "ready ev r =
     (case ev of
        LSaveTimer \<Rightarrow> saveTimer r \<noteq> None
      | LIdleTimer \<Rightarrow> idleTimer r \<noteq> None
      | LContribTimer \<Rightarrow> contributionEnabled r
      | _ \<Rightarrow> True)"

inductive run_reach :: "('d, 'a) env \<Rightarrow> ('d, 'a) room \<Rightarrow> bool \<Rightarrow> ('d, 'a) room \<Rightarrow> bool"
  for e r0 where
  run_start: "run_reach e r0 True r0"
| run_next: "run_reach e r0 True r \<Longrightarrow> ready ev r \<Longrightarrow> run_step e ev r = (go, r') \<Longrightarrow> run_reach e r0 go r'"

section \<open>Admission to the command queue\<close>

datatype enqueueOutcome = enqueueAdmitted | enqueueRefusedInactive | enqueueRefusedBackpressure

text \<open>
  \<^verbatim>\<open>enqueueWithReason\<close> over the states it can observe: the lifecycle when it is called, how the select
  ended, and the lifecycle when a timed-out wait is classified.
\<close>

datatype select_end = SlotTaken | DoneObserved | TimedOut

definition classifyRefusal :: "roomState \<Rightarrow> enqueueOutcome" where
  "classifyRefusal s = (if s \<noteq> stateActive then enqueueRefusedInactive else enqueueRefusedBackpressure)"

definition enqueueWithReason :: "roomState \<Rightarrow> select_end \<Rightarrow> roomState \<Rightarrow> enqueueOutcome" where
  "enqueueWithReason before how after =
     (if before \<noteq> stateActive then enqueueRefusedInactive
      else case how of
        SlotTaken \<Rightarrow> enqueueAdmitted
      | DoneObserved \<Rightarrow> enqueueRefusedInactive
      | TimedOut \<Rightarrow> classifyRefusal after)"

text \<open>What callers that need no reason see, and how long they wait for a slot.\<close>

definition enqueueCtx :: "roomState \<Rightarrow> select_end \<Rightarrow> roomState \<Rightarrow> bool" where
  "enqueueCtx before how after \<longleftrightarrow> enqueueWithReason before how after = enqueueAdmitted"

definition enqueueDeadline :: int where
  "enqueueDeadline = 30 * second"

text \<open>
  A refusal for backpressure, the only one a session is told about, comes from a room that was active when
  the call began and active when it was classified.
\<close>

lemma enqueue_outcomes:
  "enqueueWithReason before how after = enqueueRefusedBackpressure \<longleftrightarrow>
     before = stateActive \<and> how = TimedOut \<and> after = stateActive"
  "enqueueCtx before how after \<longleftrightarrow> before = stateActive \<and> how = SlotTaken"
  by (auto simp: enqueueWithReason_def classifyRefusal_def enqueueCtx_def split: select_end.splits)

section \<open>Materialization\<close>

text \<open>The bound on one backend call.\<close>

definition backendTimeout :: "roomConfig \<Rightarrow> int" where
  "backendTimeout c = (if BackendTimeout c > 0 then BackendTimeout c else defaultBackendTimeout)"

datatype load_error = ErrNotFound | ErrCorrupt | ErrOther string

datatype room_error =
    MetadataError load_error | StoredStateError load_error | ApplyStoredError
  | SchemaViolation schema_error | ShadowError | SubscribeError | RegistryClosed

definition applyConvention :: "('d, 'a) env \<Rightarrow> string \<Rightarrow> 'd \<Rightarrow> 'd" where
  "applyConvention e ct d =
     (if ct = ContentTypeMemo then get_xml_fragment e ''default'' d
      else if ct = ContentTypeWhiteboard
      then get_map e ''appState'' (get_map e ''files'' (get_map e ''elements'' d))
      else d)"

definition emptyRoom :: "('d, 'a) env \<Rightarrow> document_id \<Rightarrow> string \<Rightarrow> roomConfig \<Rightarrow> ('d, 'a) room" where
  "emptyRoom e did ct c =
     (let c' = (if BackendTimeout c \<le> 0 then c\<lparr>BackendTimeout := defaultBackendTimeout\<rparr> else c); d = new_doc e did
      in \<lparr>docId = did, content = ct, doc = d, shadow = None, awareness = new_awareness e d, cfg = c',
         members = [], nextID = 0, awarenessOwners = Map.empty, dirty = False, docBytes = 0, flushFailures = 0,
         undurableSince = None, version = 0, policyID = '''', ownerRef = '''', bucketID = '''',
         isMultiUser = None, maxConns = MaxConnsPerRoom (cfgLimits c'), contributors = {}, docUpdates = 0,
         contributionFlight = None, flights = 0, lc = stateMaterializing, doneClosed = False, saveTimer = None,
         idleTimer = None, trace = []\<rparr>)"

definition loadMetadata ::
  "load_error + Metadata \<Rightarrow> ('d, 'a) room \<Rightarrow> (load_error + bool) \<times> ('d, 'a) room" where
  "loadMetadata loaded r =
     (case loaded of
        Inl err \<Rightarrow> if err = ErrNotFound then (Inr False, r) else (Inl err, r)
      | Inr meta \<Rightarrow>
          (Inr True,
           r\<lparr>version := metaVersion meta, policyID := metaAuthorizationPolicyID meta, ownerRef := metaOwnerRef meta,
             bucketID := metaStorageBucketID meta, isMultiUser := metaIsMultiUser meta,
             content := (if metaContentType meta \<noteq> '''' then metaContentType meta else content r)\<rparr>))"

definition restoreInto ::
  "('d, 'a) env \<Rightarrow> load_error + bytes \<Rightarrow> 'd \<Rightarrow> ('d, 'a) room \<Rightarrow> (room_error + 'd) \<times> ('d, 'a) room" where
  "restoreInto e checkpoint d r =
     (case checkpoint of
        Inl err \<Rightarrow> if err = ErrNotFound then (Inr d, r) else (Inl (StoredStateError err), r)
      | Inr update \<Rightarrow>
          (case apply_update_v2 e d update of
             (d', _, ok) \<Rightarrow>
               if \<not> ok then (Inl ApplyStoredError, r)
               else (Inr d', r\<lparr>docBytes := int (length update)\<rparr>)))"

text \<open>The registry's open function: restore, convention, and the check of what was stored.\<close>

definition openDoc ::
  "('d, 'a) env \<Rightarrow> bool \<Rightarrow> load_error + bytes \<Rightarrow> ('d, 'a) room \<Rightarrow> (room_error + 'd) \<times> ('d, 'a) room" where
  "openDoc e found checkpoint r =
     (case (if found then restoreInto e checkpoint (new_doc e (docId r)) r else (Inr (new_doc e (docId r)), r)) of
        (Inl err, r1) \<Rightarrow> (Inl err, r1)
      | (Inr d, r1) \<Rightarrow>
          (let d1 = applyConvention e (content r1) d
           in case validateContent (content r1) (files_of e) (images_of e) d1 of
                Some verr \<Rightarrow> (Inl (SchemaViolation verr), r1)
              | None \<Rightarrow> (Inr d1, r1)))"

definition measureLiveDoc :: "('d, 'a) env \<Rightarrow> 'd \<Rightarrow> ('d, 'a) room \<Rightarrow> ('d, 'a) room" where
  "measureLiveDoc e d r =
     (case encode_v2 e d of None \<Rightarrow> r | Some encoded \<Rightarrow> r\<lparr>docBytes := int (length encoded)\<rparr>)"

definition initShadow :: "('d, 'a) env \<Rightarrow> ('d, 'a) room \<Rightarrow> ('d, 'a) room option" where
  "initShadow e r =
     (if content r \<noteq> ContentTypeWhiteboard \<and> content r \<noteq> ContentTypeMemo then Some r
      else rebuildShadow e r)"

text \<open>
  \<open>acquired\<close> is what the registry did: it was closed, it returned the document another room already
  opened, or it ran the open function. \<open>subscribed\<close> is the hub's answer.
\<close>

datatype 'd acquisition = AcqClosed | AcqLive 'd | AcqOpened

text \<open>What \<^verbatim>\<open>newRoom\<close> does once it holds the document: shadow, size, awareness, subscription, activation.\<close>

definition attachRoom ::
  "('d, 'a) env \<Rightarrow> bool \<Rightarrow> bool \<Rightarrow> 'd \<Rightarrow> ('d, 'a) room \<Rightarrow> room_error + ('d, 'a) room" where
  "attachRoom e opened subscribed d r2 =
     (case initShadow e (r2\<lparr>doc := d\<rparr>) of
        None \<Rightarrow> Inl ShadowError
      | Some r3 \<Rightarrow>
          (let r4 = (if opened then r3 else measureLiveDoc e d r3);
               r5 = r4\<lparr>awareness := clear_local_state e (new_awareness e d)\<rparr>
           in if \<not> subscribed then Inl SubscribeError
              else Inr (r5\<lparr>lc := snd (activate (lc r5))\<rparr>)))"

definition newRoom ::
  "('d, 'a) env \<Rightarrow> document_id \<Rightarrow> string \<Rightarrow> roomConfig \<Rightarrow> load_error + Metadata \<Rightarrow> load_error + bytes \<Rightarrow>
     'd acquisition \<Rightarrow> bool \<Rightarrow> room_error + ('d, 'a) room" where
  "newRoom e did ct c loaded checkpoint acq subscribed =
     (case loadMetadata loaded (emptyRoom e did ct c) of
        (Inl err, _) \<Rightarrow> Inl (MetadataError err)
      | (Inr found, r1) \<Rightarrow>
          (let opened = (case acq of
                 AcqClosed \<Rightarrow> (Inl RegistryClosed, r1)
               | AcqLive d \<Rightarrow> (Inr d, r1)
               | AcqOpened \<Rightarrow> openDoc e found checkpoint r1)
           in case opened of
                (Inl err, _) \<Rightarrow> Inl err
              | (Inr d, r2) \<Rightarrow> attachRoom e (acq = AcqOpened) subscribed d r2))"

end
