(* ===== verification/Manager.thy ===== *)
theory Manager
  imports RoomLoop
begin

text \<open>
  \<^verbatim>\<open>internal/domain/service/manager.go\<close>: the room registry. The first part has the manager's data and
  one definition per critical section of its mutex, the second the handle a connection holds
  (\<^verbatim>\<open>Session\<close>), the third the whole system: \<^verbatim>\<open>Join\<close>, \<^verbatim>\<open>acquire\<close>, \<^verbatim>\<open>CloseDeleted\<close>, \<^verbatim>\<open>Close\<close> and the run loops of
  the rooms as threads that interleave at every lock, channel and backend call.
\<close>

section \<open>The manager and its critical sections\<close>

type_synonym room_ref = nat

record manager =
  rooms :: "(document_id \<times> room_ref) list"
  deleteTombstones :: "document_id \<rightharpoonup> int"
  isClosed :: bool
  deleteEpoch :: "64 word"
  mcfg :: roomConfig

datatype mgr_error =
    ErrForbidden
  | ErrDocumentUnknown
  | ErrShuttingDown
  | RoomRefused join_error
  | AuthorizeError privilege
  | ResolveError load_error
  | MaterializeError room_error

abbreviation errRoomUnavailable :: mgr_error where
  "errRoomUnavailable \<equiv> RoomRefused ErrRoomUnavailable"

definition maxHeartbeatFrameBytes :: nat where
  "maxHeartbeatFrameBytes = 256"

definition shutdownDrainGrace :: int where
  "shutdownDrainGrace = 5 * second"

definition deleteTombstoneTTL :: int where
  "deleteTombstoneTTL = 300 * second"

definition NewManager :: "roomConfig \<Rightarrow> manager" where
  "NewManager c =
     \<lparr>rooms = [], deleteTombstones = Map.empty, isClosed = False, deleteEpoch = 0,
      mcfg = (if SendBuffer c = 0 \<and> SaveDebounce c = 0 \<and> IdleTimeout c = 0 then DefaultRoomConfig else c)\<rparr>"

definition mgrSendBuffer :: "manager \<Rightarrow> int" where
  "mgrSendBuffer m = (if SendBuffer (mcfg m) \<le> 0 then SendBuffer DefaultRoomConfig else SendBuffer (mcfg m))"

text \<open>An evaluation is \<open>None\<close> when the port returned an error.\<close>

definition authorizeSession :: "(privilege \<Rightarrow> bool option) \<Rightarrow> mgr_error + collaboratorMode" where
  "authorizeSession evaluate =
     (case evaluate PrivilegeRead of
        None \<Rightarrow> Inl (AuthorizeError PrivilegeRead)
      | Some False \<Rightarrow> Inl ErrForbidden
      | Some True \<Rightarrow>
          (case evaluate PrivilegeUpdateContent of
             None \<Rightarrow> Inl (AuthorizeError PrivilegeUpdateContent)
           | Some True \<Rightarrow> Inr ModeCollaborator
           | Some False \<Rightarrow> Inr ModeViewer))"

definition requireDocument :: "load_error + Metadata \<Rightarrow> mgr_error + Metadata" where
  "requireDocument loaded =
     (case loaded of
        Inl err \<Rightarrow> if err = ErrNotFound then Inl ErrDocumentUnknown else Inl (ResolveError err)
      | Inr meta \<Rightarrow> if \<not> metaMigrated meta then Inl ErrForbidden else Inr meta)"

text \<open>The locked section of \<^verbatim>\<open>Join\<close> between authorization and the existence read.\<close>

definition join_gate :: "document_id \<Rightarrow> int \<Rightarrow> manager \<Rightarrow> (mgr_error + 64 word) \<times> manager" where
  "join_gate did now m =
     (case deleteTombstones m did of
        Some expires \<Rightarrow>
          if now < expires then (Inl ErrForbidden, m)
          else (Inr (deleteEpoch m), m\<lparr>deleteTombstones := (deleteTombstones m)(did := None)\<rparr>)
      | None \<Rightarrow> (Inr (deleteEpoch m), m))"

text \<open>The two locked sections of the function \<^verbatim>\<open>acquire\<close> shares through singleflight.\<close>

datatype lookup = LiveRoom room_ref | LookupClosed | Absent

definition acquire_lookup :: "document_id \<Rightarrow> manager \<Rightarrow> lookup" where
  "acquire_lookup did m =
     (case map_of (rooms m) did of
        Some ref \<Rightarrow> LiveRoom ref
      | None \<Rightarrow> if isClosed m then LookupClosed else Absent)"

definition acquire_register :: "document_id \<Rightarrow> room_ref \<Rightarrow> 64 word \<Rightarrow> manager \<Rightarrow> mgr_error option \<times> manager" where
  "acquire_register did ref expectedEpoch m =
     (if deleteEpoch m \<noteq> expectedEpoch then (Some errRoomUnavailable, m)
      else if isClosed m then (Some ErrShuttingDown, m)
      else (None, m\<lparr>rooms := AList.update did ref (rooms m)\<rparr>))"

text \<open>The check every caller of \<^verbatim>\<open>acquire\<close> makes for itself.\<close>

definition acquire_stale :: "64 word \<Rightarrow> manager \<Rightarrow> bool" where
  "acquire_stale expectedEpoch m \<longleftrightarrow> deleteEpoch m \<noteq> expectedEpoch"

definition closeDeleted_mark :: "document_id \<Rightarrow> int \<Rightarrow> manager \<Rightarrow> room_ref option \<times> manager" where
  "closeDeleted_mark did expires m =
     (map_of (rooms m) did,
      m\<lparr>deleteEpoch := deleteEpoch m + 1, deleteTombstones := (deleteTombstones m)(did \<mapsto> expires)\<rparr>)"

definition tombstone_timer :: "document_id \<Rightarrow> int \<Rightarrow> manager \<Rightarrow> manager" where
  "tombstone_timer did expires m =
     (if deleteTombstones m did = Some expires
      then m\<lparr>deleteTombstones := (deleteTombstones m)(did := None)\<rparr> else m)"

text \<open>\<^verbatim>\<open>remove\<close> reports whether it counted a close.\<close>

definition mgr_remove :: "document_id \<Rightarrow> room_ref \<Rightarrow> manager \<Rightarrow> bool \<times> manager" where
  "mgr_remove did ref m =
     (if map_of (rooms m) did = Some ref then (True, m\<lparr>rooms := AList.delete did (rooms m)\<rparr>) else (False, m))"

definition close_begin :: "manager \<Rightarrow> room_ref list \<times> manager" where
  "close_begin m = (map snd (rooms m), m\<lparr>isClosed := True\<rparr>)"

definition RoomCount :: "manager \<Rightarrow> nat" where
  "RoomCount m = length (rooms m)"

definition shutdownBudget :: "manager \<Rightarrow> int" where
  "shutdownBudget m =
     (if BackendTimeout (mcfg m) \<le> 0 then defaultBackendTimeout else BackendTimeout (mcfg m)) + shutdownDrainGrace"

section \<open>Sessions\<close>

text \<open>
  \<^verbatim>\<open>Forward\<close> runs on the reader goroutine of one connection. What it does to the outside is a list of
  \<open>forward_event\<close>; how the room's queue answered is the argument \<open>outcome\<close>, read only when the frame
  is offered to the room.
\<close>

datatype forward_event =
    FwEcho bytes
  | FwEnqueue command
  | FwSend frame
  | FwCloseAfterDrain SessionEnd

record session =
  sid :: conn_id
  hasConn :: bool
  dropped :: bool

definition forward_room :: "enqueueOutcome \<Rightarrow> bytes \<Rightarrow> session \<Rightarrow> forward_event list \<times> session" where
  "forward_room outcome data s =
     (let cmd = CmdMessage (sid s) data (dropped s)
      in if outcome = enqueueAdmitted then ([FwEnqueue cmd], s)
         else let alreadyPoisoned = dropped s; s' = s\<lparr>dropped := True\<rparr>
              in if outcome = enqueueRefusedInactive then ([], s')
                 else if alreadyPoisoned then ([], s')
                 else if \<not> hasConn s then ([], s')
                 else let se = session_end CodeUpdateNotAccepted
                      in ((case encodeControl (end_control se) of None \<Rightarrow> [] | Some f \<Rightarrow> [FwSend f]) @
                            [FwCloseAfterDrain se], s'))"

definition Forward ::
  "('d, 'a) env \<Rightarrow> enqueueOutcome \<Rightarrow> bytes \<Rightarrow> session \<Rightarrow> forward_event list \<times> session" where
  "Forward e outcome data s =
     (case read_message e data of
        Some (msgType, _) \<Rightarrow>
          if msgType = WireHeartbeat
          then ((if length data \<le> maxHeartbeatFrameBytes \<and> hasConn s then [FwEcho data] else []), s)
          else forward_room outcome data s
      | None \<Rightarrow> forward_room outcome data s)"

fun forward_all ::
  "('d, 'a) env \<Rightarrow> (enqueueOutcome \<times> bytes) list \<Rightarrow> session \<Rightarrow> forward_event list \<times> session" where
  "forward_all e [] s = ([], s)"
| "forward_all e ((outcome, data) # rest) s =
     (case Forward e outcome data s of
        (evs, s1) \<Rightarrow> (case forward_all e rest s1 of (evs', s2) \<Rightarrow> (evs @ evs', s2)))"

text \<open>
  \<^verbatim>\<open>Activate\<close> over what it observes: whether the command was queued, whether the caller's context has
  ended, and which channel the wait saw first.
\<close>

datatype activate_wait = ActReply "join_error option" | ActRoomDone | ActContextDone

datatype activate_error = ActContext | ActRoom join_error

definition Activate :: "enqueueOutcome \<Rightarrow> bool \<Rightarrow> activate_wait \<Rightarrow> activate_error option" where
  "Activate outcome ctxEnded wait =
     (if outcome \<noteq> enqueueAdmitted
      then (if ctxEnded then Some ActContext else Some (ActRoom ErrRoomUnavailable))
      else case wait of
        ActReply res \<Rightarrow> map_option ActRoom res
      | ActRoomDone \<Rightarrow> Some (ActRoom ErrRoomUnavailable)
      | ActContextDone \<Rightarrow> Some ActContext)"

definition Leave :: "session \<Rightarrow> command" where
  "Leave s = CmdLeave (sid s)"

end
