(* ===== verification/RoomFrames.thy ===== *)
theory RoomFrames
  imports RoomLoop
begin

text \<open>
  What the room's handlers leave alone, and the well-formedness of the member table together with
  the connection gauge. Both are interpretations of the \<open>cascade\<close> interface, extended by the
  updates of single members that the barrier functions make.
\<close>

section \<open>Frames of the fan-out functions\<close>

lemmas dropIt_frame [simp] = quiet_frame [OF quiet.dropMember_R]
lemmas sendTo_frame [simp] = quiet_frame [OF quiet.sendTo_R [OF TrueI]]
lemmas broadcast_frame [simp] = quiet_frame [OF quiet.broadcast_R [OF TrueI]]
lemmas broadcastControl_frame [simp] = quiet_frame [OF quiet.broadcastControl_R [OF TrueI]]
lemma publish_quiet: "quiet r (publishToPeers e f eph r)"
  by (simp add: publishToPeers_def Let_def quiet_trans [OF quiet_log quiet_log])

lemmas publish_frame [simp] = quiet_frame [OF publish_quiet]

section \<open>Calm changes\<close>

text \<open>
  A calm change is a fan-out that may also touch the barrier, the poison flag or the rate bucket of
  members that stay: nobody is added, the poison flag is never cleared, and the rest of the room
  is as it was.
\<close>

definition same_member :: "roomMember \<Rightarrow> roomMember \<Rightarrow> bool" where
  "same_member m0 m \<longleftrightarrow>
     m = m0\<lparr>bucket := bucket m, durabilityPoisoned := durabilityPoisoned m, barrier := barrier m\<rparr> \<and>
     (durabilityPoisoned m0 \<longrightarrow> durabilityPoisoned m)"

lemma same_member_refl [simp]: "same_member m m"
  by (simp add: same_member_def)

lemma same_member_trans: "same_member a b \<Longrightarrow> same_member b c \<Longrightarrow> same_member a c"
  unfolding same_member_def by (cases a; cases b; cases c) auto

lemma same_member_sel:
  assumes "same_member m0 m"
  shows "mid m = mid m0" "conn m = conn m0" "actorID m = actorID m0" "mode m = mode m0" "pending m = pending m0"
    "hasAwareness m = hasAwareness m0" "awarenessID m = awarenessID m0"
  using assms unfolding same_member_def by (cases m; cases m0; simp)+

definition calm :: "('d, 'a) room \<Rightarrow> ('d, 'a) room \<Rightarrow> bool" where
  "calm r s \<longleftrightarrow>
     s = r\<lparr>members := members s, awarenessOwners := awarenessOwners s, awareness := awareness s, trace := trace s\<rparr> \<and>
     (\<forall>i m. member s i = Some m \<longrightarrow> (\<exists>m0. member r i = Some m0 \<and> same_member m0 m)) \<and>
     (\<exists>evs. trace s = trace r @ evs \<and> list_all quiet_event evs)"

lemma quiet_calm: "quiet r s \<Longrightarrow> calm r s"
  unfolding calm_def using quiet_member [of r s] by (auto simp: quiet_def)

lemma room_split_trans:
  assumes "s = r\<lparr>members := a, awarenessOwners := b, awareness := c, trace := d\<rparr>"
    and "t = s\<lparr>members := a', awarenessOwners := b', awareness := c', trace := d'\<rparr>"
  shows "t = r\<lparr>members := a', awarenessOwners := b', awareness := c', trace := d'\<rparr>"
  using assms by (cases r) simp

lemma calm_trans:
  assumes "calm r s" "calm s t"
  shows "calm r t"
proof -
  have "t = r\<lparr>members := members t, awarenessOwners := awarenessOwners t, awareness := awareness t, trace := trace t\<rparr>"
    using assms unfolding calm_def by (blast intro: room_split_trans)
  moreover have "\<exists>m0. member r i = Some m0 \<and> same_member m0 m" if "member t i = Some m" for i m
    using assms that unfolding calm_def by (meson same_member_trans)
  moreover have "\<exists>evs. trace t = trace r @ evs \<and> list_all quiet_event evs"
    using assms unfolding calm_def by (metis append.assoc list_all_append)
  ultimately show ?thesis by (simp add: calm_def)
qed

lemma calm_refl: "calm r r"
  by (simp add: quiet_calm quiet_refl)

lemma calm_put:
  "member r i = Some m0 \<Longrightarrow> same_member m0 m \<Longrightarrow> calm r (put_member i m r)"
  by (auto simp: calm_def)

interpretation calm: cascade "\<lambda>_. True" calm
proof unfold_locales
  fix r s t :: "('a, 'b) room"
  show "calm r s \<Longrightarrow> calm s t \<Longrightarrow> calm r t" by (rule calm_trans)
qed (simp_all add: quiet_calm quiet_refl quiet_log quiet_deregister quiet_owner quiet_aware)

lemma calm_frame:
  assumes "calm r s"
  shows "doc s = doc r" "shadow s = shadow r" "dirty s = dirty r" "content s = content r" "cfg s = cfg r"
    "lc s = lc r" "docBytes s = docBytes r" "flushFailures s = flushFailures r" "version s = version r"
    "nextID s = nextID r" "contributors s = contributors r" "docUpdates s = docUpdates r"
    "docId s = docId r" "undurableSince s = undurableSince r" "isMultiUser s = isMultiUser r"
    "maxConns s = maxConns r" "contributionFlight s = contributionFlight r" "flights s = flights r"
    "doneClosed s = doneClosed r" "saveTimer s = saveTimer r" "idleTimer s = idleTimer r"
    "policyID s = policyID r" "ownerRef s = ownerRef r" "bucketID s = bucketID r"
  using assms unfolding calm_def by (cases r; cases s; simp)+

lemma calm_member: "calm r s \<Longrightarrow> member s i = Some m \<Longrightarrow> \<exists>m0. member r i = Some m0 \<and> same_member m0 m"
  by (simp add: calm_def)

lemma same_member_barrier [simp]: "same_member m (m\<lparr>barrier := b\<rparr>)"
  and same_member_bucket [simp]: "same_member m (m\<lparr>bucket := k\<rparr>)"
  and same_member_poison [simp]: "same_member m (m\<lparr>durabilityPoisoned := True\<rparr>)"
  by (simp_all add: same_member_def)

section \<open>The barrier functions are calm\<close>

lemma answerBarrier_calm: "calm r (answerBarrier e i rid r)"
  by (simp add: answerBarrier_def calm.sendTo_R)

lemma failBarrier_calm: "calm r (failBarrier e i rid reason r)"
  by (simp add: failBarrier_def calm.sendTo_R)

lemma poisonDurability_calm: "calm r (poisonDurability i r)"
  by (auto simp: poisonDurability_def calm_refl calm_put split: option.splits)

lemma failMemberBarrier_calm: "calm r (failMemberBarrier e i reason r)"
  by (auto simp: failMemberBarrier_def calm_refl split: option.splits
      intro: calm_trans [OF calm_put failBarrier_calm])

lemma resolveBarriers_calm: "calm r (resolveBarriers e r)"
  unfolding resolveBarriers_def
  by (rule calm.range_members_R) (auto simp: calm_refl intro: calm_trans [OF calm_put answerBarrier_calm])

lemma failBarriers_calm: "calm r (failBarriers e reason r)"
  unfolding failBarriers_def
  by (rule calm.range_members_R) (auto simp: calm_refl intro: calm_trans [OF calm_put failBarrier_calm])

lemma handleDurabilityRequest_calm: "calm r (snd (handleDurabilityRequest e i p d r))"
  by (auto simp: handleDurabilityRequest_def Let_def calm_refl failBarrier_calm answerBarrier_calm calm_put
      split: option.splits)

lemma allowRate_calm: "calm r (snd (allowRate e i r))"
  by (auto simp: allowRate_def calm_refl calm_put split: option.splits prod.splits)

lemma relay_calm: "calm r (relay e f i r)"
  unfolding relay_def by (rule calm_trans [OF calm.broadcast_R [OF TrueI] calm.publish_R])

lemmas barrier_frames [simp] =
  calm_frame [OF answerBarrier_calm] calm_frame [OF failBarrier_calm] calm_frame [OF poisonDurability_calm]
  calm_frame [OF failMemberBarrier_calm] calm_frame [OF resolveBarriers_calm] calm_frame [OF failBarriers_calm]
  calm_frame [OF handleDurabilityRequest_calm] calm_frame [OF allowRate_calm] calm_frame [OF relay_calm]

section \<open>Disconnecting\<close>

text \<open>
  \<^verbatim>\<open>disconnect\<close> and the teardown also close connections. A change is \<open>tame\<close> when it respects the
  document, the configuration, the lifecycle and the durability counters; the trace only grows.
\<close>

definition tame :: "('d, 'a) room \<Rightarrow> ('d, 'a) room \<Rightarrow> bool" where
  "tame r s \<longleftrightarrow>
     s = r\<lparr>members := members s, awarenessOwners := awarenessOwners s, awareness := awareness s, trace := trace s\<rparr> \<and>
     (\<forall>i m. member s i = Some m \<longrightarrow> (\<exists>m0. member r i = Some m0 \<and> same_member m0 m)) \<and>
     prefix (trace r) (trace s)"

lemma calm_tame: "calm r s \<Longrightarrow> tame r s"
  by (auto simp: calm_def tame_def prefix_def)

lemma tame_trans:
  assumes "tame r s" "tame s t"
  shows "tame r t"
proof -
  have "t = r\<lparr>members := members t, awarenessOwners := awarenessOwners t, awareness := awareness t, trace := trace t\<rparr>"
    using assms unfolding tame_def by (blast intro: room_split_trans)
  moreover have "\<exists>m0. member r i = Some m0 \<and> same_member m0 m" if "member t i = Some m" for i m
    using assms that unfolding tame_def by (meson same_member_trans)
  moreover have "prefix (trace r) (trace t)"
    using assms unfolding tame_def by (blast intro: prefix_order.trans)
  ultimately show ?thesis by (simp add: tame_def)
qed

lemma tame_refl: "tame r r"
  by (simp add: calm_tame calm_refl)

lemma tame_log: "tame r (log_ev ev r)"
  by (simp add: tame_def log_ev_def)

lemma tame_frame:
  assumes "tame r s"
  shows "doc s = doc r" "shadow s = shadow r" "dirty s = dirty r" "content s = content r" "cfg s = cfg r"
    "lc s = lc r" "docBytes s = docBytes r" "flushFailures s = flushFailures r" "version s = version r"
    "nextID s = nextID r" "contributors s = contributors r" "docUpdates s = docUpdates r"
    "docId s = docId r" "undurableSince s = undurableSince r" "isMultiUser s = isMultiUser r"
    "maxConns s = maxConns r" "contributionFlight s = contributionFlight r" "flights s = flights r"
    "doneClosed s = doneClosed r" "saveTimer s = saveTimer r" "idleTimer s = idleTimer r"
    "policyID s = policyID r" "ownerRef s = ownerRef r" "bucketID s = bucketID r"
  using assms unfolding tame_def by (cases r; cases s; simp)+

interpretation tame: cascade "\<lambda>_. True" tame
proof unfold_locales
  fix r s t :: "('a, 'b) room"
  show "tame r s \<Longrightarrow> tame s t \<Longrightarrow> tame r t" by (rule tame_trans)
qed (simp_all add: calm_tame calm.R_owner calm.R_aware calm.R_dereg tame_refl tame_log)

lemma disconnect_split:
  assumes "member r i = Some m"
  shows "disconnect e i c r =
    (let r2 = log_ev (EvCloseAfterDrain (conn m) (session_end c))
                (log_ev (EvSend (conn m) (FControl (end_control (session_end c))) (send_ok e (tick r) (conn m))) r);
         r3 = dropIt e i r2
     in broadcastControl e (users_control r3) r3)"
proof -
  have "fst (dropMember e i s)" if "member s i = Some m" for s :: "('a, 'b) room"
    using that by (subst dropMember_unfolded) simp
  then show ?thesis
    using assms by (simp add: disconnect_def Let_def case_prod_beta)
qed

lemma disconnect_absent: "member r i = None \<Longrightarrow> disconnect e i c r = r"
  by (simp add: disconnect_def)

lemma disconnect_tame: "tame r (disconnect e i c r)"
proof (cases "member r i")
  case (Some m)
  show ?thesis
    unfolding disconnect_split [OF Some] Let_def
    by (intro tame_trans [OF _ tame.broadcastControl_R [OF TrueI]] tame_trans [OF _ tame.dropMember_R]
        tame_trans [OF tame_log tame_log])
qed (simp add: disconnect_absent tame_refl)

lemma failBarriers_tame: "tame r (failBarriers e reason r)"
  by (rule calm_tame [OF failBarriers_calm])

lemmas disconnect_frame [simp] = tame_frame [OF disconnect_tame]

lemma endMember_tame: "tame r (endMember e se i m r)"
  unfolding endMember_def tame_def by (auto simp: Let_def log_ev_def)

lemma endMembers_tame: "tame r (endMembers e se r)"
  unfolding endMembers_def by (rule tame.range_members_R) (rule endMember_tame)

lemmas endMembers_frame [simp] = tame_frame [OF endMembers_tame]

section \<open>The contribution window touches nothing else\<close>

definition tally :: "('d, 'a) room \<Rightarrow> ('d, 'a) room \<Rightarrow> bool" where
  "tally r s \<longleftrightarrow>
     s = r\<lparr>contributors := contributors s, contributionFlight := contributionFlight s, flights := flights s, trace := trace s\<rparr>"

lemma tally_frame:
  assumes "tally r s"
  shows "doc s = doc r" "shadow s = shadow r" "dirty s = dirty r" "content s = content r" "cfg s = cfg r"
    "lc s = lc r" "docBytes s = docBytes r" "flushFailures s = flushFailures r" "version s = version r"
    "nextID s = nextID r" "members s = members r" "docUpdates s = docUpdates r"
    "docId s = docId r" "undurableSince s = undurableSince r" "isMultiUser s = isMultiUser r"
    "maxConns s = maxConns r" "doneClosed s = doneClosed r" "saveTimer s = saveTimer r" "idleTimer s = idleTimer r"
    "policyID s = policyID r" "ownerRef s = ownerRef r" "bucketID s = bucketID r" "awareness s = awareness r"
  using assms unfolding tally_def by (cases r; cases s; simp)+

lemmas contribution_defs = startContributionFlush_def finishContributionFlush_def settleContributionFlight_def
  flushContribution_def detachContributors_def mergeContributors_def emitContribution_def recordContribution_def

lemma contribution_tally:
  "tally r (startContributionFlush e r)" "tally r (finishContributionFlush e fl r)"
  "tally r (settleContributionFlight e r)" "tally r (flushContribution e r)" "tally r (recordContribution i r)"
  by (auto simp: tally_def contribution_defs log_ev_def Let_def split: option.splits)

lemmas contribution_frames [simp] = contribution_tally [THEN tally_frame(1)] contribution_tally [THEN tally_frame(2)]
  contribution_tally [THEN tally_frame(3)] contribution_tally [THEN tally_frame(4)] contribution_tally [THEN tally_frame(5)]
  contribution_tally [THEN tally_frame(6)] contribution_tally [THEN tally_frame(8)] contribution_tally [THEN tally_frame(9)]
  contribution_tally [THEN tally_frame(10)] contribution_tally [THEN tally_frame(11)] contribution_tally [THEN tally_frame(12)]
  contribution_tally [THEN tally_frame(13)] contribution_tally [THEN tally_frame(17)]

end
