(* ===== verification/RoomInvariant.thy ===== *)
theory RoomInvariant
  imports RoomFrames
begin

text \<open>
  Invariants of a running room. The locale \<open>handler_inv\<close> lists what a predicate on rooms has to
  respect so that every handler of the run loop respects it: the fan-out primitives (it extends
  \<open>cascade\<close>), updates of single members, the neutral bookkeeping, a join, an activation and the
  guarded apply. \<open>room_inv\<close> adds the flush and the teardown; its lemma \<open>run_reach_I\<close> covers every
  state a running room can reach.
\<close>

section \<open>Handlers\<close>

fun neutral :: "event \<Rightarrow> bool" where
  "neutral (EvSend _ _ _) = False"
| "neutral (EvPublish _ _ _) = False"
| "neutral EvConnOpened = False"
| "neutral EvConnClosed = False"
| "neutral (EvSaveCheckpoint _ _ _) = False"
| "neutral (EvSaveMetadata _ _) = False"
| "neutral EvCloseDone = False"
| "neutral (EvUndurable _ _) = False"
| "neutral EvDurabilityRestored = False"
| "neutral (EvEscalated _) = False"
| "neutral _ = True"

text \<open>The calls that report a document as undurable, as durable again, or as given up.\<close>

fun alarm_event :: "event \<Rightarrow> bool" where
  "alarm_event (EvUndurable _ _) = True"
| "alarm_event EvDurabilityRestored = True"
| "alarm_event (EvEscalated _) = True"
| "alarm_event _ = False"

locale handler_inv = cascade okf "\<lambda>r s. I r \<longrightarrow> I s" for okf :: "frame \<Rightarrow> bool" and I :: "('d, 'a) room \<Rightarrow> bool" +
  fixes e :: "('d, 'a) env"
  assumes okf_control: "Kind msg \<noteq> ControlPersisted \<Longrightarrow> okf (FControl msg)"
    and I_answer: "I r \<Longrightarrow> \<not> dirty r \<Longrightarrow> I (log_ev (EvSend cn (FControl (persisted_control rid)) ok) r)"
    and I_log: "neutral ev \<Longrightarrow> I r \<Longrightarrow> I (log_ev ev r)"
    and I_put: "I r \<Longrightarrow> member r i = Some m0 \<Longrightarrow> same_member m0 m \<Longrightarrow>
      barrier m = '''' \<or> barrier m = barrier m0 \<or> dirty r \<Longrightarrow> I (put_member i m r)"
    and I_track: "I r \<Longrightarrow> member r i = Some m \<Longrightarrow> \<not> hasAwareness m \<Longrightarrow>
      I ((put_member i (m\<lparr>awarenessID := k, hasAwareness := True\<rparr>) r)\<lparr>awarenessOwners := (awarenessOwners r)(k \<mapsto> i)\<rparr>)"
    and I_misc: "I r \<Longrightarrow> I (r\<lparr>contributors := a, contributionFlight := b, flights := c, saveTimer := d,
      idleTimer := f, isMultiUser := g\<rparr>)"
    and I_join: "I r \<Longrightarrow> mid m = Suc (nextID r) \<Longrightarrow> pending m \<Longrightarrow> barrier m = '''' \<Longrightarrow>
      I (r\<lparr>nextID := Suc (nextID r), members := AList.update (Suc (nextID r)) m (members r)\<rparr>)"
    and I_open: "I r \<Longrightarrow> member r i = Some m \<Longrightarrow> pending m \<Longrightarrow>
      I (log_ev EvConnOpened (put_member i (m\<lparr>pending := False\<rparr>) r))"
    and I_apply: "I r \<Longrightarrow> applyUpdate e u org r = (Some res, r') \<Longrightarrow> I r'"
begin

lemma I_aware: "I r \<Longrightarrow> I (r\<lparr>awareness := aw\<rparr>)"
  using R_aware by blast

lemma I_misc1:
  assumes "I r"
  shows "I (r\<lparr>contributors := a\<rparr>)" "I (r\<lparr>contributionFlight := b\<rparr>)" "I (r\<lparr>saveTimer := d\<rparr>)"
    "I (r\<lparr>idleTimer := f\<rparr>)" "I (r\<lparr>isMultiUser := g\<rparr>)" "I (r\<lparr>contributionFlight := b, flights := c\<rparr>)"
  using I_misc [OF assms, where a = "a" and b = "contributionFlight r" and c = "flights r" and d = "saveTimer r" and f = "idleTimer r" and g = "isMultiUser r"]
    I_misc [OF assms, where a = "contributors r" and b = "b" and c = "flights r" and d = "saveTimer r" and f = "idleTimer r" and g = "isMultiUser r"]
    I_misc [OF assms, where a = "contributors r" and b = "contributionFlight r" and c = "flights r" and d = "d" and f = "idleTimer r" and g = "isMultiUser r"]
    I_misc [OF assms, where a = "contributors r" and b = "contributionFlight r" and c = "flights r" and d = "saveTimer r" and f = "f" and g = "isMultiUser r"]
    I_misc [OF assms, where a = "contributors r" and b = "contributionFlight r" and c = "flights r" and d = "saveTimer r" and f = "idleTimer r" and g = "g"]
    I_misc [OF assms, where a = "contributors r" and b = "b" and c = "c" and d = "saveTimer r" and f = "idleTimer r" and g = "isMultiUser r"]
  by simp_all

lemma I_fanout:
  assumes "I r"
  shows "okf f \<Longrightarrow> I (sendTo e i f r)" "okf f \<Longrightarrow> I (broadcast e f i r)"
    "Kind msg \<noteq> ControlPersisted \<Longrightarrow> I (broadcastControl e msg r)" "I (dropIt e i r)" "I (publishToPeers e g True r)"
  using assms sendTo_R broadcast_R broadcastControl_R dropMember_R publish_R okf_control by blast+

lemma I_send: "I r \<Longrightarrow> okf f \<Longrightarrow> I (log_ev (EvSend cn f ok) r)"
  using R_send by blast

lemmas okf_intros = okf_raw okf_control

lemma I_relay: "I r \<Longrightarrow> I (relay e f i r)"
  by (simp add: relay_def I_fanout okf_raw)

lemma I_disconnect: "I r \<Longrightarrow> I (disconnect e i c r)"
  by (cases "member r i") (simp_all add: disconnect_absent disconnect_split Let_def I_fanout I_log I_send okf_control users_control_def)

lemma I_answerBarrier: "I r \<Longrightarrow> \<not> dirty r \<Longrightarrow> I (answerBarrier e i rid r)"
  by (auto simp: answerBarrier_def sendTo_def sendMember_def sendMember_with_def Let_def I_answer intro!: I_fanout
      split: option.splits)

lemma I_failBarrier: "I r \<Longrightarrow> I (failBarrier e i rid reason r)"
  by (simp add: failBarrier_def I_fanout okf_control persist_failed_control_def)

lemma I_poison: "I r \<Longrightarrow> I (poisonDurability i r)"
  by (auto simp: poisonDurability_def intro: I_put split: option.splits)

lemma I_failMember: "I r \<Longrightarrow> I (failMemberBarrier e i reason r)"
  by (auto simp: failMemberBarrier_def intro!: I_failBarrier I_put split: option.splits)

lemma I_resolveBarriers:
  assumes "I r" "\<not> dirty r"
  shows "I (resolveBarriers e r)"
proof -
  have "I (resolveBarriers e r) \<and> \<not> dirty (resolveBarriers e r)"
    unfolding resolveBarriers_def range_members_def
  proof (rule range_loop_inv [where P = "\<lambda>s. I s \<and> \<not> dirty s"])
    fix i m and s :: "('d, 'a) room"
    assume s: "I s \<and> \<not> dirty s" "member s i = Some m"
    then have "I (answerBarrier e i (barrier m) (put_member i (m\<lparr>barrier := []\<rparr>) s))"
      by (auto intro!: I_answerBarrier I_put)
    with s show "I (if barrier m = [] then s else answerBarrier e i (barrier m) (put_member i (m\<lparr>barrier := []\<rparr>) s)) \<and>
        \<not> dirty (if barrier m = [] then s else answerBarrier e i (barrier m) (put_member i (m\<lparr>barrier := []\<rparr>) s))"
      by simp
  qed (use assms in simp)
  then show ?thesis by blast
qed

lemma I_failBarriers: "I r \<Longrightarrow> I (failBarriers e reason r)"
proof -
  have "I r \<longrightarrow> I (failBarriers e reason r)"
    unfolding failBarriers_def by (rule range_members_R) (auto intro!: I_failBarrier I_put)
  then show "I r \<Longrightarrow> I (failBarriers e reason r)" by blast
qed

lemma I_durabilityRequest: "I r \<Longrightarrow> I (snd (handleDurabilityRequest e i p d r))"
  by (auto simp: handleDurabilityRequest_def Let_def I_failBarrier I_answerBarrier intro: I_put split: option.splits)

lemma I_recordContribution: "I r \<Longrightarrow> I (recordContribution i r)"
  by (auto simp: recordContribution_def I_misc1 split: option.splits)

lemma I_allowRate: "I r \<Longrightarrow> I (snd (allowRate e i r))"
  by (auto simp: allowRate_def intro: I_put split: option.splits prod.splits)

lemma I_dispatchSync:
  "I r \<Longrightarrow> dispatchSync e f i cm r = (SyncReturned oc reply, r') \<Longrightarrow> I r'"
  "I r \<Longrightarrow> dispatchSync e f i cm r = (SyncError, r') \<Longrightarrow> I r'"
  by (auto simp: dispatchSync_def dest: I_apply split: option.splits if_splits sync_type.splits prod.splits applyResult.splits)

lemma I_handleSync:
  assumes "I r" "handleSync e i p r = (Some b, r')"
  shows "I r'"
proof -
  obtain res r1 where d: "dispatchSync e (write_message e WireSync p) i (canMutate i r) r = (res, r1)"
    by fastforce
  show ?thesis
  proof (cases res)
    case (SyncReturned oc reply)
    then have "I r1" using I_dispatchSync(1) [OF assms(1)] d by blast
    then have "I (if reply \<noteq> [] then sendTo e i (FRaw reply) r1 else r1)" by (simp add: I_fanout okf_raw)
    with assms(2) d SyncReturned show ?thesis
      by (auto simp: handleSync_def Let_def I_disconnect I_failMember I_poison I_recordContribution I_fanout
          okf_intros update_rejected_control_def split: if_splits)
  qed (use assms d I_dispatchSync(2) [OF assms(1)] in \<open>auto simp: handleSync_def\<close>)
qed

lemma I_handleAwareness: "I r \<Longrightarrow> I (handleAwareness e i f r)"
  by (auto simp: handleAwareness_def trackAwarenessID_def Let_def intro!: I_relay I_aware
      I_track [of "r\<lparr>awareness := aw\<rparr>" for aw, simplified] split: option.splits prod.splits)

lemma I_handleMessage:
  assumes "I r" "handleMessage e i f d r = (Some b, r')"
  shows "I r'"
proof -
  have "I (snd (allowRate e i r))" by (rule I_allowRate [OF assms(1)])
  with assms show ?thesis
    by (auto simp: handleMessage_def split: option.splits prod.splits bool.splits if_splits
        intro: I_disconnect I_relay I_handleAwareness I_handleSync dest: I_durabilityRequest [of _ i _ d])
      (metis I_durabilityRequest snd_conv)
qed

lemma I_handlePeer: "I r \<Longrightarrow> handlePeer e p eph r = (Some b, r') \<Longrightarrow> I r'"
  by (auto simp: handlePeer_def applyPeerEphemeral_def I_fanout okf_raw I_aware
      dest: I_apply split: if_splits option.splits prod.splits)

lemma I_timers: "I r \<Longrightarrow> I (armSaveTimer r)" "I r \<Longrightarrow> I (armIdleTimer r)" "I r \<Longrightarrow> I (armRetryTimer r)"
    "I r \<Longrightarrow> I (armIdleIfEmpty r)"
  by (simp_all add: armSaveTimer_def armIdleTimer_def armRetryTimer_def armIdleIfEmpty_def I_misc1)

lemma I_resolveJoin: "I r \<Longrightarrow> I (snd (resolveJoinCapability ident md mu r))"
  by (auto simp: resolveJoinCapability_def Let_def I_misc1 split: option.splits)

lemma I_handleJoin: "I r \<Longrightarrow> I (snd (handleJoin e c ident md mu r))"
  using I_resolveJoin [of r ident md mu]
  by (auto simp: handleJoin_def Let_def intro: I_join split: prod.splits)

lemma I_handleActivate: "I r \<Longrightarrow> I (snd (handleActivate e i r))"
  by (auto simp: handleActivate_def users_control_def Let_def intro!: I_fanout I_open split: option.splits)

lemma I_handleLeave: "I r \<Longrightarrow> I (handleLeave e i r)"
  by (auto simp: handleLeave_def users_control_def Let_def I_fanout split: option.splits)

lemma I_contribution:
  assumes "I r"
  shows "I (startContributionFlush e r)" "I (finishContributionFlush e fl r)" "I (settleContributionFlight e r)"
    "I (flushContribution e r)"
  using assms
  by (auto simp: startContributionFlush_def finishContributionFlush_def settleContributionFlight_def
      flushContribution_def detachContributors_def mergeContributors_def emitContribution_def Let_def
      intro!: I_misc1 I_log split: option.splits)

lemma I_handleMessageCmd: "I r \<Longrightarrow> handleMessageCmd e i f d r = (True, r') \<Longrightarrow> I r'"
  by (auto simp: handleMessageCmd_def intro!: I_timers dest: I_handleMessage split: option.splits prod.splits)

lemma I_dispatch:
  assumes "I r" "dispatch e cmd r = (KeepRunning, rep, r')"
  shows "I r'"
proof (cases cmd)
  case (CmdJoin c ident md mu)
  then show ?thesis
    using assms I_handleJoin [OF I_misc1(4) [OF assms(1), of None], of c ident md mu]
    by (auto simp: dispatch_def I_timers split: prod.splits)
next
  case (CmdActivate i)
  then show ?thesis
    using assms I_handleActivate [OF assms(1), of i] by (auto simp: dispatch_def split: prod.splits)
qed (use assms in \<open>auto simp: dispatch_def I_timers I_handleLeave I_contribution
      dest: I_handleMessageCmd split: prod.splits if_splits\<close>)

end


lemma handleMessage_panic:
  assumes "handleMessage e i f d r = (None, r')"
  obtains p where "handleSync e i p (snd (allowRate e i r)) = (None, r')"
  using assms that by (auto simp: handleMessage_def split: option.splits prod.splits bool.splits if_splits)

section \<open>Flush, teardown and the run loop\<close>

locale room_inv = handler_inv okf I e for okf :: "frame \<Rightarrow> bool" and I :: "('d, 'a) room \<Rightarrow> bool" and e :: "('d, 'a) env" +
  assumes I_end: "I r \<Longrightarrow> member r i = Some m \<Longrightarrow> I (endMember e se i m r)"
    and I_begin: "I r \<Longrightarrow> lc r \<noteq> stateDraining \<Longrightarrow> lc r \<noteq> stateClosed \<Longrightarrow> I (r\<lparr>shadow := None, lc := stateDraining\<rparr>)"
    and I_destroy: "I r \<Longrightarrow> lc r = stateDraining \<or> lc r = stateClosed \<Longrightarrow> I (r\<lparr>shadow := None\<rparr>)"
    and I_release: "I r \<Longrightarrow> lc r = stateDraining \<Longrightarrow> I (releaseRoom r)"
    and I_counters: "I r \<Longrightarrow> I (r\<lparr>docBytes := n, flushFailures := k, undurableSince := t\<rparr>)"
    and I_alarm: "alarm_event ev \<Longrightarrow> I r \<Longrightarrow> I (log_ev ev r)"
    and I_checkpoint: "I r \<Longrightarrow> dirty r \<Longrightarrow> encode_v2 e (doc r) = Some s \<Longrightarrow> I (log_ev (EvSaveCheckpoint s v ok) r)"
    and I_metadata: "I r \<Longrightarrow> dirty r \<Longrightarrow> encode_v2 e (doc r) = Some s \<Longrightarrow>
      I (log_ev (EvSaveMetadata (snapshot_meta r) False) (log_ev (EvSaveCheckpoint s v True) r))"
    and I_accepted: "I r \<Longrightarrow> dirty r \<Longrightarrow> encode_v2 e (doc r) = Some s \<Longrightarrow>
      I ((log_ev (EvSaveMetadata (snapshot_meta r) True) (log_ev (EvSaveCheckpoint s v True) r))
           \<lparr>version := version r + 1, dirty := False\<rparr>)"
    and I_panic: "I r \<Longrightarrow> lc r = stateActive \<Longrightarrow> applyUpdate e u org r = (None, r') \<Longrightarrow> I (r'\<lparr>shadow := None, lc := stateDraining\<rparr>)"
begin

lemma I_counters1:
  assumes "I r"
  shows "I (r\<lparr>docBytes := n\<rparr>)" "I (r\<lparr>flushFailures := k\<rparr>)" "I (r\<lparr>undurableSince := t\<rparr>)"
    "I (r\<lparr>flushFailures := k, undurableSince := t\<rparr>)"
  using I_counters [OF assms, where n = n and k = "flushFailures r" and t = "undurableSince r"]
    I_counters [OF assms, where n = "docBytes r" and k = k and t = "undurableSince r"]
    I_counters [OF assms, where n = "docBytes r" and k = "flushFailures r" and t = t]
    I_counters [OF assms, where n = "docBytes r" and k = k and t = t]
  by simp_all

lemma I_endMembers: "I r \<Longrightarrow> I (endMembers e se r)"
proof -
  have "I r \<longrightarrow> I (endMembers e se r)"
    unfolding endMembers_def by (rule range_members_R) (simp add: I_end)
  then show "I r \<Longrightarrow> I (endMembers e se r)" by blast
qed

lemma I_teardown_body: "I r \<Longrightarrow> lc r = stateDraining \<Longrightarrow> I (teardown_body e code r)"
  by (simp add: teardown_body_def Let_def I_release I_endMembers I_failBarriers I_contribution)

lemma I_teardown:
  assumes "I r \<or> lc r = stateActive \<and> I (r\<lparr>shadow := None, lc := stateDraining\<rparr>)"
    and flush: "\<And>s. I s \<Longrightarrow> lc s = stateDraining \<Longrightarrow> I (flush s) \<and> lc (flush s) = stateDraining"
  shows "I (teardown e code flush r)"
proof (cases "fst (beginTeardown (lc r))")
  case True
  then have "lc r \<noteq> stateDraining" "lc r \<noteq> stateClosed" by (auto simp: beginTeardown_True_iff)
  with assms(1) I_begin have "I (r\<lparr>shadow := None, lc := stateDraining\<rparr>)" by blast
  with True flush show ?thesis
    by (auto simp: teardown_def destroyShadow_def beginTeardown_def Let_def I_teardown_body split: if_splits)
next
  case False
  then have "lc r = stateDraining \<or> lc r = stateClosed"
    by (simp add: beginTeardown_def split: if_splits)
  with assms(1) I_destroy have "I (destroyShadow r)" by (auto simp: destroyShadow_def)
  with False show ?thesis
    by (auto simp: teardown_def beginTeardown_def destroyShadow_def Let_def split: if_splits)
qed

lemma I_teardown_nil: "I r \<Longrightarrow> I (teardown e code (\<lambda>s. s) r)"
  by (rule I_teardown) auto

lemma I_onFlushFailed: "I r \<Longrightarrow> I (onFlushFailed e r)"
  by (simp add: onFlushFailed_def escalateUndurable_def save_error_control_def Let_def I_fanout I_teardown_nil I_log
      I_alarm I_failBarriers I_counters1)

lemma I_encode_failed: "I r \<Longrightarrow> I (encode_failed e r)"
  by (simp add: encode_failed_def save_error_control_def I_fanout I_log)

lemma I_persist: "I r \<Longrightarrow> I (persist e r)"
proof -
  assume I: "I r"
  show ?thesis
  proof (cases "encode_v2 e (doc r)")
    case None
    with I show ?thesis by (simp add: persist_def I_encode_failed)
  next
    case (Some s)
    let ?r1 = "r\<lparr>docBytes := int (length s)\<rparr>"
    have I1: "I ?r1" and s1: "encode_v2 e (doc ?r1) = Some s" using I Some by (simp_all add: I_counters1)
    have acc: "I (persist_accepted e (log_ev (EvSaveMetadata (snapshot_meta ?r1) True) (log_ev (EvSaveCheckpoint s v True) ?r1)))"
      if "dirty r" for v
      using I_accepted [OF I1 _ s1, of v] that
      by (simp add: persist_accepted_def onFlushSucceeded_def Let_def I_fanout I_log I_alarm I_resolveBarriers I_counters1)
    have meta: "snapshot_meta (log_ev ev q) = snapshot_meta q" for ev q by (simp add: snapshot_meta_def)
    show ?thesis
      using Some I I_metadata [OF I1 _ s1] I_checkpoint [OF I1 _ s1] acc
      by (auto simp: persist_def Let_def I1 meta I_encode_failed I_onFlushFailed split: option.splits)
  qed
qed

lemma I_releaseIfEmpty: "I r \<Longrightarrow> I (snd (releaseIfEmpty e r))"
  by (simp add: releaseIfEmpty_def Let_def I_persist I_timers I_teardown_nil)

lemma I_dispatchSync_panic:
  "I r \<Longrightarrow> lc r = stateActive \<Longrightarrow> dispatchSync e f i cm r = (SyncPanic, r') \<Longrightarrow> I (r'\<lparr>shadow := None, lc := stateDraining\<rparr>)"
  by (auto simp: dispatchSync_def dest: I_panic
      split: option.splits if_splits sync_type.splits prod.splits applyResult.splits)

lemma I_handleSync_panic:
  "I r \<Longrightarrow> lc r = stateActive \<Longrightarrow> handleSync e i p r = (None, r') \<Longrightarrow> I (r'\<lparr>shadow := None, lc := stateDraining\<rparr>)"
  by (auto simp: handleSync_def Let_def intro: I_dispatchSync_panic split: prod.splits sync_result.splits if_splits)

lemma I_handleMessage_panic:
  assumes "I r" "lc r = stateActive" "handleMessage e i f d r = (None, r')"
  shows "I (r'\<lparr>shadow := None, lc := stateDraining\<rparr>)"
  using assms(3)
proof (rule handleMessage_panic)
  fix p assume "handleSync e i p (snd (allowRate e i r)) = (None, r')"
  then show ?thesis using assms(1,2) by (simp add: I_handleSync_panic [OF I_allowRate])
qed

lemma I_handlePeer_panic:
  "I r \<Longrightarrow> lc r = stateActive \<Longrightarrow> handlePeer e p eph r = (None, r') \<Longrightarrow> I (r'\<lparr>shadow := None, lc := stateDraining\<rparr>)"
  by (auto simp: handlePeer_def intro: I_panic split: if_splits option.splits prod.splits)

end

section \<open>The guarded apply, case by case\<close>

lemma applyWould_frame:
  assumes "applyWouldExceedMaxDocBytes e u r = (b, s)"
  shows "\<exists>n. s = r\<lparr>docBytes := n\<rparr>"
  using assms by (auto simp: applyWouldExceedMaxDocBytes_def Let_def split: if_splits option.splits prod.splits
      intro: exI [of _ "docBytes r"])

lemma applyUpdate_cases:
  assumes "applyUpdate e u org r = (res, r')"
  obtains (too_large) n where "res = Some applyRejectedTooLarge" "r' = r\<lparr>docBytes := n\<rparr>" "\<not> peer org"
  | (unguarded) n where "shadow r = None" "applyLive e u org (r\<lparr>docBytes := n\<rparr>) = (res, r')"
  | (refused) n fresh sh sh' x ok where "shadow r = Some sh" "apply_update e sh u = (sh', x, ok)"
      "\<not> ok \<or> validateSchema e r sh' \<noteq> None"
      "cloneDoc e (doc r) (docId r) = Some fresh" "r' = r\<lparr>docBytes := n, shadow := Some fresh\<rparr>"
      "res = Some (if ok then applyRejectedSchema else applyCandidateFailed)"
  | (stuck) n sh sh' x ok where "shadow r = Some sh" "apply_update e sh u = (sh', x, ok)"
      "\<not> ok \<or> validateSchema e r sh' \<noteq> None"
      "cloneDoc e (doc r) (docId r) = None" "r' = r\<lparr>docBytes := n, shadow := Some sh'\<rparr>" "res = None"
  | (guarded) n sh sh' x where "shadow r = Some sh" "apply_update e sh u = (sh', x, True)"
      "validateSchema e r sh' = None" "applyLive e u org (r\<lparr>docBytes := n, shadow := Some sh'\<rparr>) = (res, r')"
proof -
  obtain b r1 where w: "applyWouldExceedMaxDocBytes e u r = (b, r1)" by fastforce
  then obtain n where r1: "r1 = r\<lparr>docBytes := n\<rparr>" using applyWould_frame by blast
  have v: "validateSchema e (r\<lparr>docBytes := n, shadow := q\<rparr>) = validateSchema e r" for q
    by (simp add: validateSchema_def fun_eq_iff)
  show thesis
  proof (cases "b \<and> \<not> peer org")
    case True
    then show thesis using assms w r1 too_large by (auto simp: applyUpdate_def)
  next
    case ok1: False
    show thesis
    proof (cases "shadow r")
      case None
      then show thesis using assms w r1 ok1 unguarded by (auto simp: applyUpdate_def split: if_splits)
    next
      case (Some sh)
      obtain sh' x ok where a: "apply_update e sh u = (sh', x, ok)" by (metis prod_cases3)
      show thesis
      proof (cases "\<not> ok \<or> validateSchema e r sh' \<noteq> None")
        case True
        with assms w r1 ok1 Some a have "(case cloneDoc e (doc r) (docId r) of
            None \<Rightarrow> (None, r\<lparr>docBytes := n, shadow := Some sh'\<rparr>)
          | Some fresh \<Rightarrow> (Some (if ok then applyRejectedSchema else applyCandidateFailed),
              r\<lparr>docBytes := n, shadow := Some fresh\<rparr>)) = (res, r')"
          by (auto simp: applyUpdate_def Let_def reject_after_rebuild_def rebuildShadow_def v split: if_splits option.splits)
        with True Some a show thesis
          using refused [of sh sh' x ok _ n] stuck [of sh sh' x ok n]
          by (cases "cloneDoc e (doc r) (docId r)") auto
      next
        case False
        with assms w r1 ok1 Some a have "applyLive e u org (r\<lparr>docBytes := n, shadow := Some sh'\<rparr>) = (res, r')"
          by (auto simp: applyUpdate_def Let_def v split: if_splits)
        with False Some a guarded [of sh sh' x n] show thesis by simp
      qed
    qed
  qed
qed

text \<open>What the observer records before it fans out.\<close>

definition observed :: "bytes option \<Rightarrow> ('d, 'a) room \<Rightarrow> ('d, 'a) room" where
  "observed ev r =
     (case ev of
        None \<Rightarrow> r
      | Some u \<Rightarrow> r\<lparr>dirty := True, docUpdates := Suc (docUpdates r), docBytes := docBytes r + int (length u)\<rparr>)"

lemma observed_frame [simp]:
  "doc (observed ev r) = doc r" "shadow (observed ev r) = shadow r" "lc (observed ev r) = lc r"
  "members (observed ev r) = members r" "nextID (observed ev r) = nextID r" "trace (observed ev r) = trace r"
  "content (observed ev r) = content r" "docId (observed ev r) = docId r" "version (observed ev r) = version r"
  "doneClosed (observed ev r) = doneClosed r" "dirty (observed ev r) \<longleftrightarrow> dirty r \<or> ev \<noteq> None"
  "cfg (observed ev r) = cfg r" "docUpdates (observed ev r) = docUpdates r + (if ev = None then 0 else 1)"
  by (auto simp: observed_def split: option.splits)

lemma onDocUpdate_fanout:
  assumes "cascade okf R" "\<And>s f ok. \<not> peer org \<Longrightarrow> R s (log_ev (EvPublish False f ok) s)"
  shows "R (observed (Some u) r) (onDocUpdate e u org r)"
proof -
  note tr = cascade.R_trans [OF assms(1)]
  have b: "R s (broadcast e (FRaw f) i s)" for s f i
    by (rule cascade.broadcast_R [OF assms(1) cascade.okf_raw [OF assms(1)]])
  have p: "R s (publishToPeers e f False s)" if "\<not> peer org" for s f
    using tr [OF assms(2) [OF that] cascade.R_fanout(1) [OF assms(1)]]
      tr [OF assms(2) [OF that] cascade.R_fanout(2) [OF assms(1)]] by (simp add: publishToPeers_def Let_def)
  show ?thesis using b tr [OF b p] by (simp add: onDocUpdate_def observed_def Let_def)
qed

lemma applyLive_cases:
  assumes "applyLive e u org r = (res, r')" "cascade okf R" "\<And>s f ok. \<not> peer org \<Longrightarrow> R s (log_ev (EvPublish False f ok) s)"
  obtains d ev ok where "apply_update e (doc r) u = (d, ev, ok)" "R (observed ev (r\<lparr>doc := d\<rparr>)) r'"
    "res = (if \<not> ok \<and> shadow r' \<noteq> None then None else Some applyOK)" "ev = None \<longrightarrow> r' = r\<lparr>doc := d\<rparr>"
proof -
  obtain d ev ok where a: "apply_update e (doc r) u = (d, ev, ok)" by (metis prod_cases3)
  let ?r1 = "r\<lparr>doc := d\<rparr>"
  have "R (observed ev ?r1) (case ev of None \<Rightarrow> ?r1 | Some v \<Rightarrow> onDocUpdate e v org ?r1)"
    using onDocUpdate_fanout [OF assms(2,3)] cascade.R_refl [OF assms(2)]
    by (cases ev) (simp_all add: observed_def [of None])
  then show thesis
    using assms(1) a that by (auto simp: applyLive_def Let_def split: if_splits)
qed


section \<open>The lifecycle during a run\<close>

lemma applyLive_lc: "applyLive e u org r = (res, r') \<Longrightarrow> lc r' = lc r"
  by (erule applyLive_cases [OF _ quiet.cascade_axioms]) (simp_all add: quiet_frame quiet_log)

lemma applyUpdate_lc: "applyUpdate e u org r = (res, r') \<Longrightarrow> lc r' = lc r"
  by (erule applyUpdate_cases) (auto dest: applyLive_lc)

interpretation active: handler_inv "\<lambda>_. True" "\<lambda>r. lc r = stateActive" e for e :: "('d, 'a) env"
  by unfold_locales (simp_all add: deregister_def Let_def applyUpdate_lc)

lemma dispatch_panicked:
  assumes "dispatch e cmd r = (Panicked, rep, r1)"
  obtains i f d where "cmd = CmdMessage i f d" "handleMessage e i f d r = (None, r1)"
  using assms by (cases cmd)
    (auto simp: dispatch_def handleMessageCmd_def split: prod.splits option.splits if_splits)

lemma dispatch_stop:
  assumes "dispatch e cmd r = (Stop, rep, r1)"
  shows "(cmd = CmdClose \<and> r1 = teardown e CodeServerShutdown (persist e) r) \<or>
    (cmd = CmdCloseDeleted \<and> r1 = teardown e CodeDocumentDeleted (\<lambda>s. s) r)"
  using assms by (cases cmd) (auto simp: dispatch_def split: prod.splits if_splits)

lemma handleSync_panic_lc: "handleSync e i p r = (None, r') \<Longrightarrow> lc r' = lc r"
  by (auto simp: handleSync_def dispatchSync_def Let_def dest!: applyUpdate_lc
      split: prod.splits sync_result.splits if_splits option.splits sync_type.splits applyResult.splits)

lemma handleMessage_panic_lc: "handleMessage e i f d r = (None, r') \<Longrightarrow> lc r' = lc r"
  by (erule handleMessage_panic) (simp add: handleSync_panic_lc)

lemma handlePeer_panic_lc: "handlePeer e p eph r = (None, r') \<Longrightarrow> lc r' = lc r"
  by (auto simp: handlePeer_def dest: applyUpdate_lc split: if_splits option.splits prod.splits)

text \<open>The room keeps running only while it is active.\<close>

lemma run_step_active:
  assumes "run_step e ev r = (True, r')" "lc r = stateActive"
  shows "lc r' = stateActive"
proof (cases ev)
  case (LCommand cmd)
  obtain t rep r1 where d: "dispatch e cmd r = (t, rep, r1)" by (metis prod_cases3)
  with LCommand assms(1) have "t = KeepRunning" "r' = r1" by (auto simp: run_step_def split: turn.splits)
  with d assms(2) active.I_dispatch show ?thesis by blast
next
  case (LPeer p eph)
  obtain mut r1 where h: "handlePeer e p eph r = (mut, r1)" by fastforce
  with LPeer assms(1) obtain b where "mut = Some b" "r' = r1 \<or> r' = armSaveTimer r1"
    by (auto simp: run_step_def split: option.splits if_splits)
  moreover from this h assms(2) have "lc r1 = stateActive" using active.I_handlePeer by blast
  ultimately show ?thesis using active.I_timers(1) by blast
next
  case LSaveTimer
  then show ?thesis
    using assms by (auto simp: run_step_def Let_def active.I_timers split: if_splits)
next
  case LIdleTimer
  obtain stop r1 where h: "releaseIfEmpty e (r\<lparr>idleTimer := None\<rparr>) = (stop, r1)" by fastforce
  with LIdleTimer assms(1) have "\<not> stop" "r' = r1" by (auto simp: run_step_def)
  with h have "r1 = r\<lparr>idleTimer := None\<rparr> \<or> (\<exists>s. r1 = armIdleTimer (armRetryTimer s) \<and> lc s = stateActive)"
    by (auto simp: releaseIfEmpty_def Let_def split: if_splits)
  with \<open>r' = r1\<close> assms(2) show ?thesis by (auto simp: active.I_timers)
next
  case LContribTimer
  then show ?thesis using assms by (auto simp: run_step_def)
qed

lemma run_reach_active: "run_reach e r0 go r \<Longrightarrow> lc r0 = stateActive \<Longrightarrow> go \<Longrightarrow> lc r = stateActive"
  by (induction rule: run_reach.induct) (auto dest: run_step_active)

lemma teardown_draining:
  "lc r = stateDraining \<Longrightarrow> teardown e code flush r = destroyShadow r"
  by (simp add: teardown_def beginTeardown_def destroyShadow_def Let_def)

lemma persist_draining: "lc r = stateDraining \<Longrightarrow> lc (persist e r) = stateDraining"
  by (simp add: persist_def encode_failed_def onFlushFailed_def escalateUndurable_def persist_accepted_def
      onFlushSucceeded_def teardown_draining destroyShadow_def Let_def split: option.splits)

context room_inv begin

lemma I_recover:
  "I (r\<lparr>shadow := None, lc := stateDraining\<rparr>) \<Longrightarrow> lc r = stateActive \<Longrightarrow> I (recover_panic e r)"
  unfolding recover_panic_def by (rule I_teardown) auto

lemma I_run_step:
  assumes "run_step e ev r = (go, r')" "I r" "lc r = stateActive"
  shows "I r'"
proof (cases ev)
  case (LCommand cmd)
  obtain t rep r1 where d: "dispatch e cmd r = (t, rep, r1)" by (metis prod_cases3)
  show ?thesis
  proof (cases t)
    case KeepRunning
    then show ?thesis using LCommand d assms I_dispatch by (auto simp: run_step_def)
  next
    case Stop
    have "I (teardown e CodeServerShutdown (persist e) r)"
      by (rule I_teardown) (use assms(2) I_persist persist_draining in auto)
    then show ?thesis
      using Stop LCommand d assms dispatch_stop [of e cmd r rep r1] I_teardown_nil [OF assms(2)]
      by (auto simp: run_step_def)
  next
    case Panicked
    with d obtain i f dr where "handleMessage e i f dr r = (None, r1)" by (auto elim: dispatch_panicked)
    then have "I (recover_panic e r1)"
      using assms(2,3) by (metis I_recover I_handleMessage_panic handleMessage_panic_lc)
    with Panicked LCommand d assms show ?thesis by (simp add: run_step_def)
  qed
next
  case (LPeer p eph)
  obtain mut r1 where h: "handlePeer e p eph r = (mut, r1)" by fastforce
  show ?thesis
  proof (cases mut)
    case None
    then have "I (recover_panic e r1)"
      using assms(2,3) h by (metis I_recover I_handlePeer_panic handlePeer_panic_lc)
    with None LPeer h assms show ?thesis by (simp add: run_step_def)
  next
    case (Some b)
    then have "I r1" using h assms(2) I_handlePeer by blast
    with Some LPeer h assms show ?thesis by (auto simp: run_step_def I_timers)
  qed
next
  case LSaveTimer
  then show ?thesis
    using assms by (auto simp: run_step_def Let_def I_timers I_persist I_misc1 split: if_splits)
next
  case LIdleTimer
  then show ?thesis
    using assms I_releaseIfEmpty [OF I_misc1(4) [OF assms(2), of None]]
    by (auto simp: run_step_def split: prod.splits)
next
  case LContribTimer
  then show ?thesis using assms by (auto simp: run_step_def I_contribution)
qed

lemma run_reach_I:
  assumes "run_reach e r0 go r" "I r0" "lc r0 = stateActive"
  shows "I r"
  using assms
proof (induction rule: run_reach.induct)
  case (run_next r ev go r')
  then show ?case using I_run_step run_reach_active [OF run_next(1)] by blast
qed

end

end
