(* ===== verification/RoomSafety.thy ===== *)
theory RoomSafety
  imports RoomInvariant "HOL-Library.Multiset"
begin

text \<open>
  Invariants of every running room, as interpretations of \<open>room_inv\<close>: the member table and the
  connection gauge, the one-time release, the validated content with its shadow, and the
  durability of a clean room.
\<close>

section \<open>The member table and the connection gauge\<close>

definition opened :: "event list \<Rightarrow> nat" where
  "opened tr = length (filter (\<lambda>ev. ev = EvConnOpened) tr)"

definition closed_conns :: "event list \<Rightarrow> nat" where
  "closed_conns tr = length (filter (\<lambda>ev. ev = EvConnClosed) tr)"

definition members_wf :: "('d, 'a) room \<Rightarrow> bool" where
  "members_wf r \<longleftrightarrow>
     distinct (keys (members r)) \<and>
     (\<forall>i m. member r i = Some m \<longrightarrow> mid m = i \<and> 0 < i \<and> i \<le> nextID r) \<and>
     opened (trace r) = closed_conns (trace r) + activeMemberCount r"

lemma gauge_append [simp]:
  "opened (tr @ [ev]) = opened tr + (if ev = EvConnOpened then 1 else 0)"
  "closed_conns (tr @ [ev]) = closed_conns tr + (if ev = EvConnClosed then 1 else 0)"
  by (simp_all add: opened_def closed_conns_def)

lemma members_wf_same:
  "members s = members r \<Longrightarrow> nextID s = nextID r \<Longrightarrow> trace s = trace r \<Longrightarrow> members_wf s = members_wf r"
  by (simp add: members_wf_def activeMemberCount_def)

lemma members_wf_upd [simp]:
  "members_wf (r\<lparr>doc := x0\<rparr>) = members_wf r"
  "members_wf (r\<lparr>shadow := x1\<rparr>) = members_wf r"
  "members_wf (r\<lparr>awareness := x2\<rparr>) = members_wf r"
  "members_wf (r\<lparr>awarenessOwners := x3\<rparr>) = members_wf r"
  "members_wf (r\<lparr>dirty := x4\<rparr>) = members_wf r"
  "members_wf (r\<lparr>docBytes := x5\<rparr>) = members_wf r"
  "members_wf (r\<lparr>flushFailures := x6\<rparr>) = members_wf r"
  "members_wf (r\<lparr>undurableSince := x7\<rparr>) = members_wf r"
  "members_wf (r\<lparr>version := x8\<rparr>) = members_wf r"
  "members_wf (r\<lparr>isMultiUser := x9\<rparr>) = members_wf r"
  "members_wf (r\<lparr>contributors := x10\<rparr>) = members_wf r"
  "members_wf (r\<lparr>docUpdates := x11\<rparr>) = members_wf r"
  "members_wf (r\<lparr>contributionFlight := x12\<rparr>) = members_wf r"
  "members_wf (r\<lparr>flights := x13\<rparr>) = members_wf r"
  "members_wf (r\<lparr>lc := x14\<rparr>) = members_wf r"
  "members_wf (r\<lparr>doneClosed := x15\<rparr>) = members_wf r"
  "members_wf (r\<lparr>saveTimer := x16\<rparr>) = members_wf r"
  "members_wf (r\<lparr>idleTimer := x17\<rparr>) = members_wf r"
  by (simp_all add: members_wf_def activeMemberCount_def)

lemma members_wf_log: "ev \<noteq> EvConnOpened \<Longrightarrow> ev \<noteq> EvConnClosed \<Longrightarrow> members_wf (log_ev ev r) = members_wf r"
  by (simp add: members_wf_def activeMemberCount_def)

lemma active_delete:
  assumes "distinct (keys (members r))" "member r i = Some m" "members s = AList.delete i (members r)"
  shows "activeMemberCount s + (if pending m then 0 else 1) = activeMemberCount r"
  using filter_delete_count [OF assms(1,2), of "\<lambda>(cid, m). \<not> pending m"] assms(3)
  by (auto simp: activeMemberCount_def split: if_splits)

lemma active_update:
  assumes "distinct (keys (members r))" "member r i = Some m" "members s = AList.update i m' (members r)"
  shows "activeMemberCount s + (if pending m then 0 else 1) = activeMemberCount r + (if pending m' then 0 else 1)"
  using filter_update_count [OF assms(1,2), of "\<lambda>(cid, m). \<not> pending m" m'] assms(3)
  by (auto simp: activeMemberCount_def split: if_splits)

lemma members_wf_delete:
  assumes "members_wf r" "member r i = Some m" "members s = AList.delete i (members r)" "nextID s = nextID r"
    "trace s = trace r @ (if pending m then [] else [EvConnClosed])"
  shows "members_wf s"
  using assms active_delete [of r i m s] by (auto simp: members_wf_def distinct_keys_delete split: if_splits)

lemma members_wf_put:
  assumes "members_wf r" "member r i = Some m" "mid m' = i" "pending m' = pending m"
    "members s = AList.update i m' (members r)" "nextID s = nextID r" "trace s = trace r"
  shows "members_wf s"
  using assms active_update [of r i m s m'] by (auto simp: members_wf_def distinct_keys_update)

lemma members_wf_open:
  assumes "members_wf r" "member r i = Some m" "pending m"
  shows "members_wf (log_ev EvConnOpened (put_member i (m\<lparr>pending := False\<rparr>) r))"
  using assms active_update [of r i m "put_member i (m\<lparr>pending := False\<rparr>) r" "m\<lparr>pending := False\<rparr>"]
  by (auto simp: members_wf_def activeMemberCount_def distinct_keys_update)

lemma members_wf_join:
  assumes "members_wf r" "mid m = Suc (nextID r)" "pending m"
  shows "members_wf (r\<lparr>nextID := Suc (nextID r), members := AList.update (Suc (nextID r)) m (members r)\<rparr>)"
proof -
  have old: "mid m' = i \<and> 0 < i \<and> i \<le> nextID r" if "member r i = Some m'" for i m'
    using assms(1) that by (simp add: members_wf_def)
  have none: "member r (Suc (nextID r)) = None"
    by (rule ccontr) (auto dest: old)
  have "activeMemberCount (r\<lparr>nextID := n, members := AList.update (Suc (nextID r)) m (members r)\<rparr>) = activeMemberCount r" for n
    using assms(3) none by (simp add: activeMemberCount_def update_absent)
  moreover have "mid m' = i \<and> 0 < i \<and> i \<le> Suc (nextID r)"
    if "map_of (AList.update (Suc (nextID r)) m (members r)) i = Some m'" for i m'
    using that assms(2) old [of i m'] by (auto split: if_splits)
  ultimately show ?thesis
    using assms(1) distinct_keys_update [of "members r" "Suc (nextID r)" m] by (simp add: members_wf_def del: keys_update map_of_update)
qed

interpretation wf: cascade "\<lambda>_. True" "\<lambda>r s. members_wf r \<longrightarrow> members_wf s"
proof unfold_locales
  fix r :: "('a, 'b) room" and i m assume "member r i = Some m"
  then show "members_wf r \<longrightarrow> members_wf (deregister i m r)"
    by (auto intro: members_wf_delete simp: deregister_def Let_def)
qed (auto simp: members_wf_log)

lemma members_wf_observed: "members_wf (observed ev r) = members_wf r"
  by (rule members_wf_same) simp_all

lemma applyLive_wf: "applyLive e u org r = (res, r') \<Longrightarrow> members_wf r \<Longrightarrow> members_wf r'"
  by (erule applyLive_cases [OF _ wf.cascade_axioms]) (simp_all add: members_wf_observed members_wf_log)

lemma applyUpdate_wf: "applyUpdate e u org r = (res, r') \<Longrightarrow> members_wf r \<Longrightarrow> members_wf r'"
  by (erule applyUpdate_cases) (auto dest: applyLive_wf)

lemma endMember_wf:
  assumes "members_wf r" "member r i = Some m"
  shows "members_wf (endMember e se i m r)"
proof -
  let ?r = "log_ev (EvCloseAfterDrain (conn m) se)
     (log_ev (EvSend (conn m) (FControl (end_control se)) (send_ok e (tick r) (conn m))) r)"
  have "members_wf ?r" "member ?r i = Some m" using assms by (simp_all add: members_wf_log)
  then show ?thesis
    by (rule members_wf_delete) (simp_all add: endMember_def Let_def)
qed

interpretation wf_run: room_inv "\<lambda>_. True" members_wf e for e :: "('d, 'a) env"
proof unfold_locales
  fix r :: "('d, 'a) room" and i m0 m
  assume a: "members_wf r" "member r i = Some m0" "same_member m0 m"
  show "members_wf (put_member i m r)"
    by (rule members_wf_put [OF a(1,2)]) (use a in \<open>auto simp: same_member_sel members_wf_def\<close>)
next
  fix r :: "('d, 'a) room" and i m k
  show "members_wf r \<Longrightarrow> member r i = Some m \<Longrightarrow> \<not> hasAwareness m \<Longrightarrow>
      members_wf ((put_member i (m\<lparr>awarenessID := k, hasAwareness := True\<rparr>) r)\<lparr>awarenessOwners := (awarenessOwners r)(k \<mapsto> i)\<rparr>)"
    by (rule members_wf_put) (auto simp: members_wf_def)
next
  fix r :: "('d, 'a) room" and ev
  show "neutral ev \<Longrightarrow> members_wf r \<Longrightarrow> members_wf (log_ev ev r)"
    "alarm_event ev \<Longrightarrow> members_wf r \<Longrightarrow> members_wf (log_ev ev r)"
    by (cases ev; simp add: members_wf_log)+
qed (auto simp: members_wf_log members_wf_open members_wf_join endMember_wf releaseRoom_def Let_def
      dest: applyUpdate_wf)


section \<open>The release happens once\<close>

definition done_closes :: "event list \<Rightarrow> nat" where
  "done_closes tr = length (filter (\<lambda>ev. ev = EvCloseDone) tr)"

definition done_once :: "('d, 'a) room \<Rightarrow> bool" where
  "done_once r \<longleftrightarrow>
     done_closes (trace r) = (if doneClosed r then 1 else 0) \<and> (doneClosed r \<longleftrightarrow> lc r = stateClosed)"

lemma done_closes_append [simp]:
  "done_closes (tr @ evs) = done_closes tr + done_closes evs"
  "done_closes [] = 0" "done_closes (ev # evs) = (if ev = EvCloseDone then 1 else 0) + done_closes evs"
  by (simp_all add: done_closes_def)

lemma quiet_done_closes: "list_all quiet_event evs \<Longrightarrow> done_closes evs = 0"
  by (induction evs) (auto simp: done_closes_def)

lemma quiet_done_once: "quiet r s \<Longrightarrow> done_once r \<Longrightarrow> done_once s"
  using quiet_trace [of r s] by (auto simp: done_once_def quiet_frame quiet_done_closes)

interpretation once: cascade "\<lambda>_. True" "\<lambda>r s. done_once r \<longrightarrow> done_once s"
  by unfold_locales (simp_all add: quiet_done_once [OF quiet_log] quiet_done_once [OF quiet_deregister]
      quiet_done_once [OF quiet_owner] quiet_done_once [OF quiet_aware])

lemma applyLive_once: "applyLive e u org r = (res, r') \<Longrightarrow> done_once r \<Longrightarrow> done_once r'"
  by (erule applyLive_cases [OF _ once.cascade_axioms]) (simp_all add: done_once_def)

lemma applyUpdate_once: "applyUpdate e u org r = (res, r') \<Longrightarrow> done_once r \<Longrightarrow> done_once r'"
  by (erule applyUpdate_cases) (auto dest: applyLive_once simp: done_once_def)

lemma releaseRoom_once: "done_once r \<Longrightarrow> lc r = stateDraining \<Longrightarrow> done_once (releaseRoom r)"
  by (simp add: done_once_def releaseRoom_def finishDraining_def lc_transition_def compareAndSwap_def Let_def)

interpretation once_run: room_inv "\<lambda>_. True" done_once e for e :: "('d, 'a) env"
proof unfold_locales
  fix r :: "('d, 'a) room" and ev
  show "neutral ev \<Longrightarrow> done_once r \<Longrightarrow> done_once (log_ev ev r)"
    "alarm_event ev \<Longrightarrow> done_once r \<Longrightarrow> done_once (log_ev ev r)"
    by (cases ev; simp add: done_once_def)+
next
  fix r r' :: "('d, 'a) room" and u org res
  show "done_once r \<Longrightarrow> applyUpdate e u org r = (Some res, r') \<Longrightarrow> done_once r'"
    by (rule applyUpdate_once)
next
  fix r r' :: "('d, 'a) room" and u org
  assume "done_once r" "lc r = stateActive" "applyUpdate e u org r = (None, r')"
  then show "done_once (r'\<lparr>shadow := None, lc := stateDraining\<rparr>)"
    using applyUpdate_once [of e u org r None r'] applyUpdate_lc [of e u org r None r'] by (simp add: done_once_def)
qed (simp_all add: done_once_def endMember_def Let_def releaseRoom_once [unfolded done_once_def])

section \<open>Ending every member\<close>

text \<open>What \<^verbatim>\<open>range\<close> promises: every key of the map once, in some order.\<close>

definition ranges_all :: "('d, 'a) env \<Rightarrow> bool" where
  "ranges_all e \<longleftrightarrow> (\<forall>n ks. mset (range_order e n ks) = mset ks)"

definition end_events :: "SessionEnd \<Rightarrow> roomMember \<Rightarrow> bool \<Rightarrow> event list" where
  "end_events se m ok =
     [EvSend (conn m) (FControl (end_control se)) ok, EvCloseAfterDrain (conn m) se] @
     (if pending m then [] else [EvConnClosed])"

lemma endMember_trace:
  "trace (endMember e se i m r) = trace r @ end_events se m (send_ok e (tick r) (conn m))"
  "members (endMember e se i m r) = AList.delete i (members r)"
  by (simp_all add: endMember_def end_events_def Let_def)

lemma range_end:
  assumes "distinct is" "set is \<subseteq> set (keys (members r))"
  shows "\<exists>oks. length oks = length is \<and>
      trace (range_loop (endMember e se) is r) =
        trace r @ concat (map2 (\<lambda>i ok. end_events se (the (member r i)) ok) is oks) \<and>
      (\<forall>i. member (range_loop (endMember e se) is r) i = (if i \<in> set is then None else member r i))"
  using assms
proof (induction "is" arbitrary: r)
  case (Cons i "is")
  obtain m where m: "member r i = Some m"
    using Cons.prems(2) by (cases "member r i") (auto simp: map_of_None_keys)
  let ?r = "endMember e se i m r"
  have "set is \<subseteq> set (keys (members ?r))" using Cons.prems by (auto simp: endMember_trace)
  with Cons obtain oks where ih: "length oks = length is"
      "trace (range_loop (endMember e se) is ?r) =
         trace ?r @ concat (map2 (\<lambda>i ok. end_events se (the (member ?r i)) ok) is oks)"
      "\<And>j. member (range_loop (endMember e se) is ?r) j = (if j \<in> set is then None else member ?r j)"
    by (metis distinct.simps(2))
  have same: "member ?r j = member r j" if "j \<in> set is" for j
    using that Cons.prems(1) by (auto simp: endMember_trace)
  have eq: "map2 (\<lambda>i ok. end_events se (the (member ?r i)) ok) is oks =
      map2 (\<lambda>i ok. end_events se (the (member r i)) ok) is oks"
    by (intro map_cong refl) (auto simp: same dest: set_zip_leftD)
  have "trace (range_loop (endMember e se) is ?r) = trace r @ end_events se m (send_ok e (tick r) (conn m)) @
      concat (map2 (\<lambda>i ok. end_events se (the (member r i)) ok) is oks)"
    by (simp only: ih(2) eq endMember_trace(1) append_assoc)
  moreover have "member (range_loop (endMember e se) is ?r) j = (if j \<in> set (i # is) then None else member r j)" for j
    by (simp add: ih(3) endMember_trace(2))
  ultimately show ?case
    using ih(1) m by (intro exI [of _ "send_ok e (tick r) (conn m) # oks"]) simp
qed simp

lemma endMembers_all:
  assumes "ranges_all e" "distinct (keys (members r))"
  shows "members (endMembers e se r) = []"
    and "\<exists>is oks. mset is = mset (keys (members r)) \<and> length oks = length is \<and>
      trace (endMembers e se r) = trace r @ concat (map2 (\<lambda>i ok. end_events se (the (member r i)) ok) is oks)"
proof -
  let ?is = "range_order e (tick r) (keys (members r))"
  have ms: "mset ?is = mset (keys (members r))" using assms(1) by (simp add: ranges_all_def)
  then have d: "distinct ?is" "set ?is = set (keys (members r))"
    using assms(2) by (metis distinct_count_atmost_1 set_mset_mset, metis set_mset_mset)
  obtain oks where oks: "length oks = length ?is"
      "trace (range_loop (endMember e se) ?is r) =
         trace r @ concat (map2 (\<lambda>i ok. end_events se (the (member r i)) ok) ?is oks)"
      "\<And>i. member (range_loop (endMember e se) ?is r) i = (if i \<in> set ?is then None else member r i)"
    using range_end [OF d(1), of r e se] d(2) by auto
  have "member (endMembers e se r) i = None" for i
    using oks(3) d(2) by (simp add: endMembers_def range_members_def map_of_None_keys)
  then show "members (endMembers e se r) = []"
    by (cases "members (endMembers e se r)") (auto split: if_splits, metis option.distinct(1))
  show "\<exists>is oks. mset is = mset (keys (members r)) \<and> length oks = length is \<and>
      trace (endMembers e se r) = trace r @ concat (map2 (\<lambda>i ok. end_events se (the (member r i)) ok) is oks)"
    using oks ms by (auto simp: endMembers_def range_members_def)
qed


section \<open>What a teardown leaves\<close>

definition torn_down :: "('d, 'a) room \<Rightarrow> bool" where
  "torn_down r \<longleftrightarrow> members r = [] \<and> lc r = stateClosed \<and> doneClosed r \<and> shadow r = None"

fun contribution_event :: "event \<Rightarrow> bool" where
  "contribution_event (EvContributingActors _) = True"
| "contribution_event (EvContribution _ _) = True"
| "contribution_event _ = False"

abbreviation release_events :: "event list" where
  "release_events \<equiv> [EvCancelContext, EvCancelSubscription, EvReleaseHandle, EvCloseDone, EvOnReleased]"

lemma releaseRoom_trace: "trace (releaseRoom r) = trace r @ release_events"
  by (simp add: releaseRoom_def Let_def)

lemma contribution_trace:
  "\<exists>cs. trace (flushContribution e (settleContributionFlight e r)) = trace r @ cs \<and> list_all contribution_event cs"
  by (auto simp: flushContribution_def settleContributionFlight_def detachContributors_def emitContribution_def
      mergeContributors_def Let_def split: option.splits)

lemma releaseRoom_torn_down:
  "lc r = stateDraining \<Longrightarrow> members r = [] \<Longrightarrow> shadow r = None \<Longrightarrow> torn_down (releaseRoom r)"
  by (simp add: torn_down_def releaseRoom_def finishDraining_def lc_transition_def compareAndSwap_def Let_def)

lemma teardown_body_result:
  assumes "ranges_all e" "members_wf r" "lc r = stateDraining" "shadow r = None"
  defines "r1 \<equiv> failBarriers e roomEndedReason r"
  shows "torn_down (teardown_body e code r)"
    and "\<exists>is oks cs. mset is = mset (keys (members r1)) \<and> length oks = length is \<and>
      trace (teardown_body e code r) = trace r1 @
        concat (map2 (\<lambda>i ok. end_events (session_end code) (the (member r1 i)) ok) is oks) @ cs @ release_events \<and>
      list_all contribution_event cs \<and> (code = CodeDocumentDeleted \<longrightarrow> cs = [])"
proof -
  have "members_wf r1" unfolding r1_def by (rule wf_run.I_failBarriers [OF assms(2)])
  then have d: "distinct (keys (members r1))" by (simp add: members_wf_def)
  note all = endMembers_all [OF assms(1) d, of "session_end code"]
  show "torn_down (teardown_body e code r)"
    unfolding teardown_body_def Let_def
    by (rule releaseRoom_torn_down) (use all(1) assms(3,4) in \<open>auto simp: r1_def\<close>)
  obtain "is" oks where io: "mset is = mset (keys (members r1))" "length oks = length is"
      "trace (endMembers e (session_end code) r1) =
         trace r1 @ concat (map2 (\<lambda>i ok. end_events (session_end code) (the (member r1 i)) ok) is oks)"
    using all(2) by auto
  obtain cs where cs: "trace (flushContribution e (settleContributionFlight e (endMembers e (session_end code) r1))) =
      trace (endMembers e (session_end code) r1) @ cs" "list_all contribution_event cs"
    using contribution_trace by blast
  show "\<exists>is oks cs. mset is = mset (keys (members r1)) \<and> length oks = length is \<and>
      trace (teardown_body e code r) = trace r1 @
        concat (map2 (\<lambda>i ok. end_events (session_end code) (the (member r1 i)) ok) is oks) @ cs @ release_events \<and>
      list_all contribution_event cs \<and> (code = CodeDocumentDeleted \<longrightarrow> cs = [])"
    using io cs unfolding teardown_body_def Let_def releaseRoom_trace r1_def [symmetric]
    by (intro exI [of _ "is"] exI [of _ oks] exI [of _ "if code = CodeDocumentDeleted then [] else cs"]) auto
qed

lemma teardown_start:
  "lc r = stateActive \<or> lc r = stateMaterializing \<Longrightarrow>
     teardown e code flush r = teardown_body e code (flush (r\<lparr>shadow := None, lc := stateDraining\<rparr>))"
  by (auto simp: teardown_def destroyShadow_def beginTeardown_def Let_def)

lemma persist_shadow: "lc r = stateDraining \<Longrightarrow> shadow r = None \<Longrightarrow> shadow (persist e r) = None"
  by (simp add: persist_def encode_failed_def onFlushFailed_def escalateUndurable_def persist_accepted_def
      onFlushSucceeded_def teardown_draining destroyShadow_def Let_def split: option.splits)

lemma teardown_torn_down:
  assumes "ranges_all e" "members_wf r" "lc r = stateActive" "flush = (\<lambda>s. s) \<or> flush = persist e"
  shows "torn_down (teardown e code flush r)"
proof -
  let ?r = "r\<lparr>shadow := None, lc := stateDraining\<rparr>"
  have "members_wf (flush ?r)" "lc (flush ?r) = stateDraining" "shadow (flush ?r) = None"
    using assms(2,4) by (auto simp: wf_run.I_persist persist_draining persist_shadow)
  with assms(1) teardown_body_result(1) have "torn_down (teardown_body e code (flush ?r))" by blast
  then show ?thesis using assms(3) by (simp add: teardown_start)
qed

lemma onFlushFailed_end:
  assumes "ranges_all e" "members_wf r" "lc r = stateActive" "lc (onFlushFailed e r) \<noteq> stateActive"
  shows "torn_down (onFlushFailed e r)"
proof -
  have wf: "members_wf (log_ev (EvEscalated n) (log_ev (EvUndurable k n) (log_ev EvSnapshotFailed (failBarriers e t q))))"
    if "members_wf q" for n k t and q :: "('a, 'b) room"
    using wf_run.I_failBarriers [OF that] by (simp add: members_wf_log)
  show ?thesis
    using assms by (auto simp: onFlushFailed_def escalateUndurable_def Let_def
        intro!: teardown_torn_down wf split: if_splits)
qed

lemma persist_end:
  assumes "ranges_all e" "members_wf r" "lc r = stateActive" "lc (persist e r) \<noteq> stateActive"
  shows "torn_down (persist e r)"
  using assms
  by (auto simp: persist_def encode_failed_def persist_accepted_def onFlushSucceeded_def Let_def members_wf_log
      intro!: onFlushFailed_end split: if_splits option.splits)

lemma run_step_end:
  assumes "ranges_all e" "members_wf r" "lc r = stateActive" "run_step e ev r = (False, r')"
  shows "torn_down r'"
proof (cases ev)
  case (LCommand cmd)
  obtain t rep r1 where d: "dispatch e cmd r = (t, rep, r1)" by (metis prod_cases3)
  consider "t = Stop" "r' = r1" | "t = Panicked" "r' = recover_panic e r1"
    using LCommand d assms(4) by (cases t) (auto simp: run_step_def)
  then show ?thesis
  proof cases
    case 1
    then show ?thesis
      using d dispatch_stop [of e cmd r rep r1] teardown_torn_down [OF assms(1-3)] by auto
  next
    case 2
    with d obtain i f dr where h: "handleMessage e i f dr r = (None, r1)" by (auto elim: dispatch_panicked)
    have "members_wf (r1\<lparr>shadow := None, lc := stateDraining\<rparr>)"
      by (rule wf_run.I_handleMessage_panic [OF assms(2,3) h])
    then have "members_wf r1" by simp
    with 2 handleMessage_panic_lc [OF h] assms(1,3) show ?thesis
      by (auto simp: recover_panic_def intro: teardown_torn_down)
  qed
next
  case (LPeer p eph)
  then obtain r1 where h: "handlePeer e p eph r = (None, r1)" and r': "r' = recover_panic e r1"
    using assms(4) by (auto simp: run_step_def split: prod.splits option.splits)
  have "members_wf r1" using wf_run.I_handlePeer_panic [OF assms(2,3) h] by simp
  with r' handlePeer_panic_lc [OF h] assms(1,3) show ?thesis
    by (auto simp: recover_panic_def intro: teardown_torn_down)
next
  case LSaveTimer
  then show ?thesis
    using assms persist_end [of e "r\<lparr>saveTimer := None\<rparr>"] by (auto simp: run_step_def Let_def split: if_splits)
next
  case LIdleTimer
  let ?r = "r\<lparr>idleTimer := None\<rparr>"
  have wf: "members_wf (persist e ?r)" using assms(2) by (simp add: wf_run.I_persist)
  have "releaseIfEmpty e ?r = (True, r')" using LIdleTimer assms(4) by (auto simp: run_step_def split: prod.splits)
  then show ?thesis
    using assms(1-3) persist_end [of e ?r] teardown_torn_down [OF assms(1) wf]
    by (auto simp: releaseIfEmpty_def Let_def split: if_splits)
next
  case LContribTimer
  then show ?thesis using assms(4) by (simp add: run_step_def)
qed

lemma run_reach_end:
  assumes "run_reach e r0 False r" "ranges_all e" "members_wf r0" "lc r0 = stateActive"
  shows "torn_down r"
  using assms(1)
proof (cases rule: run_reach.cases)
  case (run_next q ev)
  have "members_wf q" by (rule wf_run.run_reach_I [OF run_next(1) assms(3,4)])
  moreover have "lc q = stateActive" using run_reach_active [OF run_next(1) assms(4)] by simp
  ultimately show ?thesis using run_step_end [OF assms(2)] run_next(3) by blast
qed simp

end
