(* ===== verification/RoomContent.thy ===== *)
theory RoomContent
  imports RoomSafety
begin

text \<open>
  Invariants of a running room that depend on the CRDT library: the validated content with its
  shadow, and what the stores hold when the room is clean. What the library promises is stated as
  the predicates \<open>crdt_faithful\<close> and \<open>observer_complete\<close>. The last section follows the \<^verbatim>\<open>persisted\<close>
  answers through the trace; it needs no promise.
\<close>

section \<open>Validated content and the shadow\<close>

text \<open>
  Two documents that are similar take an update the same way and read the same; a document rebuilt
  from an encoding is similar to its source.
\<close>

definition crdt_faithful :: "('d, 'a) env \<Rightarrow> ('d \<Rightarrow> 'd \<Rightarrow> bool) \<Rightarrow> bool" where
  "crdt_faithful e sim \<longleftrightarrow>
     (\<forall>d d' u d1 ev1 ok1 d2 ev2 ok2. sim d d' \<longrightarrow> apply_update e d u = (d1, ev1, ok1) \<longrightarrow>
        apply_update e d' u = (d2, ev2, ok2) \<longrightarrow> ok1 = ok2 \<and> (ok1 \<longrightarrow> sim d1 d2)) \<and>
     (\<forall>d d'. sim d d' \<longrightarrow> files_of e d = files_of e d' \<and> images_of e d = images_of e d') \<and>
     (\<forall>d s g c ev. encode_v2 e d = Some s \<longrightarrow> apply_update_v2 e (new_doc e g) s = (c, ev, True) \<longrightarrow> sim d c)"

lemma crdt_apply:
  "crdt_faithful e sim \<Longrightarrow> sim d d' \<Longrightarrow> apply_update e d u = (d1, ev1, ok1) \<Longrightarrow> apply_update e d' u = (d2, ev2, ok2) \<Longrightarrow>
     ok1 = ok2 \<and> (ok1 \<longrightarrow> sim d1 d2)"
  unfolding crdt_faithful_def by blast

lemma crdt_clone:
  assumes "crdt_faithful e sim" "cloneDoc e d g = Some c"
  shows "sim d c"
proof -
  obtain s ev where "encode_v2 e d = Some s" "apply_update_v2 e (new_doc e g) s = (c, ev, True)"
    using assms(2) by (auto simp: cloneDoc_def split: option.splits prod.splits if_splits)
  then show ?thesis using assms(1) unfolding crdt_faithful_def by blast
qed

lemma crdt_schema: "crdt_faithful e sim \<Longrightarrow> sim d d' \<Longrightarrow> validateSchema e r d = validateSchema e r d'"
  by (simp add: crdt_faithful_def validateSchema_def validateContent_def)

definition checked :: "string \<Rightarrow> bool" where
  "checked ct \<longleftrightarrow> ct = ContentTypeWhiteboard \<or> ct = ContentTypeMemo"

text \<open>The invariant is a fact about content type, lifecycle, document and shadow alone.\<close>

definition content_ok ::
  "('d, 'a) env \<Rightarrow> ('d \<Rightarrow> 'd \<Rightarrow> bool) \<Rightarrow> string \<Rightarrow> roomState \<Rightarrow> 'd \<Rightarrow> 'd option \<Rightarrow> bool" where
  "content_ok e sim ct s d sh \<longleftrightarrow>
     (s = stateActive \<longrightarrow>
        (\<forall>x. sh = Some x \<longrightarrow> sim d x) \<and>
        (checked ct \<longrightarrow> sh \<noteq> None \<and> validateContent ct (files_of e) (images_of e) d = None))"

definition schema_inv :: "('d, 'a) env \<Rightarrow> ('d \<Rightarrow> 'd \<Rightarrow> bool) \<Rightarrow> ('d, 'a) room \<Rightarrow> bool" where
  "schema_inv e sim r \<longleftrightarrow> content_ok e sim (content r) (lc r) (doc r) (shadow r)"

lemma quiet_schema: "quiet r s \<Longrightarrow> schema_inv e sim r = schema_inv e sim s"
  by (simp add: schema_inv_def quiet_frame)

lemma applyLive_doc:
  assumes "applyLive e u org r = (res, r')"
  obtains d ev ok where "apply_update e (doc r) u = (d, ev, ok)" "doc r' = d" "shadow r' = shadow r"
    "content r' = content r" "lc r' = lc r" "docId r' = docId r" "version r' = version r"
    "dirty r' \<longleftrightarrow> dirty r \<or> ev \<noteq> None"
    "res = (if \<not> ok \<and> shadow r \<noteq> None then None else Some applyOK)"
  by (rule applyLive_cases [OF assms quiet.cascade_axioms])
    (auto simp: quiet_log quiet_frame that)

lemma applyUpdate_schema:
  assumes e: "crdt_faithful e sim" and inv: "schema_inv e sim r" and ap: "applyUpdate e u org r = (Some res, r')"
  shows "schema_inv e sim r'"
  using ap
proof (cases rule: applyUpdate_cases)
  case (too_large n)
  then show ?thesis using inv by (simp add: schema_inv_def)
next
  case (unguarded n)
  from unguarded(2) show ?thesis
    by (rule applyLive_doc) (use inv unguarded(1) in \<open>auto simp: schema_inv_def content_ok_def\<close>)
next
  case (refused n fresh sh sh' x ok)
  then show ?thesis using inv crdt_clone [OF e] by (auto simp: schema_inv_def content_ok_def)
next
  case (guarded n sh sh' x)
  from guarded(4) show ?thesis
  proof (rule applyLive_doc)
    fix d ev ok
    assume a: "apply_update e (doc (r\<lparr>docBytes := n, shadow := Some sh'\<rparr>)) u = (d, ev, ok)"
      and r': "doc r' = d" "shadow r' = shadow (r\<lparr>docBytes := n, shadow := Some sh'\<rparr>)"
        "content r' = content (r\<lparr>docBytes := n, shadow := Some sh'\<rparr>)" "lc r' = lc (r\<lparr>docBytes := n, shadow := Some sh'\<rparr>)"
    show ?thesis
    proof (cases "lc r = stateActive")
      case True
      then have "sim (doc r) sh" using inv guarded(1) by (simp add: schema_inv_def content_ok_def)
      then have "sim d sh'" using crdt_apply [OF e _ _ guarded(2)] a by auto
      moreover from this have "validateSchema e r d = None" using crdt_schema [OF e] guarded(3) by metis
      ultimately show ?thesis using r' by (simp add: schema_inv_def content_ok_def validateSchema_def)
    qed (simp add: schema_inv_def content_ok_def r')
  qed
qed simp

lemma schema_room_inv:
  assumes "crdt_faithful e sim"
  shows "room_inv (\<lambda>_. True) (schema_inv e sim) e"
proof unfold_locales
  fix r r' u org res
  show "schema_inv e sim r \<Longrightarrow> applyUpdate e u org r = (Some res, r') \<Longrightarrow> schema_inv e sim r'"
    by (rule applyUpdate_schema [OF assms])
next
  fix r :: "('a, 'b) room" and i m
  show "schema_inv e sim r \<longrightarrow> schema_inv e sim (deregister i m r)"
    using quiet_schema [OF quiet_deregister] by blast
next
  fix r r' u org
  assume "applyUpdate e u org r = (None, r')"
  then show "schema_inv e sim (r'\<lparr>shadow := None, lc := stateDraining\<rparr>)"
    by (simp add: schema_inv_def content_ok_def)
qed (auto simp: schema_inv_def content_ok_def endMember_def releaseRoom_def finishDraining_def lc_transition_def
    compareAndSwap_def Let_def)

section \<open>What the stores hold\<close>

text \<open>
  The snapshots both stores accepted, oldest first: a checkpoint that was saved and whose metadata
  row was saved next.
\<close>

definition save_step :: "bytes option \<times> bytes list \<Rightarrow> event \<Rightarrow> bytes option \<times> bytes list" where
  "save_step st ev =
     (case ev of
        EvSaveCheckpoint s v ok \<Rightarrow> (if ok then Some s else None, snd st)
      | EvSaveMetadata m ok \<Rightarrow>
          (None, if ok then (case fst st of None \<Rightarrow> snd st | Some s \<Rightarrow> snd st @ [s]) else snd st)
      | _ \<Rightarrow> st)"

definition saves :: "event list \<Rightarrow> bytes list" where
  "saves tr = snd (foldl save_step (None, []) tr)"

lemma saves_neutral: "neutral ev \<or> alarm_event ev \<or> quiet_event ev \<or> ev = EvConnOpened \<or> ev = EvCloseDone \<Longrightarrow> save_step st ev = st"
  by (cases ev) (simp_all add: save_step_def)

lemma saves_snoc: "neutral ev \<or> alarm_event ev \<or> quiet_event ev \<or> ev = EvConnOpened \<or> ev = EvCloseDone \<Longrightarrow> saves (tr @ [ev]) = saves tr"
  by (simp add: saves_def saves_neutral)

lemma saves_quiet: "list_all quiet_event evs \<Longrightarrow> saves (tr @ evs) = saves tr"
proof (induction evs rule: rev_induct)
  case (snoc ev evs)
  then show ?case using saves_snoc [of ev "tr @ evs"] by simp
qed simp

lemma saves_failed [simp]:
  "saves (tr @ [EvSaveCheckpoint s v ok]) = saves tr" "saves (tr @ [EvSaveMetadata m False]) = saves tr"
  by (simp_all add: saves_def save_step_def)

lemma saves_accepted [simp]:
  "saves (tr @ [EvSaveCheckpoint s v True, EvSaveMetadata m True]) = saves tr @ [s]"
  by (simp add: saves_def save_step_def)

text \<open>The library calls the update observer whenever the encoded state changes.\<close>

definition observer_complete :: "('d, 'a) env \<Rightarrow> bool" where
  "observer_complete e \<longleftrightarrow>
     (\<forall>d u d' ok. apply_update e d u = (d', None, ok) \<longrightarrow> encode_v2 e d' = encode_v2 e d)"

definition durable_inv :: "('d, 'a) env \<Rightarrow> bytes option \<Rightarrow> int \<Rightarrow> ('d, 'a) room \<Rightarrow> bool" where
  "durable_inv e enc0 v0 r \<longleftrightarrow>
     (\<not> dirty r \<longrightarrow>
        encode_v2 e (doc r) = (if saves (trace r) = [] then enc0 else Some (last (saves (trace r))))) \<and>
     version r = v0 + int (length (saves (trace r)))"

lemma quiet_durable: "quiet r s \<Longrightarrow> durable_inv e enc0 v0 r = durable_inv e enc0 v0 s"
  using quiet_trace [of r s] by (auto simp: durable_inv_def quiet_frame saves_quiet)

lemma applyUpdate_durable:
  assumes e: "observer_complete e" and inv: "durable_inv e enc0 v0 r" and ap: "applyUpdate e u org r = (res, r')"
  shows "durable_inv e enc0 v0 r'"
proof -
  have live: "durable_inv e enc0 v0 r'" if "applyLive e u org q = (res, r')" "durable_inv e enc0 v0 q" for q
    using that(1) quiet.cascade_axioms
  proof (rule applyLive_cases)
    fix d ev ok
    assume a: "apply_update e (doc q) u = (d, ev, ok)" "quiet (observed ev (q\<lparr>doc := d\<rparr>)) r'"
    have "ev = None \<longrightarrow> encode_v2 e d = encode_v2 e (doc q)"
      using a(1) e unfolding observer_complete_def by blast
    then have "durable_inv e enc0 v0 (observed ev (q\<lparr>doc := d\<rparr>))"
      using that(2) by (simp add: durable_inv_def)
    then show ?thesis using quiet_durable [OF a(2)] by blast
  qed (simp add: quiet_log)
  show ?thesis
    using ap by (cases rule: applyUpdate_cases) (use inv live in \<open>auto simp: durable_inv_def\<close>)
qed

lemma durable_room_inv:
  assumes "observer_complete e"
  shows "room_inv (\<lambda>_. True) (durable_inv e enc0 v0) e"
proof unfold_locales
  fix r r' u org res
  show "durable_inv e enc0 v0 r \<Longrightarrow> applyUpdate e u org r = (Some res, r') \<Longrightarrow> durable_inv e enc0 v0 r'"
    by (rule applyUpdate_durable [OF assms])
next
  fix r r' u org
  assume "durable_inv e enc0 v0 r" "applyUpdate e u org r = (None, r')"
  then have "durable_inv e enc0 v0 r'" using applyUpdate_durable [OF assms] by blast
  then show "durable_inv e enc0 v0 (r'\<lparr>shadow := None, lc := stateDraining\<rparr>)"
    by (simp add: durable_inv_def)
next
  fix r :: "('a, 'b) room" and i m
  show "durable_inv e enc0 v0 r \<longrightarrow> durable_inv e enc0 v0 (deregister i m r)"
    using quiet_durable [OF quiet_deregister] by blast
next
  fix r :: "('a, 'b) room" and i m se
  show "durable_inv e enc0 v0 r \<Longrightarrow> durable_inv e enc0 v0 (endMember e se i m r)"
    by (auto simp: durable_inv_def endMember_def Let_def saves_def save_step_def)
next
  fix r :: "('a, 'b) room"
  show "durable_inv e enc0 v0 r \<Longrightarrow> durable_inv e enc0 v0 (releaseRoom r)"
    by (simp add: durable_inv_def releaseRoom_def Let_def saves_def save_step_def)
qed (simp_all add: durable_inv_def saves_snoc, simp_all add: saves_def save_step_def)

section \<open>A persisted answer is true\<close>

text \<open>
  Reading a trace from the left: whether every document update this process published has been
  followed by an accepted save, and whether every \<^verbatim>\<open>persisted\<close> answer so far was sent at such a
  moment.
\<close>

definition truth_step :: "bool \<times> bool \<Rightarrow> event \<Rightarrow> bool \<times> bool" where
  "truth_step st ev =
     (case ev of
        EvPublish eph f ok \<Rightarrow> if eph then st else (False, snd st)
      | EvSaveMetadata m ok \<Rightarrow> if ok then (True, snd st) else st
      | EvSend c f ok \<Rightarrow>
          (case f of
             FRaw b \<Rightarrow> st
           | FControl m \<Rightarrow> if Kind m = ControlPersisted then (fst st, snd st \<and> fst st) else st)
      | _ \<Rightarrow> st)"

definition truth_log :: "event list \<Rightarrow> bool \<times> bool" where
  "truth_log tr = foldl truth_step (True, True) tr"

definition truth_inv :: "('d, 'a) room \<Rightarrow> bool" where
  "truth_inv r \<longleftrightarrow> snd (truth_log (trace r)) \<and> (\<not> dirty r \<longrightarrow> fst (truth_log (trace r)))"

definition not_persisted :: "frame \<Rightarrow> bool" where
  "not_persisted f = (case f of FRaw b \<Rightarrow> True | FControl m \<Rightarrow> Kind m \<noteq> ControlPersisted)"

lemma truth_log_append [simp]: "truth_log (tr @ evs) = foldl truth_step (truth_log tr) evs"
  by (simp add: truth_log_def)

lemma truth_neutral: "neutral ev \<or> alarm_event ev \<or> ev \<in> {EvConnOpened, EvConnClosed, EvCloseDone} \<Longrightarrow> truth_step st ev = st"
  by (cases ev) (auto simp: truth_step_def)

lemma truth_inv_log:
  "neutral ev \<or> alarm_event ev \<or> ev \<in> {EvConnOpened, EvConnClosed, EvCloseDone} \<Longrightarrow> truth_inv (log_ev ev r) = truth_inv r"
  by (simp add: truth_inv_def truth_neutral)

lemma truth_send: "not_persisted f \<Longrightarrow> truth_step st (EvSend c f ok) = st"
  by (auto simp: truth_step_def not_persisted_def split: frame.splits)

lemma truth_inv_deregister: "truth_inv (deregister i m r) = truth_inv r"
  by (simp add: deregister_def Let_def truth_inv_def truth_neutral)

interpretation truth: cascade not_persisted "\<lambda>r s. truth_inv r \<longrightarrow> truth_inv s"
  by unfold_locales
    (auto simp: not_persisted_def truth_inv_log truth_inv_deregister, auto simp: truth_inv_def truth_step_def not_persisted_def split: frame.splits)

interpretation truth_dirty: cascade not_persisted "\<lambda>r s. truth_inv r \<and> dirty r \<longrightarrow> truth_inv s \<and> dirty s"
  by unfold_locales
    (auto simp: not_persisted_def truth_inv_log truth_inv_deregister deregister_def Let_def,
      auto simp: truth_inv_def truth_step_def not_persisted_def split: frame.splits)

lemma applyUpdate_truth:
  assumes inv: "truth_inv r" and ap: "applyUpdate e u org r = (res, r')"
  shows "truth_inv r'"
proof -
  have live: "truth_inv r'" if "applyLive e u org q = (res, r')" "truth_inv q" for q
    using that(1) truth_dirty.cascade_axioms
  proof (rule applyLive_cases)
    fix d ev ok
    assume a: "truth_inv (observed ev (q\<lparr>doc := d\<rparr>)) \<and> dirty (observed ev (q\<lparr>doc := d\<rparr>)) \<longrightarrow> truth_inv r' \<and> dirty r'"
      "ev = None \<longrightarrow> r' = q\<lparr>doc := d\<rparr>"
    then show ?thesis using that(2) by (cases ev) (auto simp: truth_inv_def)
  next
    fix s :: "('a, 'b) room" and f ok
    show "truth_inv s \<and> dirty s \<longrightarrow>
        truth_inv (log_ev (EvPublish False f ok) s) \<and> dirty (log_ev (EvPublish False f ok) s)"
      by (simp add: truth_inv_def truth_step_def)
  qed
  show ?thesis
    using ap by (cases rule: applyUpdate_cases) (use inv live in \<open>auto simp: truth_inv_def\<close>)
qed

interpretation truth_run: room_inv not_persisted truth_inv e for e :: "('d, 'a) env"
proof unfold_locales
  fix r r' :: "('d, 'a) room" and u org res
  show "truth_inv r \<Longrightarrow> applyUpdate e u org r = (Some res, r') \<Longrightarrow> truth_inv r'"
    by (rule applyUpdate_truth)
next
  fix r r' :: "('d, 'a) room" and u org
  assume "truth_inv r" "applyUpdate e u org r = (None, r')"
  then have "truth_inv r'" by (rule applyUpdate_truth)
  then show "truth_inv (r'\<lparr>shadow := None, lc := stateDraining\<rparr>)" by (simp add: truth_inv_def)
next
  fix r :: "('d, 'a) room" and i m se
  have "not_persisted (FControl (end_control se))" by (simp add: not_persisted_def)
  then show "truth_inv r \<Longrightarrow> truth_inv (endMember e se i m r)"
    by (simp add: endMember_def Let_def truth_inv_def truth_send truth_neutral)
next
  fix r :: "('d, 'a) room"
  show "truth_inv r \<Longrightarrow> truth_inv (releaseRoom r)"
    by (simp add: releaseRoom_def Let_def truth_inv_def truth_neutral)
next
  fix r :: "('d, 'a) room" and rid cn ok
  show "truth_inv r \<Longrightarrow> \<not> dirty r \<Longrightarrow> truth_inv (log_ev (EvSend cn (FControl (persisted_control rid)) ok) r)"
    by (simp add: truth_inv_def truth_step_def persisted_control_def)
next
  fix r :: "('d, 'a) room" and s v ok md
  show "truth_inv r \<Longrightarrow> truth_inv (log_ev (EvSaveCheckpoint s v ok) r)"
    "truth_inv r \<Longrightarrow> truth_inv (log_ev (EvSaveMetadata md False) (log_ev (EvSaveCheckpoint s v True) r))"
    "truth_inv r \<Longrightarrow> truth_inv ((log_ev (EvSaveMetadata (snapshot_meta r) True) (log_ev (EvSaveCheckpoint s v True) r))
       \<lparr>version := version r + 1, dirty := False\<rparr>)"
    by (simp_all add: truth_inv_def truth_step_def)
qed (simp_all add: not_persisted_def truth_inv_log, simp_all add: truth_inv_def truth_neutral)

text \<open>Every document update published in a trace is followed by an accepted metadata save.\<close>

definition saved_after :: "event list \<Rightarrow> bool" where
  "saved_after tr \<longleftrightarrow>
     (\<forall>a f ok b. tr = a @ EvPublish False f ok # b \<longrightarrow> (\<exists>m. EvSaveMetadata m True \<in> set b))"

lemma saved_after_snoc:
  "saved_after (tr @ [x]) \<longleftrightarrow>
     (\<forall>f ok. x \<noteq> EvPublish False f ok) \<and> ((\<exists>m. x = EvSaveMetadata m True) \<or> saved_after tr)"
  (is "_ = ?rhs")
proof
  assume l: "saved_after (tr @ [x])"
  have "x \<noteq> EvPublish False f ok" for f ok
    using l unfolding saved_after_def by (metis empty_iff empty_set)
  moreover have "saved_after tr" if "\<nexists>m. x = EvSaveMetadata m True"
    unfolding saved_after_def
  proof (intro allI impI)
    fix a f ok b assume "tr = a @ EvPublish False f ok # b"
    then have "tr @ [x] = a @ EvPublish False f ok # (b @ [x])" by simp
    with l obtain m where "EvSaveMetadata m True \<in> set (b @ [x])" unfolding saved_after_def by blast
    with that show "\<exists>m. EvSaveMetadata m True \<in> set b" by auto
  qed
  ultimately show ?rhs by blast
next
  assume r: ?rhs
  show "saved_after (tr @ [x])"
    unfolding saved_after_def
  proof (intro allI impI)
    fix a f ok b assume eq: "tr @ [x] = a @ EvPublish False f ok # b"
    show "\<exists>m. EvSaveMetadata m True \<in> set b"
    proof (cases b rule: rev_cases)
      case Nil
      with eq r show ?thesis by auto
    next
      case (snoc b' y)
      with eq have "tr = a @ EvPublish False f ok # b'" "x = y" by (metis append_Cons append_assoc butlast_snoc, simp)
      with r snoc show ?thesis unfolding saved_after_def by fastforce
    qed
  qed
qed

lemma truth_log_clean: "fst (truth_log tr) = saved_after tr"
proof (induction tr rule: rev_induct)
  case Nil
  then show ?case by (simp add: truth_log_def saved_after_def)
next
  case (snoc x tr)
  then show ?case
    by (cases x) (auto simp: saved_after_snoc truth_step_def split: frame.splits)
qed

lemma truth_step_snd: "snd (foldl truth_step st evs) \<Longrightarrow> snd st"
proof (induction evs arbitrary: st)
  case (Cons ev evs)
  then have "snd (truth_step st ev)" by simp
  then show ?case by (cases ev) (auto simp: truth_step_def split: if_splits frame.splits)
qed simp

lemma truth_log_persisted:
  assumes "snd (truth_log (pre @ EvSend c (FControl (persisted_control rid)) ok # post))"
  shows "saved_after pre"
proof -
  have "snd (truth_step (truth_log pre) (EvSend c (FControl (persisted_control rid)) ok))"
    using assms by (simp add: truth_step_snd)
  then show ?thesis by (simp add: truth_step_def persisted_control_def truth_log_clean)
qed

end
