(* ===== verification/Sample.thy ===== *)
theory Sample
  imports RoomLoop
begin

text \<open>
  A concrete environment for evaluating the model: a document is the byte string of everything
  applied to it, an update containing 255 does not decode, a document containing 254 has a value
  in its \<^verbatim>\<open>files\<close> map that is not a string, and every port call succeeds. Frames are a type byte, for
  sync messages a second byte with the sync type, and the body.
\<close>

definition sample_apply :: "bytes \<Rightarrow> bytes \<Rightarrow> bytes \<times> bytes option \<times> bool" where
  "sample_apply d u =
     (if 255 \<in> set u then (d, None, False) else if u = [] then (d, None, True) else (d @ u, Some u, True))"

definition sample_inspect :: "bytes \<Rightarrow> messageInfo option" where
  "sample_inspect f =
     (case f of
        t # st # body \<Rightarrow>
          Some \<lparr>infoType = unat t,
            infoSyncType = (if st = 0 then SyncMessageStep1 else if st = 1 then SyncMessageStep2
                            else if st = 2 then SyncMessageUpdate else SyncOther (unat st)),
            infoBody = body, infoBodyLength = int (length body), infoFrameLength = int (length f)\<rparr>
      | _ \<Rightarrow> None)"

definition sample_env :: "(bytes, nat list) env" where
  "sample_env = \<lparr>
     apply_update = sample_apply,
     apply_update_v2 = sample_apply,
     encode_v2 = Some,
     state_vector_v2 = (\<lambda>s. Some [of_nat (length s)]),
     new_doc = (\<lambda>_. []),
     get_map = (\<lambda>_ d. d),
     get_xml_fragment = (\<lambda>_ d. d),
     files_of = (\<lambda>d. if 254 \<in> set d then [(''f'', YOther)] else []),
     images_of = (\<lambda>_. []),
     canonicalEmptyUpdateV1 = [],
     read_message = (\<lambda>f. case f of [] \<Rightarrow> None | t # p \<Rightarrow> Some (unat t, p)),
     write_message = (\<lambda>t p. of_nat t # p),
     inspect_message = sample_inspect,
     encode_sync_step1 = (\<lambda>d. [0, 0]),
     encode_sync_step2 = (\<lambda>d sv. Some (0 # 1 # d)),
     encode_update = (\<lambda>u. 0 # 2 # u),
     unmarshal_request_id = (\<lambda>p. if p = [] then None else Some ''r1''),
     new_awareness = (\<lambda>_. []),
     clear_local_state = (\<lambda>_. []),
     apply_awareness = (\<lambda>a b. (map unat b @ a, True)),
     remove_awareness_states = (\<lambda>a k. filter (\<lambda>x. x \<noteq> k) a),
     awareness_states = (\<lambda>a. a),
     encode_awareness = (\<lambda>a ks. map of_nat ks),
     encode_awareness_message = (\<lambda>b. Some (1 # b)),
     decode_awareness_id = (\<lambda>b. case b of [] \<Rightarrow> None | x # _ \<Rightarrow> Some (unat x)),
     send_ok = (\<lambda>_ _. True),
     publish_ok = (\<lambda>_. True),
     save_checkpoint_ok = (\<lambda>_. True),
     save_metadata_ok = (\<lambda>_. True),
     contribution_ok = (\<lambda>_. True),
     flight_ok = (\<lambda>_. True),
     range_order = (\<lambda>_ ks. ks),
     clock = (\<lambda>n. 1000 * int n)\<rparr>"

definition sample_meta :: Metadata where
  "sample_meta = emptyMetadata\<lparr>metaID := ''doc'', metaContentType := ContentTypeWhiteboard, metaVersion := 7\<rparr>"

text \<open>A whiteboard room that was restored from the stored bytes 1, 2.\<close>

definition sample_room :: "(bytes, nat list) room" where
  "sample_room =
     \<lparr>docId = ''doc'', content = ContentTypeWhiteboard, doc = [1, 2], shadow = Some [1, 2], awareness = [],
      cfg = DefaultRoomConfig, members = [], nextID = 0, awarenessOwners = Map.empty, dirty = False, docBytes = 2,
      flushFailures = 0, undurableSince = None, version = 7, policyID = '''', ownerRef = '''', bucketID = '''',
      isMultiUser = None, maxConns = 50, contributors = {}, docUpdates = 0, contributionFlight = None, flights = 0,
      lc = stateActive, doneClosed = False, saveTimer = None, idleTimer = None, trace = []\<rparr>"

lemmas sample_defs = sample_env_def sample_room_def sample_apply_def sample_inspect_def

lemma sample_newRoom:
  "newRoom sample_env ''doc'' ContentTypeMemo DefaultRoomConfig (Inr sample_meta) (Inr [1, 2]) AcqOpened True = Inr sample_room"
  by (simp add: newRoom_def attachRoom_def loadMetadata_def emptyRoom_def sample_meta_def emptyMetadata_def openDoc_def restoreInto_def
      sample_defs applyConvention_def validateContent_def initShadow_def rebuildShadow_def cloneDoc_def activate_def
      lc_transition_def compareAndSwap_def DefaultRoomConfig_def defaultBackendTimeout_def DefaultLimits_def)

text \<open>Two collaborators and a viewer have joined and are active.\<close>

definition sample_member :: "conn_id \<Rightarrow> collaboratorMode \<Rightarrow> roomMember" where
  "sample_member i md = \<lparr>mid = i, conn = 100 + i, actorID = Some (10 + i), mode = md, pending = False,
     bucket = newTokenBucket 0 0 0, awarenessID = 0, hasAwareness = False, durabilityPoisoned = False, barrier = ''''\<rparr>"

definition sample_busy :: "(bytes, nat list) room" where
  "sample_busy = sample_room\<lparr>members := [(1, sample_member 1 ModeCollaborator), (2, sample_member 2 ModeCollaborator),
      (3, sample_member 3 ModeViewer)], nextID := 3, trace := [EvConnOpened, EvConnOpened, EvConnOpened]\<rparr>"

lemma sample_env_simps [simp]:
  "apply_update sample_env = sample_apply" "apply_update_v2 sample_env = sample_apply" "encode_v2 sample_env = Some"
  "state_vector_v2 sample_env = (\<lambda>s. Some [of_nat (length s)])" "new_doc sample_env = (\<lambda>_. [])"
  "files_of sample_env = (\<lambda>d. if 254 \<in> set d then [(''f'', YOther)] else [])" "images_of sample_env = (\<lambda>_. [])"
  "send_ok sample_env = (\<lambda>_ _. True)" "publish_ok sample_env = (\<lambda>_. True)" "save_checkpoint_ok sample_env = (\<lambda>_. True)"
  "save_metadata_ok sample_env = (\<lambda>_. True)" "range_order sample_env = (\<lambda>_ ks. ks)"
  "contribution_ok sample_env = (\<lambda>_. True)" "flight_ok sample_env = (\<lambda>_. True)" "clock sample_env = (\<lambda>n. 1000 * int n)"
  "encode_update sample_env = (\<lambda>u. 0 # 2 # u)" "inspect_message sample_env = sample_inspect"
  "unmarshal_request_id sample_env = (\<lambda>p. if p = [] then None else Some ''r1'')"
  "canonicalEmptyUpdateV1 sample_env = []"
  by (simp_all add: sample_env_def)

lemma sample_room_simps [simp]:
  "members sample_room = []" "lc sample_room = stateActive" "doc sample_room = [1, 2]" "shadow sample_room = Some [1, 2]"
  "trace sample_room = []" "content sample_room = ContentTypeWhiteboard" "dirty sample_room = False" "nextID sample_room = 0"
  "cfg sample_room = DefaultRoomConfig" "docId sample_room = ''doc''" "version sample_room = 7" "docUpdates sample_room = 0"
  "doneClosed sample_room = False" "flushFailures sample_room = 0" "undurableSince sample_room = None" "maxConns sample_room = 50"
  "isMultiUser sample_room = None" "awarenessOwners sample_room = Map.empty" "awareness sample_room = []"
  by (simp_all add: sample_room_def)

section \<open>Driving the loop\<close>

text \<open>The run loop on a list of events; it stops at the first event that ends it.\<close>

fun drive :: "('d, 'a) env \<Rightarrow> loop_event list \<Rightarrow> ('d, 'a) room \<Rightarrow> bool \<times> ('d, 'a) room" where
  "drive e [] r = (True, r)"
| "drive e (ev # evs) r =
     (if ready ev r
      then (case run_step e ev r of (True, r') \<Rightarrow> drive e evs r' | (False, r') \<Rightarrow> (False, r'))
      else drive e evs r)"

lemma drive_reach: "run_reach e r0 True r \<Longrightarrow> run_reach e r0 (fst (drive e evs r)) (snd (drive e evs r))"
proof (induction evs arbitrary: r)
  case (Cons ev evs)
  then show ?case
    by (auto split: prod.splits bool.splits dest: run_next)
qed simp

definition sample_join :: "loop_event list" where
  "sample_join = [LCommand (CmdJoin 101 (Some 11) ModeCollaborator None), LCommand (CmdActivate 1)]"

end
