(* ===== verification/RoomBarriers.thy ===== *)
theory RoomBarriers
  imports RoomContent Sample
begin

text \<open>
  Durability requests and flushes: every parked request is answered once, what an accepted and a
  failed save leave behind, escalation, retries and the idle release.
\<close>

section \<open>Answering parked requests\<close>

text \<open>The loop of \<^verbatim>\<open>resolveBarriers\<close> and \<^verbatim>\<open>failBarriers\<close>, over the message it sends.\<close>

definition settle ::
  "('d, 'a) env \<Rightarrow> (string \<Rightarrow> ControlMessage) \<Rightarrow> conn_id \<Rightarrow> roomMember \<Rightarrow> ('d, 'a) room \<Rightarrow> ('d, 'a) room" where
  "settle e msg i m s =
     (if barrier m = '''' then s
      else sendTo e i (FControl (msg (barrier m))) (put_member i (m\<lparr>barrier := ''''\<rparr>) s))"

lemma resolveBarriers_settle: "resolveBarriers e r = range_members e (settle e persisted_control) r"
proof -
  have "(\<lambda>cid m s. if barrier m = '''' then s
      else answerBarrier e cid (barrier m) (put_member cid (m\<lparr>barrier := ''''\<rparr>) s)) = settle e persisted_control"
    by (intro ext) (simp add: settle_def answerBarrier_def)
  then show ?thesis by (simp only: resolveBarriers_def)
qed

lemma failBarriers_settle:
  "failBarriers e reason r = range_members e (settle e (\<lambda>rid. persist_failed_control rid reason)) r"
proof -
  have "(\<lambda>cid m s. if barrier m = '''' then s
      else failBarrier e cid (barrier m) reason (put_member cid (m\<lparr>barrier := ''''\<rparr>) s)) =
      settle e (\<lambda>rid. persist_failed_control rid reason)"
    by (intro ext) (simp add: settle_def failBarrier_def)
  then show ?thesis by (simp only: failBarriers_def)
qed

definition clear_at :: "conn_id \<Rightarrow> ('d, 'a) room \<Rightarrow> bool" where
  "clear_at i s \<longleftrightarrow> (\<forall>m. member s i = Some m \<longrightarrow> barrier m = '''')"

lemmas sendTo_member = quiet_member [OF quiet.sendTo_R [OF TrueI]]

lemma settle_keeps_clear: "clear_at i s \<Longrightarrow> member s j = Some m \<Longrightarrow> clear_at i (settle e msg j m s)"
  by (auto simp: clear_at_def settle_def dest!: sendTo_member split: if_splits)

lemma settle_clears: "member s i = Some m \<Longrightarrow> clear_at i (settle e msg i m s)"
  by (auto simp: clear_at_def settle_def dest!: sendTo_member split: if_splits)

lemma range_keeps_clear: "clear_at i r \<Longrightarrow> clear_at i (range_loop (settle e msg) is r)"
  by (rule range_loop_inv [where P = "clear_at i", OF settle_keeps_clear])

lemma range_settle_clears: "i \<in> set is \<Longrightarrow> clear_at i (range_loop (settle e msg) is r)"
proof (induction "is" arbitrary: r)
  case (Cons j "is")
  show ?case
  proof (cases "i \<in> set is")
    case True
    then show ?thesis using Cons.IH by (simp split: option.splits)
  next
    case False
    then have "j = i" using Cons.prems by simp
    moreover have "member r i = None \<Longrightarrow> clear_at i r" by (simp add: clear_at_def)
    ultimately show ?thesis by (auto simp: range_keeps_clear settle_clears split: option.splits)
  qed
qed simp

lemma ranges_all_set: "ranges_all e \<Longrightarrow> set (range_order e n ks) = set ks"
  by (metis ranges_all_def set_mset_mset)

lemma range_members_clears: "ranges_all e \<Longrightarrow> clear_at i (range_members e (settle e msg) r)"
proof (cases "i \<in> set (keys (members r))")
  case False
  then have "clear_at i r" by (auto simp: clear_at_def dest: map_of_Some_keys)
  then show ?thesis by (simp add: range_members_def range_keeps_clear)
qed (simp add: range_members_def range_settle_clears ranges_all_set)

lemma barriers_cleared:
  "ranges_all e \<Longrightarrow> clear_at i (resolveBarriers e r)" "ranges_all e \<Longrightarrow> clear_at i (failBarriers e reason r)"
  by (simp_all only: resolveBarriers_settle failBarriers_settle range_members_clears)

section \<open>Exactly one answer each\<close>



definition all_sends_ok :: "('d, 'a) env \<Rightarrow> bool" where
  "all_sends_ok e \<longleftrightarrow> (\<forall>n c. send_ok e n c)"

lemma sendTo_ok:
  "all_sends_ok e \<Longrightarrow> member r i = Some m \<Longrightarrow> sendTo e i f r = log_ev (EvSend (conn m) f True) r"
  by (simp add: sendTo_def sendMember_def sendMember_with_def all_sends_ok_def)



section \<open>Frames of the flush\<close>

lemma releaseRoom_frame [simp]:
  "doc (releaseRoom r) = doc r" "dirty (releaseRoom r) = dirty r" "version (releaseRoom r) = version r"
  "flushFailures (releaseRoom r) = flushFailures r" "members (releaseRoom r) = members r" "cfg (releaseRoom r) = cfg r"
  by (simp_all add: releaseRoom_def Let_def)

lemma teardown_nil_frame [simp]:
  "doc (teardown e code (\<lambda>s. s) r) = doc r" "dirty (teardown e code (\<lambda>s. s) r) = dirty r"
  "version (teardown e code (\<lambda>s. s) r) = version r" "flushFailures (teardown e code (\<lambda>s. s) r) = flushFailures r"
  "cfg (teardown e code (\<lambda>s. s) r) = cfg r"
  by (auto simp: teardown_def teardown_body_def destroyShadow_def Let_def split: prod.splits bool.splits)

lemma onFlushFailed_frame [simp]:
  "doc (onFlushFailed e r) = doc r" "dirty (onFlushFailed e r) = dirty r" "version (onFlushFailed e r) = version r"
  "flushFailures (onFlushFailed e r) = Suc (flushFailures r)" "cfg (onFlushFailed e r) = cfg r"
  by (simp_all add: onFlushFailed_def escalateUndurable_def Let_def)

lemma onFlushSucceeded_frame [simp]:
  "doc (onFlushSucceeded r) = doc r" "dirty (onFlushSucceeded r) = dirty r" "version (onFlushSucceeded r) = version r"
  "flushFailures (onFlushSucceeded r) = 0" "members (onFlushSucceeded r) = members r" "lc (onFlushSucceeded r) = lc r"
  "cfg (onFlushSucceeded r) = cfg r"
  by (simp_all add: onFlushSucceeded_def)

lemma clear_at_quiet: "quiet r s \<Longrightarrow> clear_at i r \<Longrightarrow> clear_at i s"
  using quiet_member [of r s] by (auto simp: clear_at_def)

lemma clear_at_same [simp]:
  "clear_at i (log_ev ev r) = clear_at i r" "clear_at i (onFlushSucceeded r) = clear_at i r"
  by (simp_all add: clear_at_def)

lemma persist_saved:
  assumes "dirty r" "encode_v2 e (doc r) = Some s" "state_vector_v2 e s = Some v"
    "save_checkpoint_ok e (tick r)" "save_metadata_ok e (Suc (tick r))"
  shows "persist e r = persist_accepted e (log_ev (EvSaveMetadata (snapshot_meta r) True)
      (log_ev (EvSaveCheckpoint s v True) (r\<lparr>docBytes := int (length s)\<rparr>)))"
  using assms by (simp add: persist_def Let_def snapshot_meta_def)

lemma persist_not_saved:
  assumes "dirty r" "encode_v2 e (doc r) = Some s" "state_vector_v2 e s = Some v"
    "\<not> (save_checkpoint_ok e (tick r) \<and> save_metadata_ok e (Suc (tick r)))"
  shows "\<exists>evs. persist e r = onFlushFailed e (r\<lparr>docBytes := int (length s), trace := trace r @ evs\<rparr>) \<and>
    (evs = [EvSaveCheckpoint s v False] \<or> evs = [EvSaveCheckpoint s v True, EvSaveMetadata (snapshot_meta r) False])"
  using assms by (auto simp: persist_def Let_def snapshot_meta_def log_ev_def)

section \<open>Properties\<close>


definition sample_parked :: "(bytes, nat list) room" where
  "sample_parked = sample_busy\<lparr>members := [(1, (sample_member 1 ModeCollaborator)\<lparr>barrier := ''r1''\<rparr>),
      (2, sample_member 2 ModeCollaborator), (3, sample_member 3 ModeViewer)]\<rparr>"

lemma sample_parked_wf: "members_wf sample_parked"
  by (simp add: members_wf_def sample_parked_def sample_busy_def sample_member_def opened_def closed_conns_def
      activeMemberCount_def)


text \<open>
  An accepted save. When both stores accept, the room writes exactly one checkpoint of its
  whole document and one metadata row with the next version, is clean afterwards, forgets earlier
  failures, keeps serving the same document, and leaves no request parked.
\<close>

theorem persist_accepted_outcome:
  assumes "dirty r" and "encode_v2 e (doc r) = Some s" and "state_vector_v2 e s = Some v"
    and "save_checkpoint_ok e (tick r)" and "save_metadata_ok e (Suc (tick r))" and "ranges_all e"
  shows "\<not> dirty (persist e r) \<and> doc (persist e r) = doc r \<and> version (persist e r) = version r + 1 \<and>
    flushFailures (persist e r) = 0 \<and> lc (persist e r) = lc r \<and> clear_at i (persist e r) \<and>
    prefix (trace r @ [EvSaveCheckpoint s v True, EvSaveMetadata (snapshot_meta r) True]) (trace (persist e r)) \<and>
    metaVersion (snapshot_meta r) = version r + 1"
proof -
  define q where "q = log_ev (EvSaveMetadata (snapshot_meta r) True)
      (log_ev (EvSaveCheckpoint s v True) (r\<lparr>docBytes := int (length s)\<rparr>))"
  define a where "a = resolveBarriers e (q\<lparr>version := version q + 1, dirty := False\<rparr>)"
  define b where "b = log_ev EvSnapshotSaved (onFlushSucceeded a)"
  have p: "persist e r = broadcastControl e ((control ControlSaved)\<lparr>Version := version b\<rparr>) b"
    using persist_saved [OF assms(1-5)] unfolding q_def a_def b_def by (simp only: persist_accepted_def Let_def)
  have "clear_at i b" using barriers_cleared(1) [OF assms(6)] by (simp add: b_def a_def)
  then have clear: "clear_at i (persist e r)"
    unfolding p by (rule clear_at_quiet [OF quiet.broadcastControl_R [OF TrueI]])
  have "prefix (trace q) (trace a)"
    using calm_tame [OF resolveBarriers_calm, of "q\<lparr>version := version q + 1, dirty := False\<rparr>" e]
    unfolding a_def by (simp add: tame_def)
  moreover have "prefix (trace a) (trace b)" by (simp add: b_def onFlushSucceeded_def)
  moreover have "prefix (trace b) (trace (persist e r))"
    using tame.broadcastControl_R [OF TrueI, of b e] unfolding p tame_def by blast
  ultimately have "prefix (trace q) (trace (persist e r))" by (meson prefix_order.trans)
  moreover have "trace q = trace r @ [EvSaveCheckpoint s v True, EvSaveMetadata (snapshot_meta r) True]"
    by (simp add: q_def)
  moreover have "\<not> dirty (persist e r)" "doc (persist e r) = doc r" "version (persist e r) = version r + 1"
    "flushFailures (persist e r) = 0" "lc (persist e r) = lc r"
    unfolding p by (simp_all add: b_def a_def q_def)
  ultimately show ?thesis using clear by (simp add: snapshot_meta_def)
qed

definition sample_dirty :: "(bytes, nat list) room" where
  "sample_dirty = sample_parked\<lparr>dirty := True, flushFailures := 2, doc := [1, 2, 9], shadow := Some [1, 2, 9]\<rparr>"

theorem persist_accepted_outcome_witness:
  "\<not> dirty (persist sample_env sample_dirty) \<and> version (persist sample_env sample_dirty) = 8 \<and>
     flushFailures (persist sample_env sample_dirty) = 0 \<and> clear_at 1 (persist sample_env sample_dirty)"
  using persist_accepted_outcome [of sample_dirty sample_env "[1, 2, 9]" "[3]" 1]
  by (simp add: sample_dirty_def sample_parked_def sample_busy_def ranges_all_def)

text \<open>The room a failed flush has counted, failed the barriers of and reported.\<close>

definition undurable_marked :: "('d, 'a) env \<Rightarrow> ('d, 'a) room \<Rightarrow> ('d, 'a) room" where
  "undurable_marked e r =
     (let r1 = r\<lparr>flushFailures := Suc (flushFailures r)\<rparr>
      in if undurableSince r1 = None then r1\<lparr>undurableSince := Some (clock e (tick r1))\<rparr> else r1)"

definition flush_counted :: "('d, 'a) env \<Rightarrow> ('d, 'a) room \<Rightarrow> ('d, 'a) room" where
  "flush_counted e r =
     (let r2 = undurable_marked e r; r4 = log_ev EvSnapshotFailed (failBarriers e notPersistedReason r2)
      in log_ev (EvUndurable (flushFailures r4) (undurableFor e r2)) r4)"

lemma undurable_marked_frame [simp]:
  "cfg (undurable_marked e r) = cfg r" "lc (undurable_marked e r) = lc r"
  "flushFailures (undurable_marked e r) = Suc (flushFailures r)" "members_wf (undurable_marked e r) = members_wf r"
  by (simp_all add: undurable_marked_def Let_def)

lemma flush_counted_frame [simp]:
  "cfg (flush_counted e r) = cfg r" "lc (flush_counted e r) = lc r" "flushFailures (flush_counted e r) = Suc (flushFailures r)"
  by (simp_all add: flush_counted_def Let_def)

lemma onFlushFailed_split:
  "onFlushFailed e r =
     (if int (Suc (flushFailures r)) < flushThreshold r
      then broadcastControl e (save_error_control ReasonNotYetDurable ''recent edits are not yet saved; retrying'') (flush_counted e r)
      else escalateUndurable e (undurableFor e (undurable_marked e r)) (flush_counted e r))"
proof -
  have "onFlushFailed e r =
     (if int (flushFailures (flush_counted e r)) < flushThreshold (flush_counted e r)
      then broadcastControl e (save_error_control ReasonNotYetDurable ''recent edits are not yet saved; retrying'') (flush_counted e r)
      else escalateUndurable e (undurableFor e (undurable_marked e r)) (flush_counted e r))"
    by (simp only: onFlushFailed_def flush_counted_def undurable_marked_def Let_def)
  moreover have "flushThreshold (flush_counted e r) = flushThreshold r" by (simp add: flushThreshold_def)
  ultimately show ?thesis by (simp only: flush_counted_frame)
qed

lemma flush_counted_clear: "ranges_all e \<Longrightarrow> clear_at i (flush_counted e r)"
  by (simp add: flush_counted_def Let_def barriers_cleared)

lemma flush_counted_wf: "members_wf r \<Longrightarrow> members_wf (flush_counted e r)"
  by (simp add: flush_counted_def Let_def members_wf_log wf_run.I_failBarriers)

lemma onFlushFailed_below:
  assumes "int (Suc (flushFailures r)) < flushThreshold r"
  shows "lc (onFlushFailed e r) = lc r" and "ranges_all e \<Longrightarrow> clear_at i (onFlushFailed e r)"
  using assms clear_at_quiet [OF quiet.broadcastControl_R [OF TrueI] flush_counted_clear]
  by (simp_all add: onFlushFailed_split)

lemma onFlushFailed_at:
  assumes "\<not> int (Suc (flushFailures r)) < flushThreshold r" "ranges_all e" "members_wf r" "lc r = stateActive"
  shows "torn_down (onFlushFailed e r)"
  unfolding onFlushFailed_split escalateUndurable_def if_not_P [OF assms(1)]
  by (rule teardown_torn_down) (use assms in \<open>simp_all add: members_wf_log flush_counted_wf\<close>)

lemma persist_failed_outcome_facts:
  assumes "dirty r" and "encode_v2 e (doc r) = Some s" and "state_vector_v2 e s = Some v"
    and "\<not> (save_checkpoint_ok e (tick r) \<and> save_metadata_ok e (Suc (tick r)))"
    and "ranges_all e" and "members_wf r" and "lc r = stateActive"
  shows "dirty (persist e r) \<and> doc (persist e r) = doc r \<and> version (persist e r) = version r \<and>
    flushFailures (persist e r) = Suc (flushFailures r) \<and>
    (if int (Suc (flushFailures r)) < flushThreshold r
     then lc (persist e r) = stateActive \<and> clear_at i (persist e r)
     else torn_down (persist e r))"
proof -
  obtain evs where p: "persist e r = onFlushFailed e (r\<lparr>docBytes := int (length s), trace := trace r @ evs\<rparr>)"
      (is "_ = onFlushFailed e ?q")
    and evs: "evs = [EvSaveCheckpoint s v False] \<or> evs = [EvSaveCheckpoint s v True, EvSaveMetadata (snapshot_meta r) False]"
    using persist_not_saved [OF assms(1-4)] by blast
  have q: "flushThreshold ?q = flushThreshold r" "flushFailures ?q = flushFailures r" "lc ?q = stateActive"
    using assms(7) by (simp_all add: flushThreshold_def)
  have "members_wf ?q" using assms(6) evs
    by (auto simp: members_wf_def opened_def closed_conns_def activeMemberCount_def)
  then show ?thesis
    unfolding p using onFlushFailed_below(1) [of ?q e] onFlushFailed_below(2) [of ?q e i] onFlushFailed_at [of ?q e] q assms(1,5) by auto
qed

text \<open>
  C23: a failed save loses nothing silently. When either store refuses, the document, its unsaved
  mark and its version are kept, the failure is counted, and below the threshold the room keeps
  serving with no request left parked; at the threshold the room is torn down, every member gone
  and the room released.
\<close>

theorem persist_failed_outcome:
  assumes "dirty r" and "encode_v2 e (doc r) = Some s" and "state_vector_v2 e s = Some v"
    and "\<not> (save_checkpoint_ok e (tick r) \<and> save_metadata_ok e (Suc (tick r)))"
    and "ranges_all e" and "members_wf r" and "lc r = stateActive"
  shows "dirty (persist e r) \<and> doc (persist e r) = doc r \<and> version (persist e r) = version r \<and>
    flushFailures (persist e r) = Suc (flushFailures r) \<and>
    (if int (Suc (flushFailures r)) < flushThreshold r
     then lc (persist e r) = stateActive \<and> clear_at i (persist e r)
     else torn_down (persist e r))"
  using persist_failed_outcome_facts [OF assms] .

definition failing_env :: "(bytes, nat list) env" where
  "failing_env = sample_env\<lparr>save_metadata_ok := (\<lambda>_. False)\<rparr>"

theorem persist_failed_outcome_witness:
  "dirty (persist failing_env sample_dirty) \<and> flushFailures (persist failing_env sample_dirty) = 3 \<and>
     lc (persist failing_env sample_dirty) = stateActive \<and> clear_at 1 (persist failing_env sample_dirty)"
proof -
  have wf: "members_wf sample_dirty" using sample_parked_wf by (simp add: sample_dirty_def)
  show ?thesis
    using persist_failed_outcome [of sample_dirty failing_env "[1, 2, 9]" "[3]" 1] wf
    by (simp add: sample_dirty_def sample_parked_def sample_busy_def ranges_all_def failing_env_def flushThreshold_def
        DefaultRoomConfig_def DefaultLimits_def defaultFlushFailureThreshold_def)
qed

definition may_vouch :: "roomMember \<Rightarrow> bool \<Rightarrow> bool" where
  "may_vouch m sessionDropped \<longleftrightarrow>
     \<not> durabilityPoisoned m \<and> \<not> sessionDropped \<and> mode m = ModeCollaborator \<and> barrier m = ''''"

text \<open>
  C21: the outcome of a durability request. A well-formed request from a member is either answered
  at once, with a frame that carries its id, or parked; it is parked exactly when the session may
  vouch for its edits (not poisoned, nothing dropped, a collaborator, nothing outstanding), the
  room has unsaved changes and a save will come; it is answered \<^verbatim>\<open>persisted\<close> exactly when the session
  may vouch and the room is clean.
\<close>

theorem durability_request_outcome:
  assumes "all_sends_ok e" and "member r i = Some m" and "unmarshal_request_id e p = Some rid" and "validRequestID rid"
  shows "let r' = snd (handleDurabilityRequest e i p dropped r) in
    (may_vouch m dropped \<and> dirty r \<and> 0 < SaveDebounce (cfg r) \<longrightarrow>
      trace r' = trace r \<and> member r' i = Some (m\<lparr>barrier := rid\<rparr>)) \<and>
    (may_vouch m dropped \<and> \<not> dirty r \<longrightarrow>
      trace r' = trace r @ [EvSend (conn m) (FControl (persisted_control rid)) True] \<and> members r' = members r) \<and>
    (\<not> may_vouch m dropped \<or> dirty r \<and> SaveDebounce (cfg r) \<le> 0 \<longrightarrow>
      (\<exists>reason. trace r' = trace r @ [EvSend (conn m) (FControl (persist_failed_control rid reason)) True]) \<and>
      members r' = members r)"
proof -
  have "rid \<noteq> ''''" using assms(4) by (auto simp: validRequestID_def)
  moreover have "failBarrier e i rid reason r = log_ev (EvSend (conn m) (FControl (persist_failed_control rid reason)) True) r"
    "answerBarrier e i rid r = log_ev (EvSend (conn m) (FControl (persisted_control rid)) True) r" for reason
    using sendTo_ok [OF assms(1,2)] by (simp_all add: failBarrier_def answerBarrier_def)
  ultimately show ?thesis
    using assms(2-4) unfolding may_vouch_def
    by (auto simp: handleDurabilityRequest_def durabilityRequestID_def Let_def)
qed

theorem durability_request_outcome_witness:
  "trace (snd (handleDurabilityRequest sample_env 2 [7] False sample_parked)) =
     trace sample_parked @ [EvSend 102 (FControl (persisted_control ''r1'')) True]"
  using durability_request_outcome [of sample_env sample_parked 2 "sample_member 2 ModeCollaborator" "[7]" "''r1''" False]
  by (simp add: sample_parked_def sample_busy_def sample_member_def all_sends_ok_def may_vouch_def Let_def validRequestID_def
      maxRequestIDLen_def id_char_def)

text \<open>
  Retries back off within bounds. After \<open>n\<close> consecutive failures the retry is armed with the
  save debounce doubled \<open>n - 1\<close> times, at most five times and at most half a minute; never sooner
  than the debounce unless that is beyond the cap, and later failures never retry sooner.
\<close>

theorem retry_backoff_bounds:
  assumes "0 < SaveDebounce (cfg r)" and "0 < flushFailures r"
  shows "min (SaveDebounce (cfg r)) maxFlushRetryBackoff \<le> retryBackoff r \<and>
    retryBackoff r \<le> maxFlushRetryBackoff \<and> retryBackoff r \<le> 32 * SaveDebounce (cfg r) \<and>
    retryBackoff r \<le> retryBackoff (r\<lparr>flushFailures := flushFailures r + k\<rparr>) \<and>
    (dirty r \<longrightarrow> saveTimer (armRetryTimer r) = Some (retryBackoff r))"
proof -
  let ?n = "nat (min (int (flushFailures r) - 1) flushRetryMaxShift)"
  let ?m = "nat (min (int (flushFailures r + k) - 1) flushRetryMaxShift)"
  define A where "A = SaveDebounce (cfg r) * 2 ^ ?n"
  define B where "B = SaveDebounce (cfg r) * 2 ^ ?m"
  have mono: "SaveDebounce (cfg r) * x \<le> SaveDebounce (cfg r) * y" if "x \<le> y" for x y
    using assms(1) that by (simp add: mult_left_mono)
  have "SaveDebounce (cfg r) * 1 \<le> A" unfolding A_def by (rule mono) simp
  moreover have "A \<le> SaveDebounce (cfg r) * 2 ^ 5"
    unfolding A_def by (intro mono power_increasing) (simp_all add: flushRetryMaxShift_def)
  moreover have "A \<le> B"
    unfolding A_def B_def by (intro mono power_increasing) (simp_all add: flushRetryMaxShift_def)
  moreover have "retryBackoff r = min A maxFlushRetryBackoff"
    "retryBackoff (r\<lparr>flushFailures := flushFailures r + k\<rparr>) = min B maxFlushRetryBackoff"
    by (simp_all add: retryBackoff_def A_def B_def Let_def)
  moreover have "dirty r \<longrightarrow> saveTimer (armRetryTimer r) = Some (retryBackoff r)"
    using assms by (simp add: armRetryTimer_def)
  ultimately show ?thesis by (auto simp: min_def)
qed

theorem retry_backoff_bounds_witness:
  "retryBackoff sample_dirty = 4 * second \<and> retryBackoff sample_dirty \<le> maxFlushRetryBackoff"
proof -
  have "retryBackoff sample_dirty = 4 * second"
    by (simp add: retryBackoff_def sample_dirty_def sample_parked_def sample_busy_def DefaultRoomConfig_def
        flushRetryMaxShift_def maxFlushRetryBackoff_def)
  moreover have "retryBackoff sample_dirty \<le> maxFlushRetryBackoff"
    using retry_backoff_bounds [of sample_dirty 0]
    by (simp add: sample_dirty_def sample_parked_def sample_busy_def DefaultRoomConfig_def)
  ultimately show ?thesis by simp
qed

text \<open>
  An idle room is not released over unsaved edits while a retry can still save them. When the
  last member has left and the final save fails below the threshold, the run loop keeps the room:
  the edits stay, the save is retried and the idle timer is armed again.
\<close>

theorem idle_release_keeps_unsaved:
  assumes "members r = []" and "dirty r" and "encode_v2 e (doc r) = Some s" and "state_vector_v2 e s = Some v"
    and "\<not> (save_checkpoint_ok e (tick r) \<and> save_metadata_ok e (Suc (tick r)))"
    and "int (Suc (flushFailures r)) < flushThreshold r" and "0 < SaveDebounce (cfg r)" and "lc r = stateActive"
    and "ranges_all e" and "members_wf r"
  shows "case releaseIfEmpty e r of (stop, r') \<Rightarrow>
    \<not> stop \<and> dirty r' \<and> doc r' = doc r \<and> lc r' = stateActive \<and>
    saveTimer r' = Some (retryBackoff (persist e r)) \<and> idleTimer r' \<noteq> None"
proof -
  have p: "dirty (persist e r)" "doc (persist e r) = doc r" "flushFailures (persist e r) = Suc (flushFailures r)"
      "lc (persist e r) = stateActive"
    using persist_failed_outcome_facts [OF assms(2-5,9,10,8)] assms(6) by simp_all
  have "cfg (persist e r) = cfg r"
    using assms(2-5) by (auto simp: persist_def Let_def)
  with p assms(1,7) show ?thesis
    by (simp add: releaseIfEmpty_def Let_def armIdleTimer_def armRetryTimer_def)
qed

definition sample_idle :: "(bytes, nat list) room" where
  "sample_idle = sample_room\<lparr>dirty := True, doc := [1, 2, 9]\<rparr>"

theorem idle_release_keeps_unsaved_witness:
  "case releaseIfEmpty failing_env sample_idle of (stop, r') \<Rightarrow> \<not> stop \<and> dirty r' \<and> saveTimer r' = Some (2 * second)"
proof -
  have "retryBackoff (persist failing_env sample_idle) = 2 * second" by code_simp
  then show ?thesis
    using idle_release_keeps_unsaved [of sample_idle failing_env "[1, 2, 9]" "[3]"]
    by (auto simp: sample_idle_def failing_env_def flushThreshold_def DefaultRoomConfig_def DefaultLimits_def
        defaultFlushFailureThreshold_def ranges_all_def members_wf_def opened_def closed_conns_def activeMemberCount_def
        split: prod.splits)
qed

text \<open>
  C38: an encoding failure bypasses the retry machine. When the snapshot of an idle room cannot be
  encoded, \<^verbatim>\<open>persist\<close> neither counts the failure nor fails the parked requests, so a room without
  earlier failures is released at once and its unsaved edits are gone, where a refused save of the
  same room would have kept it.
\<close>

theorem idle_release_drops_unencodable:
  assumes "members r = []" and "dirty r" and "encode_v2 e (doc r) = None" and "flushFailures r = 0"
    and "lc r = stateActive" and "ranges_all e" and "members_wf r"
  shows "case releaseIfEmpty e r of (stop, r') \<Rightarrow> stop \<and> torn_down r' \<and> dirty r' \<and> version r' = version r"
proof -
  have wf: "members_wf (persist e r)" by (rule wf_run.I_persist [OF assms(7)])
  have p: "persist e r = encode_failed e r" using assms(2,3) by (simp add: persist_def)
  then have f: "lc (persist e r) = stateActive" "flushFailures (persist e r) = 0" "dirty (persist e r)"
    using assms by (simp_all add: encode_failed_def)
  have td: "torn_down (teardown e CodeServerShutdown (\<lambda>s. s) (persist e r))"
    by (rule teardown_torn_down [OF assms(6) wf f(1)]) simp
  have "version (persist e r) = version r" by (simp add: p encode_failed_def)
  with f td assms(1) show ?thesis by (simp add: releaseIfEmpty_def Let_def)
qed

theorem idle_release_drops_unencodable_witness:
  "case releaseIfEmpty (sample_env\<lparr>encode_v2 := (\<lambda>_. None)\<rparr>) sample_idle of
     (stop, r') \<Rightarrow> stop \<and> torn_down r' \<and> dirty r' \<and> version r' = 7"
  using idle_release_drops_unencodable [of sample_idle "sample_env\<lparr>encode_v2 := (\<lambda>_. None)\<rparr>"]
  by (auto simp: sample_idle_def ranges_all_def members_wf_def opened_def closed_conns_def activeMemberCount_def sample_room_def
      split: prod.splits)

end
