(* ===== verification/RoomTraffic.thy ===== *)
theory RoomTraffic
  imports RoomContent Sample
begin

text \<open>
  What members and peers can do to a room: read-only sessions, relaying, the size budget, joining,
  rejected content.
\<close>

section \<open>Document updates published to peers\<close>

definition doc_publish :: "event \<Rightarrow> bool" where
  "doc_publish ev \<longleftrightarrow> (\<exists>f ok. ev = EvPublish False f ok)"

abbreviation published :: "('d, 'a) room \<Rightarrow> event list" where
  "published r \<equiv> filter doc_publish (trace r)"

lemma doc_publish_simps [simp]:
  "\<not> doc_publish (EvSend c f ok)" "\<not> doc_publish EvFanoutPublished" "\<not> doc_publish EvFanoutFailed"
  "\<not> doc_publish EvConnClosed" "\<not> doc_publish EvConnOpened" "\<not> doc_publish (EvCloseAfterDrain c se)" "doc_publish (EvPublish eph f ok) \<longleftrightarrow> \<not> eph"
  by (auto simp: doc_publish_def)

interpretation pub: cascade "\<lambda>_. True" "\<lambda>r s. published s = published r"
  by unfold_locales (auto simp: deregister_def Let_def)

lemma applyLive_published_peer:
  "applyLive e u org r = (res, r') \<Longrightarrow> peer org \<Longrightarrow> published r' = published r"
  by (erule applyLive_cases [OF _ pub.cascade_axioms]) (auto simp: observed_def split: option.splits)

lemma applyUpdate_published_peer:
  "applyUpdate e u org r = (res, r') \<Longrightarrow> peer org \<Longrightarrow> published r' = published r"
  by (erule applyUpdate_cases) (auto dest: applyLive_published_peer)

lemma applyLive_published_local:
  assumes "applyLive e u org r = (res, r')" "\<not> peer org"
  shows "\<exists>ok. published r' = published r @
    (case fst (snd (apply_update e (doc r) u)) of None \<Rightarrow> [] | Some v \<Rightarrow> [EvPublish False (FRaw v) ok])"
proof -
  have b: "published (broadcast e f i q) = published q" for f i and q :: "('a, 'b) room"
    by (rule pub.broadcast_R [OF TrueI])
  show ?thesis
    using assms
    by (auto simp: applyLive_def onDocUpdate_def publishToPeers_def Let_def b split: option.splits if_splits prod.splits)
qed

lemma pub_fanout [simp]:
  "published (sendTo e i f r) = published r" "published (broadcast e f i r) = published r"
  "published (broadcastControl e msg r) = published r" "published (dropIt e i r) = published r"
  "published (relay e b i r) = published r"
  using pub.sendTo_R [OF TrueI] pub.broadcast_R [OF TrueI] pub.broadcastControl_R [OF TrueI] pub.dropMember_R
    pub.R_trans [OF pub.broadcast_R [OF TrueI] pub.publish_R]
  by (simp_all add: relay_def)

lemma pub_barriers [simp]:
  "published (failBarrier e i rid reason r) = published r" "published (answerBarrier e i rid r) = published r"
  "published (poisonDurability i r) = published r" "published (failMemberBarrier e i reason r) = published r"
  "published (snd (handleDurabilityRequest e i p d r)) = published r" "published (snd (allowRate e i r)) = published r"
  by (auto simp: failBarrier_def answerBarrier_def poisonDurability_def failMemberBarrier_def handleDurabilityRequest_def
      allowRate_def Let_def split: option.splits prod.splits)

lemma pub_disconnect [simp]: "published (disconnect e i c r) = published r"
  by (cases "member r i") (simp_all add: disconnect_absent disconnect_split Let_def)

section \<open>Disconnecting\<close>

lemma dropMember_gone: "member (dropIt e i r) i = None"
proof (cases "member r i")
  case (Some m)
  have "quiet (deregister i m r) (dropIt e i r)"
    using Some by (subst dropMember_unfolded) (simp add: quiet.evictAwareness_R)
  then show ?thesis using quiet_member [of "deregister i m r" "dropIt e i r" i] by (cases "member (dropIt e i r) i") auto
qed (subst dropMember_unfolded, simp)

lemma disconnect_gone: "member (disconnect e i c r) i = None"
proof (cases "member r i")
  case (Some m)
  then show ?thesis
    using quiet_member [OF quiet.broadcastControl_R [OF TrueI]] dropMember_gone
    unfolding disconnect_split [OF Some] Let_def by (metis option.exhaust)
qed (simp add: disconnect_absent)

lemma disconnect_announces:
  assumes "member r i = Some m"
  shows "\<exists>ok. sublist [EvSend (conn m) (FControl (end_control (session_end c))) ok, EvCloseAfterDrain (conn m) (session_end c)]
    (trace (disconnect e i c r))"
proof -
  let ?ok = "send_ok e (tick r) (conn m)"
  let ?r2 = "log_ev (EvCloseAfterDrain (conn m) (session_end c))
    (log_ev (EvSend (conn m) (FControl (end_control (session_end c))) ?ok) r)"
  have "tame ?r2 (disconnect e i c r)"
    unfolding disconnect_split [OF assms] Let_def
    by (intro tame_trans [OF tame.dropMember_R tame.broadcastControl_R [OF TrueI]])
  then obtain tl where "trace (disconnect e i c r) = trace r @
      [EvSend (conn m) (FControl (end_control (session_end c))) ?ok, EvCloseAfterDrain (conn m) (session_end c)] @ tl"
    by (auto simp: tame_def prefix_def)
  then show ?thesis by (auto simp: sublist_def)
qed

section \<open>Read-only sessions\<close>

lemma viewer_sync:
  assumes "\<not> canMutate i r"
  shows "dispatchSync e f i (canMutate i r) r = (res, r1) \<Longrightarrow> r1 = r \<and> res \<noteq> SyncPanic"
  using assms by (auto simp: dispatchSync_def split: option.splits if_splits sync_type.splits)

lemma viewer_handleSync:
  assumes "\<not> canMutate i r" "handleSync e i p r = (res, r')"
  shows "res = Some False \<and> doc r' = doc r \<and> shadow r' = shadow r \<and> dirty r' = dirty r \<and> docUpdates r' = docUpdates r \<and>
    published r' = published r"
proof -
  obtain sr r1 where d: "dispatchSync e (write_message e WireSync p) i (canMutate i r) r = (sr, r1)" by fastforce
  have r1: "r1 = r" "sr \<noteq> SyncPanic" using viewer_sync [OF assms(1) d] by auto
  have na: "sr = SyncReturned oc rep \<Longrightarrow> \<not> applied oc" for oc rep
    using d assms(1) by (auto simp: dispatchSync_def noOutcome_def split: option.splits if_splits sync_type.splits)
  show ?thesis
    using assms(2) d r1 na
    by (cases sr) (auto simp: handleSync_def Let_def split: if_splits)
qed

lemma allowRate_canMutate: "canMutate i (snd (allowRate e i r)) = canMutate i r"
  by (auto simp: canMutate_def allowRate_def split: option.splits prod.splits)

lemma handleAwareness_frame:
  "doc (handleAwareness e i f r) = doc r" "shadow (handleAwareness e i f r) = shadow r"
  "dirty (handleAwareness e i f r) = dirty r" "docUpdates (handleAwareness e i f r) = docUpdates r"
  "published (handleAwareness e i f r) = published r"
  by (auto simp: handleAwareness_def trackAwarenessID_def Let_def split: option.splits prod.splits)

text \<open>
  C31: a read-only session cannot change a document. Whatever frame a member without the
  collaborator mode sends, and however it is rate limited, the document, its shadow, the unsaved
  mark and the stream of document updates to the peers are as before, the save timer is not armed
  and nothing panics.
\<close>

theorem viewer_cannot_mutate:
  assumes "member r i = Some m" and "mode m \<noteq> ModeCollaborator" and "handleMessage e i f dropped r = (res, r')"
  shows "res = Some False \<and> doc r' = doc r \<and> shadow r' = shadow r \<and> dirty r' = dirty r \<and> docUpdates r' = docUpdates r \<and>
    published r' = published r"
proof -
  obtain ok r1 where a: "allowRate e i r = (ok, r1)" by fastforce
  have f: "doc r1 = doc r" "shadow r1 = shadow r" "dirty r1 = dirty r" "docUpdates r1 = docUpdates r" "published r1 = published r"
    using calm_frame [OF allowRate_calm [of r e i]] pub_barriers(6) [of e i r] a by simp_all
  have nm: "\<not> canMutate i r1"
    using allowRate_canMutate [of i e r] a assms(1,2) by (simp add: canMutate_def)
  have dr: "fst (handleDurabilityRequest e i p dropped r1) = False" for p
    by (auto simp: handleDurabilityRequest_def Let_def split: option.splits)
  have dd: "handleDurabilityRequest e i p dropped r1 = (b, q) \<Longrightarrow> doc q = doc r1 \<and> shadow q = shadow r1 \<and> dirty q = dirty r1 \<and>
      docUpdates q = docUpdates r1 \<and> published q = published r1 \<and> \<not> b" for p b q
    using calm_frame [OF handleDurabilityRequest_calm [of r1 e i p dropped]] pub_barriers(5) [of e i p dropped r1] dr [of p] by simp
  show ?thesis
  proof (cases "ok \<and> read_message e f \<noteq> None")
    case True
    then obtain t p where rm: "read_message e f = Some (t, p)" by auto
    consider "t = WireSync" | "t = WireAwareness" | "t = WireEphemeral" | "t = WireDurabilityRequest"
      | "t \<notin> {WireSync, WireAwareness, WireEphemeral, WireDurabilityRequest}" by blast
    then show ?thesis
    proof cases
      case 1
      then have "handleSync e i p r1 = (res, r')" using assms True a rm by (simp add: handleMessage_def)
      then show ?thesis using viewer_handleSync [OF nm] f by metis
    next
      case 4
      then show ?thesis using assms True a rm dd [of p] f by (auto simp: handleMessage_def split: prod.splits)
    qed (use assms True a rm f in \<open>auto simp: handleMessage_def handleAwareness_frame\<close>)
  next
    case False
    then show ?thesis using assms a f by (cases ok) (auto simp: handleMessage_def split: option.splits)
  qed
qed

theorem viewer_cannot_mutate_witness:
  "case handleMessage sample_env 3 [0, 2, 5] False sample_busy of (res, r') \<Rightarrow>
     res = Some False \<and> doc r' = [1, 2] \<and> published r' = []"
proof -
  obtain res r' where h: "handleMessage sample_env 3 [0, 2, 5] False sample_busy = (res, r')" by fastforce
  show ?thesis
    using viewer_cannot_mutate [OF _ _ h, of "sample_member 3 ModeViewer"] h
    by (simp add: sample_busy_def sample_member_def)
qed

text \<open>
  A write attempted without the right ends the session, visibly. A member without the
  collaborator mode that sends a document update is no longer a member afterwards, so nothing it
  sends later is handled; and with no durability request outstanding it is told \<^verbatim>\<open>forbidden\<close> and
  closed right behind that message.
\<close>

theorem forbidden_write_disconnects:
  assumes "member r i = Some m" and "\<not> canMutate i r"
    and "inspect_message e (write_message e WireSync p) = Some info" and "infoType info = WireSync"
    and "infoSyncType info = SyncMessageUpdate"
  shows "member (snd (handleSync e i p r)) i = None \<and>
    (barrier m = [] \<longrightarrow>
      (\<exists>ok. sublist [EvSend (conn m) (FControl (end_control (session_end CodeForbidden))) ok,
         EvCloseAfterDrain (conn m) (session_end CodeForbidden)] (trace (snd (handleSync e i p r)))))"
proof -
  let ?q = "failMemberBarrier e i rejectedReason (poisonDurability i r)"
  have h: "snd (handleSync e i p r) = disconnect e i CodeForbidden ?q"
    using assms by (simp add: handleSync_def dispatchSync_def noOutcome_def Let_def)
  have "member ?q i = Some (m\<lparr>durabilityPoisoned := True\<rparr>)" if "barrier m = []"
    using assms(1) that by (auto simp: failMemberBarrier_def poisonDurability_def split: option.splits)
  then show ?thesis
    using h disconnect_gone disconnect_announces [of ?q i "m\<lparr>durabilityPoisoned := True\<rparr>" CodeForbidden e] by simp
qed

theorem forbidden_write_disconnects_witness:
  "member (snd (handleSync sample_env 3 [2, 5] sample_busy)) 3 = None \<and>
     (\<exists>ok. sublist [EvSend 103 (FControl (end_control (session_end CodeForbidden))) ok,
        EvCloseAfterDrain 103 (session_end CodeForbidden)] (trace (snd (handleSync sample_env 3 [2, 5] sample_busy))))"
  using forbidden_write_disconnects [of sample_busy 3 "sample_member 3 ModeViewer" sample_env "[2, 5]"]
  by (simp add: sample_busy_def sample_member_def canMutate_def sample_env_def sample_inspect_def)

section \<open>Relaying\<close>

text \<open>
  C33: peers never start an echo. A document update that came from another instance is fanned out to
  the local members but never published again; a local update that the guarded apply rejects is not
  published either; and one that it takes is published exactly once, as the update the observer saw.
\<close>

theorem updates_published_once:
  assumes "applyUpdate e u org r = (res, r')"
  shows "(peer org \<longrightarrow> published r' = published r) \<and>
    (res \<notin> {None, Some applyOK} \<longrightarrow> published r' = published r \<and> doc r' = doc r) \<and>
    (res = Some applyOK \<and> \<not> peer org \<longrightarrow>
      (\<exists>ok. published r' = published r @
         (case fst (snd (apply_update e (doc r) u)) of None \<Rightarrow> [] | Some v \<Rightarrow> [EvPublish False (FRaw v) ok])))"
proof (intro conjI impI)
  show "published r' = published r" if "peer org" using applyUpdate_published_peer [OF assms that] .
next
  assume res: "res \<notin> {None, Some applyOK}"
  have live: False if "applyLive e u org q = (res, r')" for q
    using that by (rule applyLive_doc) (use res in \<open>auto split: if_splits\<close>)
  have "published r' = published r \<and> doc r' = doc r"
    using assms
  proof (cases rule: applyUpdate_cases)
    case (unguarded n)
    then show ?thesis using live by blast
  next
    case (guarded n sh sh' x)
    then show ?thesis using live by blast
  qed (use res in auto)
  then show "published r' = published r" "doc r' = doc r" by simp_all
next
  assume ok: "res = Some applyOK \<and> \<not> peer org"
  show "\<exists>ok. published r' = published r @
      (case fst (snd (apply_update e (doc r) u)) of None \<Rightarrow> [] | Some v \<Rightarrow> [EvPublish False (FRaw v) ok])"
    using assms
  proof (cases rule: applyUpdate_cases)
    case (unguarded n)
    then show ?thesis using applyLive_published_local [OF unguarded(2)] ok by simp
  next
    case (guarded n sh sh' x)
    then show ?thesis using applyLive_published_local [OF guarded(4)] ok by simp
  qed (use ok in \<open>auto split: if_splits\<close>)
qed

theorem updates_published_once_witness:
  "published (snd (applyUpdate sample_env [5] \<lparr>src = 0, peer = True\<rparr> sample_busy)) = [] \<and>
   published (snd (applyUpdate sample_env [5] \<lparr>src = 1, peer = False\<rparr> sample_busy)) = [EvPublish False (FRaw [5]) True]"
proof -
  obtain res r' where h: "applyUpdate sample_env [5] \<lparr>src = 0, peer = True\<rparr> sample_busy = (res, r')" by fastforce
  have "published (snd (applyUpdate sample_env [5] \<lparr>src = 1, peer = False\<rparr> sample_busy)) = [EvPublish False (FRaw [5]) True]"
  proof -
    have "trace (snd (applyUpdate sample_env [5] \<lparr>src = 1, peer = False\<rparr> sample_busy)) = trace sample_busy @
        [EvSend 102 (FRaw [0, 2, 5]) True, EvSend 103 (FRaw [0, 2, 5]) True, EvPublish False (FRaw [5]) True, EvFanoutPublished]"
      by code_simp
    then show ?thesis by (simp add: sample_busy_def)
  qed
  then show ?thesis
    using updates_published_once [OF h] h by (simp add: sample_busy_def)
qed

lemma range_broadcast_trace:
  assumes "\<And>n c. send_ok e n c" "distinct is" "set is \<subseteq> set (keys (members r))"
  shows "range_loop (\<lambda>cid m r. if cid = x \<or> pending m then r else sendMember_with e (dropIt e) m f r) is r =
    r\<lparr>trace := trace r @ map (\<lambda>i. EvSend (conn (the (member r i))) f True)
       (filter (\<lambda>i. i \<noteq> x \<and> \<not> pending (the (member r i))) is)\<rparr>"
  using assms(2,3)
proof (induction "is" arbitrary: r)
  case (Cons i "is")
  obtain m where m: "member r i = Some m"
    using Cons.prems(2) by (cases "member r i") (auto simp: map_of_None_keys)
  have step: "(if i = x \<or> pending m then r else sendMember_with e (dropIt e) m f r) =
      r\<lparr>trace := trace r @ (if i = x \<or> pending m then [] else [EvSend (conn m) f True])\<rparr>"
    using assms(1) by (simp add: sendMember_with_def log_ev_def)
  show ?case using Cons m by (simp add: step)
qed simp

text \<open>
  A broadcast reaches every other active member exactly once and nobody else. With sockets that
  take the frame, the members are sent the frame once each, in the order the map yields them,
  except the source and those still waiting for activation; nothing else happens.
\<close>

theorem broadcast_reaches_others_once:
  assumes "\<And>n c. send_ok e n c" and "ranges_all e" and "members_wf r"
  shows "\<exists>is. mset is = mset (keys (members r)) \<and>
    broadcast e f x r = r\<lparr>trace := trace r @ map (\<lambda>i. EvSend (conn (the (member r i))) f True)
       (filter (\<lambda>i. i \<noteq> x \<and> \<not> pending (the (member r i))) is)\<rparr>"
proof -
  let ?is = "range_order e (tick r) (keys (members r))"
  have ms: "mset ?is = mset (keys (members r))" using assms(2) by (simp add: ranges_all_def)
  then have d: "distinct ?is" "set ?is = set (keys (members r))"
    using assms(3) mset_eq_imp_distinct_iff mset_eq_setD unfolding members_wf_def by blast+
  then show ?thesis
    using ms range_broadcast_trace [OF assms(1) d(1)]
    by (intro exI [of _ ?is]) (simp add: broadcast_def broadcast_with_def range_members_def)
qed

theorem broadcast_reaches_others_once_witness:
  "\<exists>is. mset is = {#1, 2, 3#} \<and> trace (broadcast sample_env (FRaw [7]) 1 sample_busy) = trace sample_busy @
     map (\<lambda>i. EvSend (conn (the (member sample_busy i))) (FRaw [7]) True)
       (filter (\<lambda>i. i \<noteq> 1 \<and> \<not> pending (the (member sample_busy i))) is)"
proof -
  have "members_wf sample_busy"
    by (simp add: members_wf_def sample_busy_def sample_member_def opened_def closed_conns_def activeMemberCount_def)
  then obtain "is" where "mset is = mset (keys (members sample_busy))"
    "broadcast sample_env (FRaw [7]) 1 sample_busy = sample_busy\<lparr>trace := trace sample_busy @
       map (\<lambda>i. EvSend (conn (the (member sample_busy i))) (FRaw [7]) True)
       (filter (\<lambda>i. i \<noteq> 1 \<and> \<not> pending (the (member sample_busy i))) is)\<rparr>"
    using broadcast_reaches_others_once [of sample_env sample_busy "FRaw [7]" 1] by (auto simp: ranges_all_def)
  then show ?thesis by (intro exI [of _ "is"]) (simp add: sample_busy_def)
qed

section \<open>Joining\<close>

text \<open>
  What a join gives. An admitted session gets a connection id that was never used, is entered
  as waiting for activation and counted against the room's cap; the first frame it is handed is the
  admission, which says \<^verbatim>\<open>write\<close> exactly for collaborators; and until it is activated nobody is told and
  no other member, document or trace entry changes. A join is refused as full exactly when the cap
  is reached, and then the table is unchanged.
\<close>

theorem join_outcome:
  assumes "members_wf r" and "handleJoin e c ident requested multiUser r = (res, r')"
  shows "(case res of
      Inr (cid, frames) \<Rightarrow>
        cid = Suc (nextID r) \<and> member r cid = None \<and>
        (\<exists>m adm rest. member r' cid = Some m \<and> pending m \<and> conn m = c \<and> actorID m = ident \<and>
           frames = FControl adm # rest \<and> Kind adm = ControlAdmission \<and>
           (Mode adm = AdmissionWrite \<longleftrightarrow> mode m = ModeCollaborator)) \<and>
        (\<forall>j. j \<noteq> cid \<longrightarrow> member r' j = member r j) \<and>
        (0 < maxConns r \<longrightarrow> int (length (members r')) \<le> maxConns r)
    | Inl err \<Rightarrow> err = ErrRoomFull \<and> 0 < maxConns r \<and> maxConns r \<le> int (length (members r)) \<and> members r' = members r) \<and>
    doc r' = doc r \<and> trace r' = trace r \<and> activeMemberCount r' = activeMemberCount r"
proof -
  obtain md reason r1 where c: "resolveJoinCapability ident requested multiUser r = ((md, reason), r1)"
    by (metis prod.collapse)
  have r1: "members r1 = members r" "nextID r1 = nextID r" "maxConns r1 = maxConns r" "doc r1 = doc r" "trace r1 = trace r"
    using c by (auto simp: resolveJoinCapability_def Let_def split: option.splits if_splits)
  have fresh: "member r (Suc (nextID r)) = None"
    using assms(1) unfolding members_wf_def by (metis Suc_n_not_le_n option.exhaust)
  show ?thesis
  proof (cases "maxConns r > 0 \<and> int (length (members r)) \<ge> maxConns r")
    case True
    then show ?thesis using assms(2) c r1 by (auto simp: handleJoin_def activeMemberCount_def)
  next
    case False
    then have full: "\<not> (maxConns r1 > 0 \<and> int (length (members r1)) \<ge> maxConns r1)" using r1 by simp
    show ?thesis
      using assms(2) c r1 fresh False
      by (cases md) (auto simp: handleJoin_def full Let_def initialJoinFrames_def admission_control_def update_absent
          activeMemberCount_def map_add_def split: option.splits)
  qed
qed

theorem join_outcome_witness:
  "case handleJoin sample_env 500 None ModeViewer None sample_busy of
     (Inr (cid, frames), r') \<Rightarrow> cid = 4 \<and> frames \<noteq> [] \<and> activeMemberCount r' = 3
   | _ \<Rightarrow> False"
proof -
  have wf: "members_wf sample_busy"
    by (simp add: members_wf_def sample_busy_def sample_member_def opened_def closed_conns_def activeMemberCount_def)
  obtain res r' where h: "handleJoin sample_env 500 None ModeViewer None sample_busy = (res, r')" by fastforce
  show ?thesis
    using join_outcome [OF wf h] h
    by (auto simp: sample_busy_def activeMemberCount_def sample_member_def split: sum.splits)
qed

text \<open>
  C34: the single-writer licence. When the document's licence forbids several writers, whether from
  the stored metadata or from the value the join carries, a session is admitted as a collaborator
  only if no member of the room is one; otherwise it is admitted read-only and told that several
  users are not allowed.
\<close>

theorem single_writer_licence:
  assumes "handleJoin e c ident requested multiUser r = (Inr (cid, frames), r')" and "members_wf r"
    and "(case multiUser of None \<Rightarrow> isMultiUser r | Some b \<Rightarrow> Some b) = Some False"
    and "member r' cid = Some m"
  shows "(mode m = ModeCollaborator \<longrightarrow> \<not> list_ex (\<lambda>(j, n). mode n = ModeCollaborator) (members r)) \<and>
    (requested = ModeCollaborator \<and> list_ex (\<lambda>(j, n). mode n = ModeCollaborator) (members r) \<longrightarrow>
      mode m = ModeViewer \<and> FControl ((control ControlReadOnlyState)
        \<lparr>ReadOnly := Some True, Reason := ReasonMultiUserNotAllowed\<rparr>) \<in> set frames)"
proof -
  obtain md reason r1 where c: "resolveJoinCapability ident requested multiUser r = ((md, reason), r1)"
    by (metis prod.collapse)
  have "members r1 = members r"
    using c by (auto simp: resolveJoinCapability_def Let_def split: option.splits if_splits)
  moreover have "if requested = ModeCollaborator \<and> list_ex (\<lambda>(j, n). mode n = ModeCollaborator) (members r)
      then md = ModeViewer \<and> reason = ReasonMultiUserNotAllowed else md = requested"
    using c assms(3) by (auto simp: resolveJoinCapability_def Let_def split: option.splits if_splits)
  ultimately show ?thesis
    using assms(1,4) c
    by (cases requested) (auto simp: handleJoin_def Let_def initialJoinFrames_def optional_frame_def split: if_splits)
qed

theorem single_writer_licence_witness:
  "case handleJoin sample_env 500 (Some 9) ModeCollaborator (Some False) sample_busy of
     (Inr (cid, frames), r') \<Rightarrow> mode (the (member r' cid)) = ModeViewer
   | _ \<Rightarrow> False"
proof -
  have wf: "members_wf sample_busy"
    by (simp add: members_wf_def sample_busy_def sample_member_def opened_def closed_conns_def activeMemberCount_def)
  obtain cid frames r' where h: "handleJoin sample_env 500 (Some 9) ModeCollaborator (Some False) sample_busy = (Inr (cid, frames), r')"
    by (simp add: handleJoin_def resolveJoinCapability_def sample_busy_def sample_member_def Let_def split: prod.splits)
  moreover obtain m where "member r' cid = Some m"
    using h by (auto simp: handleJoin_def Let_def split: prod.splits if_splits)
  ultimately show ?thesis
    using single_writer_licence [OF h wf, of m] by (simp add: sample_busy_def sample_member_def)
qed

section \<open>Rejected content\<close>



end
