(* ===== verification/RoomProperties.thy ===== *)
theory RoomProperties
  imports RoomBarriers RoomTraffic
begin

text \<open>
  The properties of a room: every statement is about the handlers and the run loop of the
  preceding theories, and every run starts from a room that \<open>newRoom\<close> opened.
\<close>

section \<open>Runs of a room\<close>

definition room_run ::
  "('d, 'a) env \<Rightarrow> 'd acquisition \<Rightarrow> ('d, 'a) room \<Rightarrow> bool \<Rightarrow> ('d, 'a) room \<Rightarrow> bool" where
  "room_run e acq r0 go r \<longleftrightarrow>
     (\<exists>did ct c loaded checkpoint. newRoom e did ct c loaded checkpoint acq True = Inr r0) \<and> run_reach e r0 go r"

lemma loadMetadata_frame:
  assumes "loadMetadata loaded r = (res, s)"
  shows "doc s = doc r" "shadow s = shadow r" "lc s = lc r" "members s = members r" "trace s = trace r"
    "dirty s = dirty r" "doneClosed s = doneClosed r" "nextID s = nextID r" "docId s = docId r" "docBytes s = docBytes r"
  using assms by (auto simp: loadMetadata_def split: sum.splits if_splits)

lemma openDoc_frame:
  assumes "openDoc e found checkpoint r = (res, s)"
  shows "\<exists>n. s = r\<lparr>docBytes := n\<rparr>"
  using assms by (auto simp: openDoc_def restoreInto_def Let_def split: sum.splits if_splits prod.splits option.splits
      intro: exI [of _ "docBytes r"])

lemma newRoom_cases:
  assumes "newRoom e did ct c loaded checkpoint acq subscribed = Inr r0"
  obtains found r1 r2 r3 d n where
    "loadMetadata loaded (emptyRoom e did ct c) = (Inr found, r1)" "r2 = r1\<lparr>docBytes := n\<rparr>"
    "acq = AcqLive d \<or> acq = AcqOpened \<and> openDoc e found checkpoint r1 = (Inr d, r2)"
    "initShadow e (r2\<lparr>doc := d\<rparr>) = Some r3"
    "r0 = r3\<lparr>docBytes := docBytes r0, awareness := awareness r0, lc := stateActive\<rparr>"
proof -
  obtain found r1 where l: "loadMetadata loaded (emptyRoom e did ct c) = (Inr found, r1)"
    using assms by (auto simp: newRoom_def attachRoom_def split: prod.splits sum.splits)
  obtain d r2 where o': "acq = AcqLive d \<and> r2 = r1 \<or> acq = AcqOpened \<and> openDoc e found checkpoint r1 = (Inr d, r2)"
    using assms l by (auto simp: newRoom_def attachRoom_def Let_def split: acquisition.splits prod.splits sum.splits)
  then have "\<exists>n. r2 = r1\<lparr>docBytes := n\<rparr>"
    by (auto dest: openDoc_frame intro: exI [of _ "docBytes r1"])
  then obtain n where n: "r2 = r1\<lparr>docBytes := n\<rparr>" ..
  obtain r3 where s: "initShadow e (r2\<lparr>doc := d\<rparr>) = Some r3"
    using assms l o' by (auto simp: newRoom_def attachRoom_def Let_def split: option.splits)
  have "lc r3 = stateMaterializing"
    using s n loadMetadata_frame(3) [OF l] by (auto simp: initShadow_def rebuildShadow_def emptyRoom_def Let_def split: if_splits)
  then have "r0 = r3\<lparr>docBytes := docBytes r0, awareness := awareness r0, lc := stateActive\<rparr>"
    using assms l o' s
    by (auto simp: newRoom_def attachRoom_def measureLiveDoc_def activate_def lc_transition_def compareAndSwap_def Let_def
        split: option.splits if_splits)
  with l n o' s that show thesis by blast
qed

lemma newRoom_start:
  assumes "newRoom e did ct c loaded checkpoint acq subscribed = Inr r0"
  shows "lc r0 = stateActive" "members r0 = []" "trace r0 = []" "\<not> dirty r0" "\<not> doneClosed r0"
proof -
  from assms obtain found r1 r2 r3 d n where l: "loadMetadata loaded (emptyRoom e did ct c) = (Inr found, r1)"
      and r2: "r2 = r1\<lparr>docBytes := n\<rparr>" and s: "initShadow e (r2\<lparr>doc := d\<rparr>) = Some r3"
      and r0: "r0 = r3\<lparr>docBytes := docBytes r0, awareness := awareness r0, lc := stateActive\<rparr>"
    by (rule newRoom_cases) blast
  have r3: "r3 = r2\<lparr>doc := d, shadow := shadow r3\<rparr>"
    using s by (auto simp: initShadow_def rebuildShadow_def split: if_splits)
  show "lc r0 = stateActive" by (subst r0) simp
  show "members r0 = []" "trace r0 = []" "\<not> dirty r0" "\<not> doneClosed r0"
    by (subst r0, subst r3, simp add: r2 loadMetadata_frame [OF l] emptyRoom_def Let_def)+
qed

lemma newRoom_failures:
  assumes "newRoom e did ct c loaded checkpoint acq subscribed = Inr r0"
  shows "flushFailures r0 = 0"
proof -
  from assms obtain found r1 r2 r3 d n where l: "loadMetadata loaded (emptyRoom e did ct c) = (Inr found, r1)"
      and r2: "r2 = r1\<lparr>docBytes := n\<rparr>" and s: "initShadow e (r2\<lparr>doc := d\<rparr>) = Some r3"
      and r0: "r0 = r3\<lparr>docBytes := docBytes r0, awareness := awareness r0, lc := stateActive\<rparr>"
    by (rule newRoom_cases) blast
  have "flushFailures r1 = 0"
    using l by (auto simp: loadMetadata_def emptyRoom_def Let_def split: sum.splits if_splits)
  then have "flushFailures r3 = 0"
    using s r2 by (auto simp: initShadow_def rebuildShadow_def split: if_splits)
  then show ?thesis by (subst r0) simp
qed

lemma newRoom_invs:
  assumes "newRoom e did ct c loaded checkpoint acq subscribed = Inr r0"
  shows "members_wf r0" "done_once r0" "truth_inv r0" "durable_inv e (encode_v2 e (doc r0)) (version r0) r0"
  using newRoom_start [OF assms]
  by (simp_all add: members_wf_def done_once_def truth_inv_def durable_inv_def activeMemberCount_def opened_def
      closed_conns_def done_closes_def truth_log_def saves_def)

lemma newRoom_schema:
  assumes "newRoom e did ct c loaded checkpoint acq subscribed = Inr r0" "crdt_faithful e sim"
    "acq = AcqOpened \<or> validateSchema e r0 (doc r0) = None"
  shows "schema_inv e sim r0"
proof -
  from assms(1) obtain found r1 r2 r3 d n where l: "loadMetadata loaded (emptyRoom e did ct c) = (Inr found, r1)"
      and r2: "r2 = r1\<lparr>docBytes := n\<rparr>"
      and ac: "acq = AcqLive d \<or> acq = AcqOpened \<and> openDoc e found checkpoint r1 = (Inr d, r2)"
      and s: "initShadow e (r2\<lparr>doc := d\<rparr>) = Some r3"
      and r0: "r0 = r3\<lparr>docBytes := docBytes r0, awareness := awareness r0, lc := stateActive\<rparr>"
    by (rule newRoom_cases) blast
  have f: "content r0 = content r2" "doc r0 = d" "shadow r0 = shadow r3"
    by (subst r0, use s in \<open>auto simp: initShadow_def rebuildShadow_def split: if_splits\<close>)+
  have sh: "(\<forall>x. shadow r3 = Some x \<longrightarrow> sim d x) \<and> (checked (content r2) \<longrightarrow> shadow r3 \<noteq> None)"
    using s crdt_clone [OF assms(2)] loadMetadata_frame(2) [OF l] r2
    by (auto simp: initShadow_def rebuildShadow_def checked_def emptyRoom_def Let_def split: if_splits)
  have "validateContent (content r2) (files_of e) (images_of e) d = None"
    using ac
  proof
    assume "acq = AcqLive d"
    then show ?thesis using assms(3) f by (simp add: validateSchema_def)
  next
    assume "acq = AcqOpened \<and> openDoc e found checkpoint r1 = (Inr d, r2)"
    then show ?thesis by (auto simp: openDoc_def Let_def split: prod.splits sum.splits option.splits)
  qed
  with f sh show ?thesis by (simp add: schema_inv_def content_ok_def)
qed

section \<open>A sample run\<close>

text \<open>
  One collaborator joins and is activated, edits the whiteboard, asks for durability, the save timer
  fires, and the service shuts down.
\<close>

definition sample_events :: "loop_event list" where
  "sample_events = sample_join @
     [LCommand (CmdMessage 1 [0, 2, 5] False), LCommand (CmdMessage 1 [4, 9] False), LSaveTimer, LCommand CmdClose]"

definition sample_saved :: "bool \<times> (bytes, nat list) room" where
  "sample_saved = drive sample_env (butlast sample_events) sample_room"

definition sample_closed :: "bool \<times> (bytes, nat list) room" where
  "sample_closed = drive sample_env sample_events sample_room"

lemma sample_promises: "ranges_all sample_env" "crdt_faithful sample_env (=)" "observer_complete sample_env"
  by (auto simp: ranges_all_def crdt_faithful_def observer_complete_def sample_apply_def split: if_splits)

lemma sample_runs:
  "room_run sample_env AcqOpened sample_room (fst sample_saved) (snd sample_saved)"
  "room_run sample_env AcqOpened sample_room (fst sample_closed) (snd sample_closed)"
  unfolding room_run_def sample_saved_def sample_closed_def
  using sample_newRoom drive_reach [OF run_start] by blast+

lemma sample_closed_eval: "\<not> fst sample_closed \<and> opened (trace (snd sample_closed)) = 1"
  by code_simp

lemma sample_saved_eval:
  "fst sample_saved \<and> \<not> dirty (snd sample_saved) \<and> saves (trace (snd sample_saved)) = [[1, 2, 5]] \<and>
     EvSend 101 (FControl (persisted_control ''r1'')) True \<in> set (trace (snd sample_saved))"
  by code_simp

lemma sample_saved_content:
  "content (snd sample_saved) = ContentTypeWhiteboard \<and> doc (snd sample_saved) = [1, 2, 5] \<and> version (snd sample_saved) = 8"
  by code_simp

lemma sample_clones: "cloneDoc sample_env d g \<noteq> None" if "255 \<notin> set d"
  using that by (simp add: cloneDoc_def sample_apply_def)

section \<open>Properties of every run\<close>

text \<open>
  C14: the connection gauge is balanced. At every point of every run the number of connections
  reported open exceeds the number reported closed by the number of active members; when the loop
  has ended the member table is empty, the room is closed and released, and every connection that
  was reported open has been reported closed.
\<close>

theorem connection_gauge:
  assumes "room_run e acq r0 go r" and "ranges_all e"
  shows "opened (trace r) = closed_conns (trace r) + activeMemberCount r \<and>
    (\<not> go \<longrightarrow> torn_down r \<and> opened (trace r) = closed_conns (trace r))"
proof -
  obtain did ct c loaded checkpoint where new: "newRoom e did ct c loaded checkpoint acq True = Inr r0"
      and run: "run_reach e r0 go r"
    using assms(1) by (auto simp: room_run_def)
  have "members_wf r" by (rule wf_run.run_reach_I [OF run newRoom_invs(1) [OF new] newRoom_start(1) [OF new]])
  then have gauge: "opened (trace r) = closed_conns (trace r) + activeMemberCount r" by (simp add: members_wf_def)
  moreover have "torn_down r" if "\<not> go"
    using run_reach_end run that assms(2) newRoom_invs(1) [OF new] newRoom_start(1) [OF new] by auto
  ultimately show ?thesis by (auto simp: torn_down_def activeMemberCount_def)
qed

theorem connection_gauge_witness:
  "torn_down (snd sample_closed) \<and> opened (trace (snd sample_closed)) = 1 \<and> closed_conns (trace (snd sample_closed)) = 1"
  using connection_gauge [OF sample_runs(2) sample_promises(1)] sample_closed_eval by simp

text \<open>
  A room is released once. In every run the channel that announces the release is closed at
  most once (closing it twice would crash the process), exactly when the lifecycle reaches its
  terminal state, and never while the loop is still serving.
\<close>

theorem released_once:
  assumes "room_run e acq r0 go r"
  shows "done_closes (trace r) \<le> 1 \<and> (done_closes (trace r) = 1 \<longleftrightarrow> lc r = stateClosed) \<and>
    (go \<longrightarrow> done_closes (trace r) = 0 \<and> lc r = stateActive)"
proof -
  obtain did ct c loaded checkpoint where new: "newRoom e did ct c loaded checkpoint acq True = Inr r0"
      and run: "run_reach e r0 go r"
    using assms by (auto simp: room_run_def)
  have inv: "done_once r"
    by (rule once_run.run_reach_I [OF run newRoom_invs(2) [OF new] newRoom_start(1) [OF new]])
  moreover have "lc r = stateActive" if "go"
    using run_reach_active [OF run newRoom_start(1) [OF new] that] .
  ultimately show ?thesis by (auto simp: done_once_def)
qed

theorem released_once_witness:
  "done_closes (trace (snd sample_saved)) = 0 \<and> lc (snd sample_saved) = stateActive"
  using released_once [OF sample_runs(1)] sample_saved_eval by simp

text \<open>
  C5: content that fails the locator rule never enters a served document. For every whiteboard and
  memo room that is serving, the authoritative document passes the content check and the shadow is
  in step with it, whatever local and peer updates arrived, given that the CRDT library treats a
  rebuilt document like its source.
\<close>

theorem served_content_valid:
  assumes "room_run e acq r0 True r" and "crdt_faithful e sim"
    and "acq = AcqOpened \<or> validateSchema e r0 (doc r0) = None"
    and "content r = ContentTypeWhiteboard \<or> content r = ContentTypeMemo"
  shows "validateSchema e r (doc r) = None \<and> (\<exists>sh. shadow r = Some sh \<and> sim (doc r) sh)"
proof -
  obtain did ct c loaded checkpoint where new: "newRoom e did ct c loaded checkpoint acq True = Inr r0"
      and run: "run_reach e r0 True r"
    using assms(1) by (auto simp: room_run_def)
  have "schema_inv e sim r"
    by (rule room_inv.run_reach_I [OF schema_room_inv [OF assms(2)] run
          newRoom_schema [OF new assms(2,3)] newRoom_start(1) [OF new]])
  moreover have "lc r = stateActive" using run_reach_active [OF run newRoom_start(1) [OF new]] by simp
  ultimately show ?thesis
    using assms(4) by (auto simp: schema_inv_def content_ok_def checked_def validateSchema_def)
qed

theorem served_content_valid_witness:
  "content (snd sample_saved) = ContentTypeWhiteboard \<and> doc (snd sample_saved) = [1, 2, 5] \<and>
     validateSchema sample_env (snd sample_saved) (doc (snd sample_saved)) = None"
  using served_content_valid [of sample_env AcqOpened sample_room "snd sample_saved" "(=)"] sample_runs(1) sample_promises(2)
    sample_saved_content sample_saved_eval by simp

text \<open>
  C18: the defensive panic is not reachable by traffic. In a serving room, no update of any member or
  peer makes the guarded apply panic as long as the document can be cloned: the shadow has already
  taken the same update, so the authoritative document takes it too.
\<close>

theorem guarded_apply_never_panics:
  assumes "room_run e acq r0 True r" and "crdt_faithful e sim"
    and "acq = AcqOpened \<or> validateSchema e r0 (doc r0) = None"
    and "cloneDoc e (doc r) (docId r) \<noteq> None"
  shows "fst (applyUpdate e u org r) \<noteq> None"
proof -
  obtain did ct c loaded checkpoint where new: "newRoom e did ct c loaded checkpoint acq True = Inr r0"
      and run: "run_reach e r0 True r"
    using assms(1) by (auto simp: room_run_def)
  have inv: "schema_inv e sim r"
    by (rule room_inv.run_reach_I [OF schema_room_inv [OF assms(2)] run
          newRoom_schema [OF new assms(2,3)] newRoom_start(1) [OF new]])
  have act: "lc r = stateActive" using run_reach_active [OF run newRoom_start(1) [OF new]] by simp
  obtain res r' where ap: "applyUpdate e u org r = (res, r')" by fastforce
  then have "res \<noteq> None"
  proof (cases rule: applyUpdate_cases)
    case (unguarded n)
    from unguarded(2) show ?thesis by (rule applyLive_doc) (simp add: unguarded(1))
  next
    case (guarded n sh sh' x)
    have sim: "sim (doc r) sh" using inv act guarded(1) by (simp add: schema_inv_def content_ok_def)
    from guarded(4) show ?thesis
    proof (rule applyLive_doc)
      fix d ev ok
      assume "apply_update e (doc (r\<lparr>docBytes := n, shadow := Some sh'\<rparr>)) u = (d, ev, ok)"
        and "res = (if \<not> ok \<and> shadow (r\<lparr>docBytes := n, shadow := Some sh'\<rparr>) \<noteq> None then None else Some applyOK)"
      then show ?thesis using crdt_apply [OF assms(2) sim _ guarded(2)] by auto
    qed
  qed (use assms(4) in auto)
  with ap show ?thesis by simp
qed

theorem guarded_apply_never_panics_witness:
  "fst (applyUpdate sample_env [254] \<lparr>src = 1, peer = False\<rparr> (snd sample_saved)) \<noteq> None"
  using guarded_apply_never_panics [of sample_env AcqOpened sample_room "snd sample_saved" "(=)" "[254]"] sample_runs(1)
    sample_promises(2) sample_saved_content sample_saved_eval by (simp add: sample_clones)

lemma clean_room_facts:
  assumes "room_run e acq r0 go r" and "observer_complete e"
  shows "(\<not> dirty r \<longrightarrow>
      encode_v2 e (doc r) = (if saves (trace r) = [] then encode_v2 e (doc r0) else Some (last (saves (trace r))))) \<and>
    version r = version r0 + int (length (saves (trace r)))"
proof -
  obtain did ct c loaded checkpoint where new: "newRoom e did ct c loaded checkpoint acq True = Inr r0"
      and run: "run_reach e r0 go r"
    using assms(1) by (auto simp: room_run_def)
  have "durable_inv e (encode_v2 e (doc r0)) (version r0) r"
    by (rule room_inv.run_reach_I [OF durable_room_inv [OF assms(2)] run newRoom_invs(4) [OF new] newRoom_start(1) [OF new]])
  then show ?thesis by (simp add: durable_inv_def)
qed

text \<open>
  C2: a clean room is durable. Whenever a room of any run has no unsaved changes, its document
  encodes to the last snapshot that both stores accepted, or to the state it was opened with when
  nothing was saved since; and its version is the opening version plus the number of accepted
  saves. The CRDT library is trusted to call the observer when the state changes.
\<close>

theorem clean_room_is_saved:
  assumes "room_run e acq r0 go r" and "observer_complete e"
  shows "(\<not> dirty r \<longrightarrow>
      encode_v2 e (doc r) = (if saves (trace r) = [] then encode_v2 e (doc r0) else Some (last (saves (trace r))))) \<and>
    version r = version r0 + int (length (saves (trace r)))"
  using clean_room_facts [OF assms] by blast

theorem clean_room_is_saved_witness:
  "\<not> dirty (snd sample_saved) \<and> encode_v2 sample_env (doc (snd sample_saved)) = Some [1, 2, 5] \<and>
     version (snd sample_saved) = version sample_room + 1"
  using clean_room_is_saved [OF sample_runs(1) sample_promises(3)] sample_saved_eval by simp

text \<open>
  C1: a \<^verbatim>\<open>persisted\<close> answer is never a lie. Wherever such an answer appears in the trace of a run,
  every document update this process published before it was followed, still before the answer, by
  a metadata save that succeeded.
\<close>


theorem persisted_is_true:
  assumes "room_run e acq r0 go r"
    and "trace r = pre @ EvSend c (FControl (persisted_control rid)) ok # post"
    and "pre = before @ EvPublish False update pok # between"
  shows "\<exists>m. EvSaveMetadata m True \<in> set between"
proof -
  obtain did ct c loaded checkpoint where new: "newRoom e did ct c loaded checkpoint acq True = Inr r0"
      and run: "run_reach e r0 go r"
    using assms(1) by (auto simp: room_run_def)
  have "truth_inv r"
    by (rule truth_run.run_reach_I [OF run newRoom_invs(3) [OF new] newRoom_start(1) [OF new]])
  then have "saved_after pre" using truth_log_persisted assms(2) unfolding truth_inv_def by metis
  with assms(3) show ?thesis unfolding saved_after_def by blast
qed

lemma sample_saved_trace:
  "trace (snd sample_saved) = [EvConnOpened, EvSend 101 (FControl ((control ControlRoomUserChange)\<lparr>Users := 1\<rparr>)) True] @
     EvPublish False (FRaw [5]) True #
     [EvFanoutPublished, EvSaveCheckpoint [1, 2, 5] [3] True, EvSaveMetadata (sample_meta\<lparr>metaVersion := 8\<rparr>) True] @
     EvSend 101 (FControl (persisted_control ''r1'')) True #
     [EvSnapshotSaved, EvSend 101 (FControl ((control ControlSaved)\<lparr>Version := 8\<rparr>)) True]"
  by code_simp

theorem persisted_is_true_witness:
  "\<exists>m. EvSaveMetadata m True \<in> set [EvFanoutPublished, EvSaveCheckpoint [1, 2, 5] [3] True,
       EvSaveMetadata (sample_meta\<lparr>metaVersion := 8\<rparr>) True]"
  by (rule persisted_is_true [OF sample_runs(1) sample_saved_trace [unfolded append_Cons [symmetric] append_assoc [symmetric]]]) simp

section \<open>Failures are bounded\<close>

text \<open>
  A predicate of a serving room: every handler keeps it, and so does a flush that leaves the room
  serving. It then holds in every state in which the loop keeps running.
\<close>

locale serving_inv = handler_inv okf I e for okf :: "frame \<Rightarrow> bool" and I :: "('d, 'a) room \<Rightarrow> bool" and e :: "('d, 'a) env" +
  assumes I_flush: "ranges_all e \<Longrightarrow> members_wf r \<Longrightarrow> lc r = stateActive \<Longrightarrow> lc (persist e r) = stateActive \<Longrightarrow>
    I r \<Longrightarrow> I (persist e r)"
begin

lemma run_step_serving:
  assumes "run_step e ev r = (True, r')" "ranges_all e" "members_wf r" "lc r = stateActive" "I r"
  shows "I r'"
proof (cases ev)
  case (LCommand cmd)
  obtain t rep r1 where d: "dispatch e cmd r = (t, rep, r1)" by (metis prod_cases3)
  with LCommand assms(1) have "t = KeepRunning" "r' = r1" by (auto simp: run_step_def split: turn.splits)
  with d assms(5) I_dispatch show ?thesis by blast
next
  case (LPeer p eph)
  obtain mut r1 where h: "handlePeer e p eph r = (mut, r1)" by fastforce
  with LPeer assms(1) obtain b where "mut = Some b" "r' = r1 \<or> r' = armSaveTimer r1"
    by (auto simp: run_step_def split: option.splits if_splits)
  moreover from this h assms(5) have "I r1" using I_handlePeer by blast
  ultimately show ?thesis using I_timers(1) by blast
next
  case LSaveTimer
  have b0: "I (r\<lparr>saveTimer := None\<rparr>)" using I_misc1(3) [OF assms(5)] .
  let ?p = "persist e (r\<lparr>saveTimer := None\<rparr>)"
  have "lc ?p = stateActive" "r' = armRetryTimer ?p"
    using LSaveTimer assms(1) by (auto simp: run_step_def Let_def split: if_splits)
  then show ?thesis
    using I_flush [OF assms(2), of "r\<lparr>saveTimer := None\<rparr>"] assms(3,4) b0 I_timers(3) by simp
next
  case LIdleTimer
  have b0: "I (r\<lparr>idleTimer := None\<rparr>)" using I_misc1(4) [OF assms(5)] .
  let ?p = "persist e (r\<lparr>idleTimer := None\<rparr>)"
  have "r' = r\<lparr>idleTimer := None\<rparr> \<or> lc ?p = stateActive \<and> r' = armIdleTimer (armRetryTimer ?p)"
    using LIdleTimer assms(1) by (auto simp: run_step_def releaseIfEmpty_def Let_def split: if_splits prod.splits)
  then show ?thesis
    using I_flush [OF assms(2), of "r\<lparr>idleTimer := None\<rparr>"] assms(3,4) b0 I_timers by auto
next
  case LContribTimer
  then show ?thesis using assms(1,5) I_contribution(1) by (auto simp: run_step_def)
qed

lemma run_reach_serving:
  assumes "run_reach e r0 go r" go "ranges_all e" "I r0" "members_wf r0" "lc r0 = stateActive"
  shows "I r"
  using assms
proof (induction rule: run_reach.induct)
  case (run_next q ev go q')
  have "members_wf q" "lc q = stateActive"
    using wf_run.run_reach_I [OF run_next(1)] run_reach_active [OF run_next(1)] run_next(8,9) by simp_all
  then show ?case using run_step_serving [of ev q q'] run_next by simp
qed

end

lemma applyUpdate_flush: "applyUpdate e u org r = (res, r') \<Longrightarrow> flushFailures r' = flushFailures r \<and> cfg r' = cfg r"
proof -
  have live: "flushFailures r' = flushFailures q \<and> cfg r' = cfg q" if "applyLive e u org q = (res, r')" for q
    using that quiet.cascade_axioms
    by (rule applyLive_cases) (auto simp: quiet_frame quiet_log observed_def split: option.splits)
  assume "applyUpdate e u org r = (res, r')"
  then show ?thesis by (cases rule: applyUpdate_cases) (auto dest: live)
qed

definition below_threshold :: "('d, 'a) room \<Rightarrow> bool" where
  "below_threshold r \<longleftrightarrow> int (flushFailures r) < flushThreshold r"

interpretation below: handler_inv "\<lambda>_. True" below_threshold e for e :: "('d, 'a) env"
proof unfold_locales
  fix r r' :: "('d, 'a) room" and u org res
  show "below_threshold r \<Longrightarrow> applyUpdate e u org r = (Some res, r') \<Longrightarrow> below_threshold r'"
    using applyUpdate_flush [of e u org r "Some res" r'] by (simp add: below_threshold_def flushThreshold_def)
next
  fix r :: "('d, 'a) room" and i m
  show "below_threshold r \<longrightarrow> below_threshold (deregister i m r)"
    by (simp add: below_threshold_def flushThreshold_def deregister_def Let_def)
qed (simp_all add: below_threshold_def flushThreshold_def)

lemma flushThreshold_pos: "0 < flushThreshold r"
  by (simp add: flushThreshold_def defaultFlushFailureThreshold_def Let_def)

lemma onFlushFailed_active_below:
  assumes "ranges_all e" "members_wf r" "lc r = stateActive" "lc (onFlushFailed e r) = stateActive"
  shows "below_threshold (onFlushFailed e r)"
proof -
  have "flushThreshold (onFlushFailed e r) = flushThreshold r" by (simp add: flushThreshold_def)
  moreover have "int (Suc (flushFailures r)) < flushThreshold r"
    using onFlushFailed_at [OF _ assms(1-3)] assms(4) by (force simp: torn_down_def)
  ultimately show ?thesis by (simp add: below_threshold_def)
qed

lemma persist_below:
  assumes "ranges_all e" "members_wf r" "lc r = stateActive" "lc (persist e r) = stateActive" "below_threshold r"
  shows "below_threshold (persist e r)"
proof (cases "\<not> dirty r \<or> encode_v2 e (doc r) = None \<or> state_vector_v2 e (the (encode_v2 e (doc r))) = None")
  case True
  then show ?thesis
    using assms(5) by (auto simp: persist_def encode_failed_def below_threshold_def flushThreshold_def Let_def split: option.splits)
next
  case False
  then obtain s v where d: "dirty r" and s: "encode_v2 e (doc r) = Some s" and v: "state_vector_v2 e s = Some v" by auto
  show ?thesis
  proof (cases "save_checkpoint_ok e (tick r) \<and> save_metadata_ok e (Suc (tick r))")
    case True
    then show ?thesis
      using persist_saved [OF d s v] flushThreshold_pos [of "persist e r"]
      by (simp add: below_threshold_def persist_accepted_def Let_def)
  next
    case False
    obtain evs where p: "persist e r = onFlushFailed e (r\<lparr>docBytes := int (length s), trace := trace r @ evs\<rparr>)"
      and evs: "evs = [EvSaveCheckpoint s v False] \<or> evs = [EvSaveCheckpoint s v True, EvSaveMetadata (snapshot_meta r) False]"
      using persist_not_saved [OF d s v False] by blast
    have "members_wf (r\<lparr>docBytes := int (length s), trace := trace r @ evs\<rparr>)"
      using assms(2) evs by (auto simp: members_wf_def opened_def closed_conns_def activeMemberCount_def)
    then show ?thesis
      using onFlushFailed_active_below [OF assms(1)] assms(3,4) unfolding p by simp
  qed
qed

interpretation below_run: serving_inv "\<lambda>_. True" below_threshold e for e :: "('d, 'a) env"
  by unfold_locales (rule persist_below)

text \<open>
  C36: unsaved edits do not pile up for ever. While a room is serving, the number of consecutive
  failed saves is below the configured threshold: the save that would reach it ends the room
  instead.
\<close>

theorem failures_below_threshold:
  assumes "room_run e acq r0 True r" and "ranges_all e"
  shows "int (flushFailures r) < flushThreshold r"
proof -
  obtain did ct c loaded checkpoint where new: "newRoom e did ct c loaded checkpoint acq True = Inr r0"
      and run: "run_reach e r0 True r"
    using assms(1) by (auto simp: room_run_def)
  have "below_threshold r0"
    using newRoom_failures [OF new] flushThreshold_pos [of r0] by (simp add: below_threshold_def)
  then show ?thesis
    using below_run.run_reach_serving [OF run TrueI assms(2)] newRoom_invs(1) [OF new] newRoom_start(1) [OF new]
    by (simp add: below_threshold_def)
qed

theorem failures_below_threshold_witness:
  "int (flushFailures (snd sample_saved)) < flushThreshold (snd sample_saved)"
  using failures_below_threshold [of sample_env AcqOpened sample_room "snd sample_saved"] sample_runs(1) sample_promises(1)
    sample_saved_eval by simp

section \<open>Ending a room\<close>




text \<open>
  C17: the drop cascade terminates. A failed send drops its member, which may broadcast the end of
  its presence, which may fail for further members: with more fuel than there are members the
  recursion gives one result, the one that satisfies the mutual recursion of the source.
\<close>

theorem drop_cascade_terminates:
  "dropMember e i r =
     (case member r i of None \<Rightarrow> (False, r) | Some m \<Rightarrow> (True, evictAwareness e m (deregister i m r))) \<and>
   (\<forall>n. length (members r) < n \<longrightarrow> dropMember_fuel e n i r = dropMember e i r)"
proof (intro conjI allI impI)
  fix n assume "length (members r) < n"
  then show "dropMember_fuel e n i r = dropMember e i r"
    unfolding dropMember_def by (intro dropMember_fuel_irrelevant) auto
qed (rule dropMember_unfolded)

theorem drop_cascade_terminates_witness:
  "dropMember_fuel sample_env 4 2 sample_busy = dropMember sample_env 2 sample_busy"
  using drop_cascade_terminates [of sample_env 2 sample_busy] by (simp add: sample_busy_def)

section \<open>Opening a room\<close>

text \<open>
  C24: a room is never opened empty over a document that exists. When the metadata cannot be read,
  or it names a document whose stored state cannot be read or does not apply, or whose content the
  locator rule refuses, materialization fails; an absent checkpoint of a known document and an
  unknown document open empty, and a stored state that applies is the document the room serves.
\<close>

theorem open_preserves_stored_state:
  assumes "newRoom e did ct c loaded checkpoint AcqOpened True = res"
    and "content_type =
      (case loaded of Inr meta \<Rightarrow> if metaContentType meta \<noteq> '''' then metaContentType meta else ct | Inl _ \<Rightarrow> ct)"
  shows "(case loaded of
      Inl err \<Rightarrow> if err = ErrNotFound
        then (\<forall>r0. res = Inr r0 \<longrightarrow> doc r0 = applyConvention e content_type (new_doc e did))
        else res = Inl (MetadataError err)
    | Inr meta \<Rightarrow>
        (case checkpoint of
           Inl err \<Rightarrow> if err = ErrNotFound
             then (\<forall>r0. res = Inr r0 \<longrightarrow> doc r0 = applyConvention e content_type (new_doc e did))
             else res = Inl (StoredStateError err)
         | Inr stored \<Rightarrow>
             (case apply_update_v2 e (new_doc e did) stored of (d, ev, ok) \<Rightarrow>
                if ok then (\<forall>r0. res = Inr r0 \<longrightarrow> doc r0 = applyConvention e content_type d \<and>
                   validateContent content_type (files_of e) (images_of e) (doc r0) = None)
                else res = Inl ApplyStoredError)))"
  using assms
  by (auto simp: newRoom_def attachRoom_def loadMetadata_def openDoc_def restoreInto_def initShadow_def rebuildShadow_def emptyRoom_def Let_def
      split: sum.splits option.splits prod.splits if_splits)

theorem open_preserves_stored_state_witness:
  "doc sample_room = applyConvention sample_env ContentTypeWhiteboard [1, 2] \<and>
     validateContent ContentTypeWhiteboard (files_of sample_env) (images_of sample_env) (doc sample_room) = None"
  using open_preserves_stored_state [OF sample_newRoom refl]
  by (simp add: sample_meta_def sample_apply_def)

end
