(* ===== verification/ManagerSystem.thy ===== *)
theory ManagerSystem
  imports Manager RoomProperties
begin

text \<open>
  The manager with its callers and rooms as one transition system. A thread is a call of \<^verbatim>\<open>Join\<close>, a
  call of \<^verbatim>\<open>CloseDeleted\<close>, the call of \<^verbatim>\<open>Close\<close>, or the run loop of a room; a step is what a thread does
  between two points at which another can run: one critical section, one channel operation, one
  backend call. Answers of the backends and the choices of \<^verbatim>\<open>select\<close> are arguments of the actions,
  so every interleaving and every sequence of answers is a sequence of actions.

  \<^verbatim>\<open>singleflight.Group\<close> is used as documented: at most one execution per key is in flight; a caller that
  finds one waits for it and receives its result.
\<close>

section \<open>Threads and rooms\<close>

datatype caller = NoCaller | JoinCaller nat nat | DeleteCaller nat

datatype phase = NotStarted | Running | Ended | Gone

record ('d, 'a) hosted =
  hid :: document_id
  hroom :: "('d, 'a) room"
  queue :: "(command \<times> caller) list"
  phase :: phase

datatype join_pc =
    Authorizing
  | Gating
  | Requiring
  | Acquiring
  | Leading
  | Following nat
  | Materializing
  | Built room_ref
  | Opening room_ref
  | Got "mgr_error + room_ref"
  | Enqueueing room_ref
  | Selecting room_ref
  | Awaiting room_ref
  | JoinFailed mgr_error
  | Joined room_ref conn_id "frame list"

record join =
  joinID :: document_id
  joinContent :: string
  joinIdentity :: identity
  joinConn :: conn_ref
  joinMode :: collaboratorMode
  joinEpoch :: "64 word"
  joinMultiUser :: "bool option"
  attempt :: nat
  pc :: join_pc

datatype delete_error = CloseContextEnded | CloseUnavailable

datatype delete_pc =
    Marking int
  | Found room_ref
  | DelSelecting room_ref
  | DelAwaiting room_ref
  | Returned "delete_error option"

record deletion =
  delID :: document_id
  delPC :: delete_pc

text \<open>The history names the moments the theorems are about; no step reads it.\<close>

datatype sys_event =
    HAuthorized nat
  | HCaptured nat
  | HExists nat
  | HMaterialize nat
  | HRegistered nat document_id room_ref
  | HRoomOpened room_ref
  | HRoomClosed room_ref
  | HAcquired nat room_ref
  | HAdmitted nat room_ref
  | HDeleted nat document_id "room_ref option"

record ('d, 'a) sys =
  man :: manager
  heap :: "room_ref \<Rightarrow> ('d, 'a) hosted option"
  nextRef :: room_ref
  joins :: "nat \<Rightarrow> join option"
  deletions :: "nat \<Rightarrow> deletion option"
  flightOf :: "document_id \<Rightarrow> nat option"
  answers :: "caller \<Rightarrow> reply option"
  timers :: "(document_id \<times> int) list"
  now :: int
  draining :: "room_ref list option"
  unsignalled :: "room_ref list"
  closeDeadline :: int
  closeOutcome :: "bool option"
  hist :: "sys_event list"

definition initial_sys :: "roomConfig \<Rightarrow> int \<Rightarrow> ('d, 'a) sys" where
  "initial_sys c t =
     \<lparr>man = NewManager c, heap = (\<lambda>_. None), nextRef = 0, joins = (\<lambda>_. None), deletions = (\<lambda>_. None),
      flightOf = (\<lambda>_. None), answers = (\<lambda>_. None), timers = [], now = t, draining = None, unsignalled = [],
      closeDeadline = 0, closeOutcome = None, hist = []\<rparr>"

definition put_join :: "nat \<Rightarrow> join \<Rightarrow> ('d, 'a) sys \<Rightarrow> ('d, 'a) sys" where
  "put_join j t s = s\<lparr>joins := (joins s)(j := Some t)\<rparr>"

definition put_deletion :: "nat \<Rightarrow> deletion \<Rightarrow> ('d, 'a) sys \<Rightarrow> ('d, 'a) sys" where
  "put_deletion d t s = s\<lparr>deletions := (deletions s)(d := Some t)\<rparr>"

definition put_hosted :: "room_ref \<Rightarrow> ('d, 'a) hosted \<Rightarrow> ('d, 'a) sys \<Rightarrow> ('d, 'a) sys" where
  "put_hosted ref h s = s\<lparr>heap := (heap s)(ref := Some h)\<rparr>"

definition note_ev :: "sys_event \<Rightarrow> ('d, 'a) sys \<Rightarrow> ('d, 'a) sys" where
  "note_ev ev s = s\<lparr>hist := hist s @ [ev]\<rparr>"

definition next_attempt :: "join \<Rightarrow> join" where
  "next_attempt t =
     (if attempt t + 1 < 2 then t\<lparr>attempt := attempt t + 1, pc := Acquiring\<rparr>
      else t\<lparr>pc := JoinFailed errRoomUnavailable\<rparr>)"

definition push_command :: "room_ref \<Rightarrow> command \<Rightarrow> caller \<Rightarrow> ('d, 'a) hosted \<Rightarrow> ('d, 'a) sys \<Rightarrow> ('d, 'a) sys" where
  "push_command ref cmd who h s = put_hosted ref (h\<lparr>queue := queue h @ [(cmd, who)]\<rparr>) s"

text \<open>A select ends on \<^verbatim>\<open>done\<close> only when the channel is closed.\<close>

definition possible :: "select_end \<Rightarrow> ('d, 'a) hosted \<Rightarrow> bool" where
  "possible how h \<longleftrightarrow> (how = DoneObserved \<longrightarrow> doneClosed (hroom h))"

definition end_flight :: "nat \<Rightarrow> document_id \<Rightarrow> mgr_error + room_ref \<Rightarrow> ('d, 'a) sys \<Rightarrow> ('d, 'a) sys" where
  "end_flight j did res s =
     s\<lparr>flightOf := (flightOf s)(did := None),
       joins := (\<lambda>k. case joins s k of
                       None \<Rightarrow> None
                     | Some t \<Rightarrow> if k = j \<or> pc t = Following j then Some (t\<lparr>pc := Got res\<rparr>) else Some t)\<rparr>"

section \<open>Join\<close>

definition join_begin :: "nat \<Rightarrow> document_id \<Rightarrow> string \<Rightarrow> identity \<Rightarrow> conn_ref \<Rightarrow> ('d, 'a) sys \<Rightarrow> ('d, 'a) sys option" where
  "join_begin j did ct ident c s =
     (case joins s j of
        Some _ \<Rightarrow> None
      | None \<Rightarrow> Some (put_join j \<lparr>joinID = did, joinContent = ct, joinIdentity = ident, joinConn = c,
          joinMode = ModeViewer, joinEpoch = 0, joinMultiUser = None, attempt = 0, pc = Authorizing\<rparr> s))"

definition join_authorize :: "nat \<Rightarrow> (privilege \<Rightarrow> bool option) \<Rightarrow> join \<Rightarrow> ('d, 'a) sys \<Rightarrow> ('d, 'a) sys option" where
  "join_authorize j evaluate t s =
     (if pc t \<noteq> Authorizing then None
      else case authorizeSession evaluate of
        Inl err \<Rightarrow> Some (put_join j (t\<lparr>pc := JoinFailed err\<rparr>) s)
      | Inr md \<Rightarrow> Some (note_ev (HAuthorized j) (put_join j (t\<lparr>joinMode := md, pc := Gating\<rparr>) s)))"

definition join_capture :: "nat \<Rightarrow> join \<Rightarrow> ('d, 'a) sys \<Rightarrow> ('d, 'a) sys option" where
  "join_capture j t s =
     (if pc t \<noteq> Gating then None
      else case join_gate (joinID t) (now s) (man s) of
        (Inl err, m) \<Rightarrow> Some (put_join j (t\<lparr>pc := JoinFailed err\<rparr>) (s\<lparr>man := m\<rparr>))
      | (Inr epoch, m) \<Rightarrow>
          Some (note_ev (HCaptured j) (put_join j (t\<lparr>joinEpoch := epoch, pc := Requiring\<rparr>) (s\<lparr>man := m\<rparr>))))"

definition join_require :: "nat \<Rightarrow> load_error + Metadata \<Rightarrow> join \<Rightarrow> ('d, 'a) sys \<Rightarrow> ('d, 'a) sys option" where
  "join_require j loaded t s =
     (if pc t \<noteq> Requiring then None
      else case requireDocument loaded of
        Inl err \<Rightarrow> Some (put_join j (t\<lparr>pc := JoinFailed err\<rparr>) s)
      | Inr meta \<Rightarrow>
          Some (note_ev (HExists j) (put_join j (t\<lparr>joinMultiUser := metaIsMultiUser meta, pc := Acquiring\<rparr>) s)))"

text \<open>Entering \<^verbatim>\<open>sf.Do\<close>, then the shared function: lookup, materialization off the lock, registration,
  start.\<close>

definition join_acquire :: "nat \<Rightarrow> join \<Rightarrow> ('d, 'a) sys \<Rightarrow> ('d, 'a) sys option" where
  "join_acquire j t s =
     (if pc t \<noteq> Acquiring then None
      else case flightOf s (joinID t) of
        Some k \<Rightarrow> Some (put_join j (t\<lparr>pc := Following k\<rparr>) s)
      | None \<Rightarrow> Some (put_join j (t\<lparr>pc := Leading\<rparr>) (s\<lparr>flightOf := (flightOf s)(joinID t := Some j)\<rparr>)))"

definition flight_lookup :: "nat \<Rightarrow> join \<Rightarrow> ('d, 'a) sys \<Rightarrow> ('d, 'a) sys option" where
  "flight_lookup j t s =
     (if pc t \<noteq> Leading then None
      else case acquire_lookup (joinID t) (man s) of
        LiveRoom ref \<Rightarrow> Some (end_flight j (joinID t) (Inr ref) s)
      | LookupClosed \<Rightarrow> Some (end_flight j (joinID t) (Inl ErrShuttingDown) s)
      | Absent \<Rightarrow> Some (note_ev (HMaterialize j) (put_join j (t\<lparr>pc := Materializing\<rparr>) s)))"

definition flight_materialize ::
  "(room_ref \<Rightarrow> ('d, 'a) env) \<Rightarrow> nat \<Rightarrow> load_error + Metadata \<Rightarrow> load_error + bytes \<Rightarrow> 'd acquisition \<Rightarrow> bool \<Rightarrow>
     join \<Rightarrow> ('d, 'a) sys \<Rightarrow> ('d, 'a) sys option" where
  "flight_materialize es j loaded checkpoint acq subscribed t s =
     (if pc t \<noteq> Materializing then None
      else let ref = nextRef s
           in case newRoom (es ref) (joinID t) (joinContent t) (mcfg (man s)) loaded checkpoint acq subscribed of
                Inl err \<Rightarrow> Some (end_flight j (joinID t) (Inl (MaterializeError err)) s)
              | Inr r \<Rightarrow>
                  Some (put_join j (t\<lparr>pc := Built ref\<rparr>)
                    (put_hosted ref \<lparr>hid = joinID t, hroom = r, queue = [], phase = NotStarted\<rparr>
                      (s\<lparr>nextRef := Suc ref\<rparr>))))"

definition flight_register :: "(room_ref \<Rightarrow> ('d, 'a) env) \<Rightarrow> nat \<Rightarrow> join \<Rightarrow> ('d, 'a) sys \<Rightarrow> ('d, 'a) sys option" where
  "flight_register es j t s =
     (case pc t of
        Built ref \<Rightarrow>
          (case heap s ref of
             None \<Rightarrow> None
           | Some h \<Rightarrow>
               (case acquire_register (joinID t) ref (joinEpoch t) (man s) of
                  (Some err, m) \<Rightarrow>
                    Some (end_flight j (joinID t) (Inl err)
                      (put_hosted ref (h\<lparr>hroom := teardown (es ref) CodeServerShutdown (\<lambda>r. r) (hroom h), phase := Ended\<rparr>)
                        (s\<lparr>man := m\<rparr>)))
                | (None, m) \<Rightarrow>
                    Some (note_ev (HRegistered j (joinID t) ref) (put_join j (t\<lparr>pc := Opening ref\<rparr>) (s\<lparr>man := m\<rparr>)))))
      | _ \<Rightarrow> None)"

definition flight_open :: "nat \<Rightarrow> join \<Rightarrow> ('d, 'a) sys \<Rightarrow> ('d, 'a) sys option" where
  "flight_open j t s =
     (case pc t of
        Opening ref \<Rightarrow>
          (case heap s ref of
             None \<Rightarrow> None
           | Some h \<Rightarrow>
               Some (end_flight j (joinID t) (Inr ref)
                 (note_ev (HRoomOpened ref) (put_hosted ref (h\<lparr>phase := Running\<rparr>) s))))
      | _ \<Rightarrow> None)"

text \<open>The rest of \<^verbatim>\<open>acquire\<close> and of \<^verbatim>\<open>Join\<close>'s loop.\<close>

definition join_admit :: "nat \<Rightarrow> select_end \<Rightarrow> join \<Rightarrow> ('d, 'a) sys \<Rightarrow> ('d, 'a) sys option" where
  "join_admit j how t s =
     (case pc t of
        Got (Inl err) \<Rightarrow> Some (put_join j (t\<lparr>pc := JoinFailed err\<rparr>) s)
      | Got (Inr ref) \<Rightarrow>
          (case heap s ref of
             None \<Rightarrow> None
           | Some h \<Rightarrow>
               if acquire_stale (joinEpoch t) (man s)
               then Some (put_join j (t\<lparr>pc := JoinFailed errRoomUnavailable\<rparr>)
                 (if possible how h \<and> enqueueWithReason (lc (hroom h)) how (lc (hroom h)) = enqueueAdmitted
                  then push_command ref (CmdLeave 0) NoCaller h s else s))
               else Some (note_ev (HAcquired j ref) (put_join j (t\<lparr>pc := Enqueueing ref\<rparr>) s)))
      | _ \<Rightarrow> None)"

definition join_enqueue :: "nat \<Rightarrow> join \<Rightarrow> ('d, 'a) sys \<Rightarrow> ('d, 'a) sys option" where
  "join_enqueue j t s =
     (case pc t of
        Enqueueing ref \<Rightarrow>
          (case heap s ref of
             None \<Rightarrow> None
           | Some h \<Rightarrow>
               Some (put_join j (if lc (hroom h) \<noteq> stateActive then next_attempt t else t\<lparr>pc := Selecting ref\<rparr>) s))
      | _ \<Rightarrow> None)"

definition join_select :: "nat \<Rightarrow> select_end \<Rightarrow> join \<Rightarrow> ('d, 'a) sys \<Rightarrow> ('d, 'a) sys option" where
  "join_select j how t s =
     (case pc t of
        Selecting ref \<Rightarrow>
          (case heap s ref of
             None \<Rightarrow> None
           | Some h \<Rightarrow>
               if \<not> possible how h then None
               else if enqueueWithReason stateActive how (lc (hroom h)) = enqueueAdmitted
               then Some (put_join j (t\<lparr>pc := Awaiting ref\<rparr>)
                 (push_command ref (CmdJoin (joinConn t) (joinIdentity t) (joinMode t) (joinMultiUser t))
                   (JoinCaller j (attempt t)) h s))
               else Some (put_join j (next_attempt t) s))
      | _ \<Rightarrow> None)"

definition join_receive :: "nat \<Rightarrow> join \<Rightarrow> ('d, 'a) sys \<Rightarrow> ('d, 'a) sys option" where
  "join_receive j t s =
     (case pc t of
        Awaiting ref \<Rightarrow>
          (case answers s (JoinCaller j (attempt t)) of
             Some (JoinReply (Inl err)) \<Rightarrow> Some (put_join j (t\<lparr>pc := JoinFailed (RoomRefused err)\<rparr>) s)
           | Some (JoinReply (Inr (cid, frames))) \<Rightarrow>
               Some (note_ev (HAdmitted j ref) (put_join j (t\<lparr>pc := Joined ref cid frames\<rparr>) s))
           | _ \<Rightarrow> None)
      | _ \<Rightarrow> None)"

definition join_room_done :: "nat \<Rightarrow> join \<Rightarrow> ('d, 'a) sys \<Rightarrow> ('d, 'a) sys option" where
  "join_room_done j t s =
     (case pc t of
        Awaiting ref \<Rightarrow>
          (case heap s ref of
             Some h \<Rightarrow> if doneClosed (hroom h) then Some (put_join j (next_attempt t) s) else None
           | None \<Rightarrow> None)
      | _ \<Rightarrow> None)"

section \<open>Run loops\<close>

definition loop_result :: "room_ref \<Rightarrow> ('d, 'a) hosted \<Rightarrow> bool \<times> ('d, 'a) room \<Rightarrow> ('d, 'a) sys \<Rightarrow> ('d, 'a) sys" where
  "loop_result ref h res s =
     put_hosted ref (h\<lparr>hroom := snd res, phase := (if fst res then Running else Ended)\<rparr>) s"

definition room_command :: "(room_ref \<Rightarrow> ('d, 'a) env) \<Rightarrow> room_ref \<Rightarrow> ('d, 'a) sys \<Rightarrow> ('d, 'a) sys option" where
  "room_command es ref s =
     (case heap s ref of
        None \<Rightarrow> None
      | Some h \<Rightarrow>
          (case queue h of
             [] \<Rightarrow> None
           | (cmd, who) # rest \<Rightarrow>
               if phase h \<noteq> Running then None
               else let rep = fst (snd (dispatch (es ref) cmd (hroom h)))
                    in Some (loop_result ref (h\<lparr>queue := rest\<rparr>) (run_step (es ref) (LCommand cmd) (hroom h))
                      (if rep = NoReply then s else s\<lparr>answers := (answers s)(who := Some rep)\<rparr>))))"

definition room_event :: "(room_ref \<Rightarrow> ('d, 'a) env) \<Rightarrow> room_ref \<Rightarrow> loop_event \<Rightarrow> ('d, 'a) sys \<Rightarrow> ('d, 'a) sys option" where
  "room_event es ref ev s =
     (case heap s ref of
        None \<Rightarrow> None
      | Some h \<Rightarrow>
          if phase h = Running \<and> ready ev (hroom h) \<and> (case ev of LCommand _ \<Rightarrow> False | _ \<Rightarrow> True)
          then Some (loop_result ref h (run_step (es ref) ev (hroom h)) s) else None)"

text \<open>\<^verbatim>\<open>onReleased\<close>: a room that has ended takes itself out of the registry.\<close>

definition room_released :: "room_ref \<Rightarrow> ('d, 'a) sys \<Rightarrow> ('d, 'a) sys option" where
  "room_released ref s =
     (case heap s ref of
        None \<Rightarrow> None
      | Some h \<Rightarrow>
          if phase h \<noteq> Ended then None
          else case mgr_remove (hid h) ref (man s) of
            (removed, m) \<Rightarrow>
              (let s1 = put_hosted ref (h\<lparr>phase := Gone\<rparr>) (s\<lparr>man := m\<rparr>)
               in Some (if removed then note_ev (HRoomClosed ref) s1 else s1)))"

text \<open>Commands of sessions that hold a room.\<close>

definition session_command :: "room_ref \<Rightarrow> command \<Rightarrow> ('d, 'a) sys \<Rightarrow> ('d, 'a) sys option" where
  "session_command ref cmd s =
     (case heap s ref of
        None \<Rightarrow> None
      | Some h \<Rightarrow>
          (case cmd of
             CmdActivate _ \<Rightarrow> Some (push_command ref cmd NoCaller h s)
           | CmdLeave _ \<Rightarrow> Some (push_command ref cmd NoCaller h s)
           | CmdMessage _ _ _ \<Rightarrow> Some (push_command ref cmd NoCaller h s)
           | CmdContributionDone _ \<Rightarrow> Some (push_command ref cmd NoCaller h s)
           | _ \<Rightarrow> None))"

section \<open>CloseDeleted\<close>

definition delete_begin :: "nat \<Rightarrow> document_id \<Rightarrow> ('d, 'a) sys \<Rightarrow> ('d, 'a) sys option" where
  "delete_begin d did s =
     (case deletions s d of
        Some _ \<Rightarrow> None
      | None \<Rightarrow> Some (put_deletion d \<lparr>delID = did, delPC = Marking (now s + deleteTombstoneTTL)\<rparr> s))"

definition delete_mark :: "nat \<Rightarrow> deletion \<Rightarrow> ('d, 'a) sys \<Rightarrow> ('d, 'a) sys option" where
  "delete_mark d t s =
     (case delPC t of
        Marking expires \<Rightarrow>
          (case closeDeleted_mark (delID t) expires (man s) of
             (live, m) \<Rightarrow>
               Some (note_ev (HDeleted d (delID t) live)
                 (put_deletion d (t\<lparr>delPC := (case live of Some ref \<Rightarrow> Found ref | None \<Rightarrow> Returned None)\<rparr>)
                   (s\<lparr>man := m, timers := timers s @ [(delID t, expires)]\<rparr>))))
      | _ \<Rightarrow> None)"

definition delete_enqueue :: "nat \<Rightarrow> deletion \<Rightarrow> ('d, 'a) sys \<Rightarrow> ('d, 'a) sys option" where
  "delete_enqueue d t s =
     (case delPC t of
        Found ref \<Rightarrow>
          (case heap s ref of
             None \<Rightarrow> None
           | Some h \<Rightarrow>
               Some (put_deletion d (t\<lparr>delPC :=
                 (if lc (hroom h) \<noteq> stateActive then Returned None else DelSelecting ref)\<rparr>) s))
      | _ \<Rightarrow> None)"

definition delete_select :: "nat \<Rightarrow> select_end \<Rightarrow> bool \<Rightarrow> deletion \<Rightarrow> ('d, 'a) sys \<Rightarrow> ('d, 'a) sys option" where
  "delete_select d how ctxEnded t s =
     (case delPC t of
        DelSelecting ref \<Rightarrow>
          (case heap s ref of
             None \<Rightarrow> None
           | Some h \<Rightarrow>
               if \<not> possible how h then None
               else if enqueueWithReason stateActive how (lc (hroom h)) = enqueueAdmitted
               then Some (put_deletion d (t\<lparr>delPC := DelAwaiting ref\<rparr>)
                 (push_command ref CmdCloseDeleted (DeleteCaller d) h s))
               else if lc (hroom h) = stateActive
               then Some (put_deletion d (t\<lparr>delPC :=
                 Returned (Some (if ctxEnded then CloseContextEnded else CloseUnavailable))\<rparr>) s)
               else Some (put_deletion d (t\<lparr>delPC := Returned None\<rparr>) s))
      | _ \<Rightarrow> None)"

definition delete_receive :: "nat \<Rightarrow> deletion \<Rightarrow> ('d, 'a) sys \<Rightarrow> ('d, 'a) sys option" where
  "delete_receive d t s =
     (case delPC t of
        DelAwaiting ref \<Rightarrow>
          (case answers s (DeleteCaller d) of
             Some (AckReply None) \<Rightarrow> Some (put_deletion d (t\<lparr>delPC := Returned None\<rparr>) s)
           | Some (AckReply (Some _)) \<Rightarrow> Some (put_deletion d (t\<lparr>delPC := Returned (Some CloseUnavailable)\<rparr>) s)
           | _ \<Rightarrow> None)
      | _ \<Rightarrow> None)"

definition delete_room_done :: "nat \<Rightarrow> deletion \<Rightarrow> ('d, 'a) sys \<Rightarrow> ('d, 'a) sys option" where
  "delete_room_done d t s =
     (case delPC t of
        DelAwaiting ref \<Rightarrow>
          (case heap s ref of
             Some h \<Rightarrow> if doneClosed (hroom h) then Some (put_deletion d (t\<lparr>delPC := Returned None\<rparr>) s) else None
           | None \<Rightarrow> None)
      | _ \<Rightarrow> None)"

definition delete_timeout :: "nat \<Rightarrow> deletion \<Rightarrow> ('d, 'a) sys \<Rightarrow> ('d, 'a) sys option" where
  "delete_timeout d t s =
     (case delPC t of
        DelAwaiting ref \<Rightarrow> Some (put_deletion d (t\<lparr>delPC := Returned (Some CloseContextEnded)\<rparr>) s)
      | _ \<Rightarrow> None)"

definition timer_fire :: "document_id \<Rightarrow> int \<Rightarrow> ('d, 'a) sys \<Rightarrow> ('d, 'a) sys option" where
  "timer_fire did expires s =
     (if (did, expires) \<in> set (timers s) \<and> expires \<le> now s
      then Some (s\<lparr>man := tombstone_timer did expires (man s), timers := remove1 (did, expires) (timers s)\<rparr>)
      else None)"

section \<open>Close\<close>

definition close_start :: "('d, 'a) sys \<Rightarrow> ('d, 'a) sys option" where
  "close_start s =
     (if draining s \<noteq> None then None
      else case close_begin (man s) of
        (refs, m) \<Rightarrow> Some (s\<lparr>man := m, draining := Some refs, unsignalled := refs,
          closeDeadline := now s + shutdownBudget m\<rparr>))"

definition close_signal :: "room_ref \<Rightarrow> select_end \<Rightarrow> ('d, 'a) sys \<Rightarrow> ('d, 'a) sys option" where
  "close_signal ref how s =
     (case heap s ref of
        None \<Rightarrow> None
      | Some h \<Rightarrow>
          if ref \<notin> set (unsignalled s) \<or> \<not> possible how h then None
          else let s1 = s\<lparr>unsignalled := remove1 ref (unsignalled s)\<rparr>
               in Some (if enqueueWithReason (lc (hroom h)) how (lc (hroom h)) = enqueueAdmitted
                        then push_command ref CmdClose NoCaller h s1 else s1))"

text \<open>\<^verbatim>\<open>Close\<close> returns when every room of its snapshot is done (\<open>False\<close>) or its deadline has passed.\<close>

definition close_drained :: "('d, 'a) sys \<Rightarrow> ('d, 'a) sys option" where
  "close_drained s =
     (case draining s of
        None \<Rightarrow> None
      | Some refs \<Rightarrow>
          if closeOutcome s = None \<and>
             list_all (\<lambda>ref. case heap s ref of Some h \<Rightarrow> doneClosed (hroom h) | None \<Rightarrow> False) refs
          then Some (s\<lparr>closeOutcome := Some False\<rparr>) else None)"

definition close_expired :: "('d, 'a) sys \<Rightarrow> ('d, 'a) sys option" where
  "close_expired s =
     (if draining s \<noteq> None \<and> closeOutcome s = None \<and> closeDeadline s \<le> now s
      then Some (s\<lparr>closeOutcome := Some True\<rparr>) else None)"

section \<open>The system\<close>

datatype 'd action =
    AJoin nat document_id string identity conn_ref
  | AAuthorize nat "privilege \<Rightarrow> bool option"
  | ACapture nat
  | ARequire nat "load_error + Metadata"
  | AAcquire nat
  | ALookup nat
  | AMaterialize nat "load_error + Metadata" "load_error + bytes" "'d acquisition" bool
  | ARegister nat
  | AOpen nat
  | AAdmit nat select_end
  | AEnqueue nat
  | ASelect nat select_end
  | AReceive nat
  | ARoomDone nat
  | ACommand room_ref
  | AEvent room_ref loop_event
  | AReleased room_ref
  | ASession room_ref command
  | ADelete nat document_id
  | AMark nat
  | ADelEnqueue nat
  | ADelSelect nat select_end bool
  | ADelReceive nat
  | ADelRoomDone nat
  | ADelTimeout nat
  | ATimer document_id int
  | ACloseStart
  | ACloseSignal room_ref select_end
  | ACloseDrained
  | ACloseExpired
  | ATick int

definition the_join :: "nat \<Rightarrow> (join \<Rightarrow> ('d, 'a) sys \<Rightarrow> ('d, 'a) sys option) \<Rightarrow> ('d, 'a) sys \<Rightarrow> ('d, 'a) sys option" where
  "the_join j f s = (case joins s j of None \<Rightarrow> None | Some t \<Rightarrow> f t s)"

definition the_deletion ::
  "nat \<Rightarrow> (deletion \<Rightarrow> ('d, 'a) sys \<Rightarrow> ('d, 'a) sys option) \<Rightarrow> ('d, 'a) sys \<Rightarrow> ('d, 'a) sys option" where
  "the_deletion d f s = (case deletions s d of None \<Rightarrow> None | Some t \<Rightarrow> f t s)"

primrec perform :: "(room_ref \<Rightarrow> ('d, 'a) env) \<Rightarrow> 'd action \<Rightarrow> ('d, 'a) sys \<Rightarrow> ('d, 'a) sys option" where
  "perform es (AJoin j did ct ident c) s = join_begin j did ct ident c s"
| "perform es (AAuthorize j evaluate) s = the_join j (join_authorize j evaluate) s"
| "perform es (ACapture j) s = the_join j (join_capture j) s"
| "perform es (ARequire j loaded) s = the_join j (join_require j loaded) s"
| "perform es (AAcquire j) s = the_join j (join_acquire j) s"
| "perform es (ALookup j) s = the_join j (flight_lookup j) s"
| "perform es (AMaterialize j loaded checkpoint acq sub) s = the_join j (flight_materialize es j loaded checkpoint acq sub) s"
| "perform es (ARegister j) s = the_join j (flight_register es j) s"
| "perform es (AOpen j) s = the_join j (flight_open j) s"
| "perform es (AAdmit j how) s = the_join j (join_admit j how) s"
| "perform es (AEnqueue j) s = the_join j (join_enqueue j) s"
| "perform es (ASelect j how) s = the_join j (join_select j how) s"
| "perform es (AReceive j) s = the_join j (join_receive j) s"
| "perform es (ARoomDone j) s = the_join j (join_room_done j) s"
| "perform es (ACommand ref) s = room_command es ref s"
| "perform es (AEvent ref ev) s = room_event es ref ev s"
| "perform es (AReleased ref) s = room_released ref s"
| "perform es (ASession ref cmd) s = session_command ref cmd s"
| "perform es (ADelete d did) s = delete_begin d did s"
| "perform es (AMark d) s = the_deletion d (delete_mark d) s"
| "perform es (ADelEnqueue d) s = the_deletion d (delete_enqueue d) s"
| "perform es (ADelSelect d how ctxEnded) s = the_deletion d (delete_select d how ctxEnded) s"
| "perform es (ADelReceive d) s = the_deletion d (delete_receive d) s"
| "perform es (ADelRoomDone d) s = the_deletion d (delete_room_done d) s"
| "perform es (ADelTimeout d) s = the_deletion d (delete_timeout d) s"
| "perform es (ATimer did expires) s = timer_fire did expires s"
| "perform es ACloseStart s = close_start s"
| "perform es (ACloseSignal ref how) s = close_signal ref how s"
| "perform es ACloseDrained s = close_drained s"
| "perform es ACloseExpired s = close_expired s"
| "perform es (ATick n) s = (if n < 0 then None else Some (s\<lparr>now := now s + n\<rparr>))"

inductive reachable :: "(room_ref \<Rightarrow> ('d, 'a) env) \<Rightarrow> roomConfig \<Rightarrow> ('d, 'a) sys \<Rightarrow> bool" for es c where
  reach_init: "reachable es c (initial_sys c t)"
| reach_step: "reachable es c s \<Longrightarrow> perform es a s = Some s' \<Longrightarrow> reachable es c s'"

fun perform_all :: "(room_ref \<Rightarrow> ('d, 'a) env) \<Rightarrow> 'd action list \<Rightarrow> ('d, 'a) sys \<Rightarrow> ('d, 'a) sys option" where
  "perform_all es [] s = Some s"
| "perform_all es (a # as) s = (case perform es a s of None \<Rightarrow> None | Some s' \<Rightarrow> perform_all es as s')"

lemma perform_all_reachable: "reachable es c s \<Longrightarrow> perform_all es as s = Some s' \<Longrightarrow> reachable es c s'"
  by (induction "as" arbitrary: s) (auto split: option.splits dest: reach_step)

end
