(* ===== verification/ManagerSafety.thy ===== *)
theory ManagerSafety
  imports ManagerSystem
begin

text \<open>
  Invariants of the manager's transition system, each an interpretation of \<open>sys_inv\<close>: hosted rooms
  are runs of the room model, flights have one leader, the registry names live rooms, and the
  history justifies every admission.
\<close>

section \<open>Rooms in the heap\<close>

definition alive :: "('d, 'a) hosted \<Rightarrow> bool" where
  "alive h \<longleftrightarrow> phase h = NotStarted \<or> phase h = Running"

definition hosted_ok :: "('d, 'a) env \<Rightarrow> ('d, 'a) hosted \<Rightarrow> bool" where
  "hosted_ok e h \<longleftrightarrow>
     (if alive h then \<exists>acq r0. room_run e acq r0 True (hroom h)
      else lc (hroom h) = stateClosed \<and> doneClosed (hroom h))"

lemma room_run_serving:
  assumes "room_run e acq r0 True r"
  shows "lc r = stateActive" "\<not> doneClosed r"
proof -
  obtain did ct c loaded checkpoint where new: "newRoom e did ct c loaded checkpoint acq True = Inr r0"
      and run: "run_reach e r0 True r"
    using assms by (auto simp: room_run_def)
  show "lc r = stateActive" by (rule run_reach_active [OF run newRoom_start(1) [OF new] TrueI])
  moreover have "done_once r"
    by (rule once_run.run_reach_I [OF run newRoom_invs(2) [OF new] newRoom_start(1) [OF new]])
  ultimately show "\<not> doneClosed r" by (simp add: done_once_def)
qed

lemma hosted_ok_lc:
  assumes "hosted_ok e h"
  shows "lc (hroom h) = stateActive \<longleftrightarrow> alive h" "doneClosed (hroom h) \<longleftrightarrow> \<not> alive h"
  using assms by (auto simp: hosted_ok_def room_run_serving split: if_splits)

lemma hosted_ok_new:
  assumes "newRoom e did ct c loaded checkpoint acq subscribed = Inr r"
  shows "hosted_ok e \<lparr>hid = d, hroom = r, queue = q, phase = NotStarted\<rparr>"
proof -
  have "subscribed" using assms by (auto simp: newRoom_def attachRoom_def Let_def split: sum.splits prod.splits option.splits if_splits)
  then have "room_run e acq r True r" using assms run_start [of e r] unfolding room_run_def by metis
  then show ?thesis by (auto simp: hosted_ok_def alive_def)
qed

lemma teardown_closed:
  assumes "lc r = stateActive" "flush = (\<lambda>s. s) \<or> flush = persist e"
  shows "lc (teardown e code flush r) = stateClosed"
proof -
  have "lc (flush (r\<lparr>shadow := None, lc := stateDraining\<rparr>)) = stateDraining"
    using assms(2) by (auto simp: persist_draining)
  then show ?thesis
    using assms(1) by (simp add: teardown_start teardown_body_def releaseRoom_def finishDraining_def lc_transition_def
        compareAndSwap_def Let_def)
qed

lemma persist_closed: "lc r = stateActive \<Longrightarrow> lc (persist e r) \<noteq> stateActive \<Longrightarrow> lc (persist e r) = stateClosed"
  by (auto simp: persist_def encode_failed_def persist_accepted_def onFlushSucceeded_def onFlushFailed_def
      escalateUndurable_def Let_def intro!: teardown_closed split: if_splits option.splits)

lemma run_step_closed:
  assumes "lc r = stateActive" "run_step e ev r = (False, r')"
  shows "lc r' = stateClosed"
proof (cases ev)
  case (LCommand cmd)
  obtain t rep r1 where d: "dispatch e cmd r = (t, rep, r1)" by (metis prod_cases3)
  consider "t = Stop" "r' = r1" | "t = Panicked" "r' = recover_panic e r1"
    using LCommand d assms(2) by (cases t) (auto simp: run_step_def)
  then show ?thesis
  proof cases
    case 1
    then show ?thesis using d dispatch_stop [of e cmd r rep r1] teardown_closed [OF assms(1)] by auto
  next
    case 2
    with d obtain i f dr where h: "handleMessage e i f dr r = (None, r1)" by (auto elim: dispatch_panicked)
    with 2 handleMessage_panic_lc [OF h] assms(1) show ?thesis by (simp add: recover_panic_def teardown_closed)
  qed
next
  case (LPeer p eph)
  then obtain r1 where h: "handlePeer e p eph r = (None, r1)" and r': "r' = recover_panic e r1"
    using assms(2) by (auto simp: run_step_def split: prod.splits option.splits)
  with handlePeer_panic_lc [OF h] assms(1) show ?thesis by (simp add: recover_panic_def teardown_closed)
next
  case LSaveTimer
  then show ?thesis
    using assms persist_closed [of "r\<lparr>saveTimer := None\<rparr>" e] by (auto simp: run_step_def Let_def split: if_splits)
next
  case LIdleTimer
  have "releaseIfEmpty e (r\<lparr>idleTimer := None\<rparr>) = (True, r')" using LIdleTimer assms(2) by (auto simp: run_step_def split: prod.splits)
  then show ?thesis
    using assms(1) persist_closed [of "r\<lparr>idleTimer := None\<rparr>" e]
    by (auto simp: releaseIfEmpty_def Let_def teardown_closed split: if_splits)
qed (use assms(2) in \<open>simp add: run_step_def\<close>)

lemma hosted_ok_loop:
  assumes "hosted_ok e h" "phase h = Running" "ready ev (hroom h)"
  shows "hosted_ok e (h\<lparr>hroom := snd (run_step e ev (hroom h)),
    phase := (if fst (run_step e ev (hroom h)) then Running else Ended)\<rparr>)"
proof -
  obtain acq r0 where run: "room_run e acq r0 True (hroom h)"
    using assms(1,2) by (auto simp: hosted_ok_def alive_def)
  obtain go r' where st: "run_step e ev (hroom h) = (go, r')" by fastforce
  have next_run: "room_run e acq r0 go r'"
    using run st assms(3) by (auto simp: room_run_def intro: run_next)
  then obtain did ct c loaded checkpoint where new: "newRoom e did ct c loaded checkpoint acq True = Inr r0"
      and reach: "run_reach e r0 go r'" by (auto simp: room_run_def)
  have "done_once r'" by (rule once_run.run_reach_I [OF reach newRoom_invs(2) [OF new] newRoom_start(1) [OF new]])
  moreover have "lc r' = stateClosed" if "\<not> go"
    using run_step_closed room_run_serving(1) [OF run] st that by auto
  ultimately show ?thesis
    using st next_run by (cases go) (auto simp: hosted_ok_def alive_def done_once_def)
qed

lemma hosted_ok_teardown:
  assumes "hosted_ok e h" "alive h"
  shows "hosted_ok e (h\<lparr>hroom := teardown e code (\<lambda>r. r) (hroom h), phase := Ended\<rparr>)"
proof -
  obtain acq r0 where run: "room_run e acq r0 True (hroom h)" using assms(1,2) by (auto simp: hosted_ok_def)
  then obtain did ct c loaded checkpoint where new: "newRoom e did ct c loaded checkpoint acq True = Inr r0"
      and reach: "run_reach e r0 True (hroom h)" by (auto simp: room_run_def)
  have "done_once (hroom h)"
    by (rule once_run.run_reach_I [OF reach newRoom_invs(2) [OF new] newRoom_start(1) [OF new]])
  then have "done_once (teardown e code (\<lambda>r. r) (hroom h))" by (rule once_run.I_teardown_nil)
  then show ?thesis using teardown_closed [OF room_run_serving(1) [OF run]] by (simp add: hosted_ok_def alive_def done_once_def)
qed

section \<open>Well-formed systems\<close>

fun leader_pc :: "join_pc \<Rightarrow> bool" where
  "leader_pc Leading = True"
| "leader_pc Materializing = True"
| "leader_pc (Built _) = True"
| "leader_pc (Opening _) = True"
| "leader_pc _ = False"

fun unregistered_pc :: "join_pc \<Rightarrow> bool" where
  "unregistered_pc Materializing = True"
| "unregistered_pc (Built _) = True"
| "unregistered_pc _ = False"

fun pc_ref :: "join_pc \<Rightarrow> room_ref option" where
  "pc_ref (Built ref) = Some ref"
| "pc_ref (Opening ref) = Some ref"
| "pc_ref (Got (Inr ref)) = Some ref"
| "pc_ref (Enqueueing ref) = Some ref"
| "pc_ref (Selecting ref) = Some ref"
| "pc_ref (Awaiting ref) = Some ref"
| "pc_ref (Joined ref _ _) = Some ref"
| "pc_ref _ = None"

definition heap_wf :: "(room_ref \<Rightarrow> ('d, 'a) env) \<Rightarrow> ('d, 'a) sys \<Rightarrow> bool" where
  "heap_wf es s \<longleftrightarrow>
     (\<forall>ref. nextRef s \<le> ref \<longrightarrow> heap s ref = None) \<and>
     (\<forall>ref h. heap s ref = Some h \<longrightarrow> hosted_ok (es ref) h)"

definition rooms_wf :: "('d, 'a) sys \<Rightarrow> bool" where
  "rooms_wf s \<longleftrightarrow> distinct (keys (rooms (man s))) \<and>
     (\<forall>did ref. map_of (rooms (man s)) did = Some ref \<longrightarrow> (\<exists>h. heap s ref = Some h \<and> hid h = did))"

definition join_wf :: "nat \<Rightarrow> join \<Rightarrow> ('d, 'a) sys \<Rightarrow> bool" where
  "join_wf j t s \<longleftrightarrow>
     (\<forall>ref. pc_ref (pc t) = Some ref \<longrightarrow> (\<exists>h. heap s ref = Some h \<and> hid h = joinID t)) \<and>
     (leader_pc (pc t) \<longrightarrow> flightOf s (joinID t) = Some j) \<and>
     (\<forall>k. pc t = Following k \<longrightarrow> flightOf s (joinID t) = Some k) \<and>
     (unregistered_pc (pc t) \<longrightarrow> map_of (rooms (man s)) (joinID t) = None) \<and>
     (\<forall>ref h. pc t = Built ref \<longrightarrow> heap s ref = Some h \<longrightarrow> phase h = NotStarted) \<and>
     (\<forall>ref h. pc t = Opening ref \<longrightarrow> heap s ref = Some h \<longrightarrow>
        phase h = NotStarted \<and> map_of (rooms (man s)) (joinID t) = Some ref)"

definition joins_wf :: "('d, 'a) sys \<Rightarrow> bool" where
  "joins_wf s \<longleftrightarrow> (\<forall>j t. joins s j = Some t \<longrightarrow> join_wf j t s)"

definition flights_wf :: "('d, 'a) sys \<Rightarrow> bool" where
  "flights_wf s \<longleftrightarrow> (\<forall>did j. flightOf s did = Some j \<longrightarrow> (\<exists>t. joins s j = Some t \<and> joinID t = did))"

definition alive_wf :: "('d, 'a) sys \<Rightarrow> bool" where
  "alive_wf s \<longleftrightarrow> (\<forall>ref h. heap s ref = Some h \<longrightarrow> alive h \<longrightarrow>
     map_of (rooms (man s)) (hid h) = Some ref \<or> (\<exists>j t. joins s j = Some t \<and> pc t = Built ref))"

definition sys_wf :: "(room_ref \<Rightarrow> ('d, 'a) env) \<Rightarrow> ('d, 'a) sys \<Rightarrow> bool" where
  "sys_wf es s \<longleftrightarrow> heap_wf es s \<and> rooms_wf s \<and> joins_wf s \<and> flights_wf s \<and> alive_wf s"

lemmas update_defs = put_join_def put_deletion_def put_hosted_def note_ev_def push_command_def end_flight_def
  next_attempt_def loop_result_def the_join_def the_deletion_def

lemmas section_defs = join_gate_def acquire_lookup_def acquire_register_def acquire_stale_def closeDeleted_mark_def
  tombstone_timer_def mgr_remove_def close_begin_def

lemmas join_step_defs = join_begin_def join_authorize_def join_capture_def join_require_def join_acquire_def
  flight_lookup_def flight_materialize_def flight_register_def flight_open_def join_admit_def join_enqueue_def
  join_select_def join_receive_def join_room_done_def

lemmas other_step_defs = room_command_def room_event_def room_released_def session_command_def delete_begin_def
  delete_mark_def delete_enqueue_def delete_select_def delete_receive_def delete_room_done_def delete_timeout_def
  timer_fire_def close_start_def close_signal_def close_drained_def close_expired_def

section \<open>The steps by outcome\<close>

text \<open>
  \<open>sys_step\<close> lists the outcomes of the actions with what the invariants need to know of each; every
  action performed is one of them.
\<close>

definition same_registry :: "manager \<Rightarrow> manager \<Rightarrow> bool" where
  "same_registry m m' \<longleftrightarrow> rooms m' = rooms m \<and> deleteEpoch m' = deleteEpoch m \<and> isClosed m' = isClosed m"

fun settled_pc :: "join_pc \<Rightarrow> bool" where
  "settled_pc (Following _) = False"
| "settled_pc p = (\<not> leader_pc p)"

inductive sys_step :: "(room_ref \<Rightarrow> ('d, 'a) env) \<Rightarrow> ('d, 'a) sys \<Rightarrow> ('d, 'a) sys \<Rightarrow> bool" for es s where
  st_begin: "joins s j = None \<Longrightarrow> pc t = Authorizing \<Longrightarrow> sys_step es s (put_join j t s)"
| st_fail: "joins s j = Some t \<Longrightarrow> settled_pc (pc t) \<Longrightarrow> sys_step es s (put_join j (t\<lparr>pc := JoinFailed err\<rparr>) s)"
| st_authorize: "joins s j = Some t \<Longrightarrow> pc t = Authorizing \<Longrightarrow>
    sys_step es s (note_ev (HAuthorized j) (put_join j (t\<lparr>joinMode := md, pc := Gating\<rparr>) s))"
| st_capture: "joins s j = Some t \<Longrightarrow> pc t = Gating \<Longrightarrow> same_registry (man s) m \<Longrightarrow>
    sys_step es s (note_ev (HCaptured j) (put_join j (t\<lparr>joinEpoch := deleteEpoch (man s), pc := Requiring\<rparr>) (s\<lparr>man := m\<rparr>)))"
| st_require: "joins s j = Some t \<Longrightarrow> pc t = Requiring \<Longrightarrow>
    sys_step es s (note_ev (HExists j) (put_join j (t\<lparr>joinMultiUser := mu, pc := Acquiring\<rparr>) s))"
| st_follow: "joins s j = Some t \<Longrightarrow> pc t = Acquiring \<Longrightarrow> flightOf s (joinID t) = Some k \<Longrightarrow>
    sys_step es s (put_join j (t\<lparr>pc := Following k\<rparr>) s)"
| st_lead: "joins s j = Some t \<Longrightarrow> pc t = Acquiring \<Longrightarrow> flightOf s (joinID t) = None \<Longrightarrow>
    sys_step es s (put_join j (t\<lparr>pc := Leading\<rparr>) (s\<lparr>flightOf := (flightOf s)(joinID t := Some j)\<rparr>))"
| st_found: "joins s j = Some t \<Longrightarrow> pc t = Leading \<Longrightarrow> map_of (rooms (man s)) (joinID t) = Some ref \<Longrightarrow>
    sys_step es s (end_flight j (joinID t) (Inr ref) s)"
| st_flight_failed: "joins s j = Some t \<Longrightarrow> pc t = Leading \<or> pc t = Materializing \<Longrightarrow>
    sys_step es s (end_flight j (joinID t) (Inl err) s)"
| st_absent: "joins s j = Some t \<Longrightarrow> pc t = Leading \<Longrightarrow> map_of (rooms (man s)) (joinID t) = None \<Longrightarrow>
    sys_step es s (note_ev (HMaterialize j) (put_join j (t\<lparr>pc := Materializing\<rparr>) s))"
| st_built: "joins s j = Some t \<Longrightarrow> pc t = Materializing \<Longrightarrow> hosted_ok (es (nextRef s)) h \<Longrightarrow>
    hid h = joinID t \<Longrightarrow> phase h = NotStarted \<Longrightarrow> queue h = [] \<Longrightarrow>
    sys_step es s (put_join j (t\<lparr>pc := Built (nextRef s)\<rparr>) (put_hosted (nextRef s) h (s\<lparr>nextRef := Suc (nextRef s)\<rparr>)))"
| st_aborted: "joins s j = Some t \<Longrightarrow> pc t = Built ref \<Longrightarrow> heap s ref = Some h \<Longrightarrow>
    sys_step es s (end_flight j (joinID t) (Inl err)
      (put_hosted ref (h\<lparr>hroom := teardown (es ref) CodeServerShutdown (\<lambda>r. r) (hroom h), phase := Ended\<rparr>) s))"
| st_register: "joins s j = Some t \<Longrightarrow> pc t = Built ref \<Longrightarrow> heap s ref = Some h \<Longrightarrow> deleteEpoch (man s) = joinEpoch t \<Longrightarrow>
    \<not> isClosed (man s) \<Longrightarrow>
    sys_step es s (note_ev (HRegistered j (joinID t) ref) (put_join j (t\<lparr>pc := Opening ref\<rparr>)
      (s\<lparr>man := (man s)\<lparr>rooms := AList.update (joinID t) ref (rooms (man s))\<rparr>\<rparr>)))"
| st_open: "joins s j = Some t \<Longrightarrow> pc t = Opening ref \<Longrightarrow> heap s ref = Some h \<Longrightarrow>
    sys_step es s (end_flight j (joinID t) (Inr ref) (note_ev (HRoomOpened ref) (put_hosted ref (h\<lparr>phase := Running\<rparr>) s)))"
| st_stale: "joins s j = Some t \<Longrightarrow> pc t = Got (Inr ref) \<Longrightarrow> heap s ref = Some h \<Longrightarrow>
    sys_step es s (put_join j (t\<lparr>pc := JoinFailed err\<rparr>) (push_command ref (CmdLeave 0) NoCaller h s))"
| st_acquired: "joins s j = Some t \<Longrightarrow> pc t = Got (Inr ref) \<Longrightarrow> deleteEpoch (man s) = joinEpoch t \<Longrightarrow>
    sys_step es s (note_ev (HAcquired j ref) (put_join j (t\<lparr>pc := Enqueueing ref\<rparr>) s))"
| st_retry: "joins s j = Some t \<Longrightarrow> pc t \<in> {Enqueueing ref, Selecting ref, Awaiting ref} \<Longrightarrow>
    sys_step es s (put_join j (t\<lparr>attempt := attempt t + 1, pc := Acquiring\<rparr>) s)"
| st_selecting: "joins s j = Some t \<Longrightarrow> pc t = Enqueueing ref \<Longrightarrow> sys_step es s (put_join j (t\<lparr>pc := Selecting ref\<rparr>) s)"
| st_await: "joins s j = Some t \<Longrightarrow> pc t = Selecting ref \<Longrightarrow> heap s ref = Some h \<Longrightarrow>
    sys_step es s (put_join j (t\<lparr>pc := Awaiting ref\<rparr>)
      (push_command ref (CmdJoin (joinConn t) (joinIdentity t) (joinMode t) (joinMultiUser t)) (JoinCaller j (attempt t)) h s))"
| st_joined: "joins s j = Some t \<Longrightarrow> pc t = Awaiting ref \<Longrightarrow>
    sys_step es s (note_ev (HAdmitted j ref) (put_join j (t\<lparr>pc := Joined ref cid frames\<rparr>) s))"
| st_command: "heap s ref = Some h \<Longrightarrow> phase h = Running \<Longrightarrow> queue h = (cmd, who) # rest \<Longrightarrow>
    sys_step es s (loop_result ref (h\<lparr>queue := rest\<rparr>) (run_step (es ref) (LCommand cmd) (hroom h)) s)"
| st_answer: "heap s ref = Some h \<Longrightarrow> phase h = Running \<Longrightarrow> queue h = (cmd, who) # rest \<Longrightarrow>
    sys_step es s (loop_result ref (h\<lparr>queue := rest\<rparr>) (run_step (es ref) (LCommand cmd) (hroom h))
      (s\<lparr>answers := (answers s)(who \<mapsto> rep)\<rparr>))"
| st_event: "heap s ref = Some h \<Longrightarrow> phase h = Running \<Longrightarrow> ready ev (hroom h) \<Longrightarrow>
    sys_step es s (loop_result ref h (run_step (es ref) ev (hroom h)) s)"
| st_removed: "heap s ref = Some h \<Longrightarrow> phase h = Ended \<Longrightarrow> map_of (rooms (man s)) (hid h) = Some ref \<Longrightarrow>
    sys_step es s (note_ev (HRoomClosed ref) (put_hosted ref (h\<lparr>phase := Gone\<rparr>)
      (s\<lparr>man := (man s)\<lparr>rooms := AList.delete (hid h) (rooms (man s))\<rparr>\<rparr>)))"
| st_gone: "heap s ref = Some h \<Longrightarrow> phase h = Ended \<Longrightarrow> map_of (rooms (man s)) (hid h) \<noteq> Some ref \<Longrightarrow>
    sys_step es s (put_hosted ref (h\<lparr>phase := Gone\<rparr>) s)"
| st_push: "heap s ref = Some h \<Longrightarrow> cmd \<noteq> CmdCloseDeleted \<Longrightarrow>
    sys_step es s (push_command ref cmd NoCaller h (s\<lparr>unsignalled := u\<rparr>))"
| st_delete: "deletions s d = None \<Longrightarrow> sys_step es s (put_deletion d \<lparr>delID = did, delPC = Marking expires\<rparr> s)"
| st_marked: "deletions s d = Some t \<Longrightarrow> delPC t = Marking expires \<Longrightarrow> live = map_of (rooms (man s)) (delID t) \<Longrightarrow>
    p = (case live of Some ref \<Rightarrow> Found ref | None \<Rightarrow> Returned None) \<Longrightarrow>
    sys_step es s (note_ev (HDeleted d (delID t) live) (put_deletion d (t\<lparr>delPC := p\<rparr>)
      (s\<lparr>man := (man s)\<lparr>deleteEpoch := deleteEpoch (man s) + 1, deleteTombstones := (deleteTombstones (man s))(delID t \<mapsto> expires)\<rparr>,
         timers := timers s @ [(delID t, expires)]\<rparr>)))"
| st_del_select: "deletions s d = Some t \<Longrightarrow> delPC t = Found ref \<Longrightarrow> sys_step es s (put_deletion d (t\<lparr>delPC := DelSelecting ref\<rparr>) s)"
| st_del_await: "deletions s d = Some t \<Longrightarrow> delPC t = DelSelecting ref \<Longrightarrow> heap s ref = Some h \<Longrightarrow>
    sys_step es s (put_deletion d (t\<lparr>delPC := DelAwaiting ref\<rparr>) (push_command ref CmdCloseDeleted (DeleteCaller d) h s))"
| st_del_failed: "deletions s d = Some t \<Longrightarrow> delPC t \<in> {DelSelecting ref, DelAwaiting ref} \<Longrightarrow>
    sys_step es s (put_deletion d (t\<lparr>delPC := Returned (Some err)\<rparr>) s)"
| st_del_gone: "deletions s d = Some t \<Longrightarrow> delPC t \<in> {Found ref, DelSelecting ref, DelAwaiting ref} \<Longrightarrow> heap s ref = Some h \<Longrightarrow>
    lc (hroom h) \<noteq> stateActive \<or> doneClosed (hroom h) \<Longrightarrow>
    sys_step es s (put_deletion d (t\<lparr>delPC := Returned None\<rparr>) s)"
| st_del_ack: "deletions s d = Some t \<Longrightarrow> delPC t = DelAwaiting ref \<Longrightarrow> answers s (DeleteCaller d) = Some rep \<Longrightarrow>
    sys_step es s (put_deletion d (t\<lparr>delPC := Returned None\<rparr>) s)"
| st_close: "draining s = None \<Longrightarrow>
    sys_step es s (s\<lparr>man := (man s)\<lparr>isClosed := True\<rparr>, draining := Some (map snd (rooms (man s))),
      unsignalled := map snd (rooms (man s)), closeDeadline := dl\<rparr>)"
| st_drained: "draining s = Some refs \<Longrightarrow>
    list_all (\<lambda>ref. case heap s ref of Some h \<Rightarrow> doneClosed (hroom h) | None \<Rightarrow> False) refs \<Longrightarrow>
    sys_step es s (s\<lparr>closeOutcome := Some False\<rparr>)"
| st_expired: "sys_step es s (s\<lparr>closeOutcome := Some True\<rparr>)"
| st_misc: "same_registry (man s) m \<Longrightarrow> sys_step es s (s\<lparr>man := m, timers := ts, now := n, unsignalled := u\<rparr>)"

lemma same_registry_refl [simp]: "same_registry m m"
  by (simp add: same_registry_def)

lemma st_capture_same: "joins s j = Some t \<Longrightarrow> pc t = Gating \<Longrightarrow>
    sys_step es s (note_ev (HCaptured j) (put_join j (t\<lparr>joinEpoch := deleteEpoch (man s), pc := Requiring\<rparr>) s))"
  using st_capture [of s j t "man s"] by simp

lemma st_retry_or_fail:
  assumes "joins s j = Some t" "pc t \<in> {Enqueueing ref, Selecting ref, Awaiting ref}"
  shows "sys_step es s (put_join j (next_attempt t) s)"
proof -
  have "settled_pc (pc t)" using assms(2) by auto
  then show ?thesis using assms unfolding next_attempt_def by (simp only: split: if_split) (blast intro: st_fail st_retry)
qed

lemma st_push_same: "heap s ref = Some h \<Longrightarrow> cmd \<noteq> CmdCloseDeleted \<Longrightarrow> sys_step es s (push_command ref cmd NoCaller h s)"
  using st_push [of s ref h cmd es "unsignalled s"] by simp

lemma st_misc_u: "sys_step es s (s\<lparr>unsignalled := u\<rparr>)"
  using st_misc [where s = s and m = "man s" and ts = "timers s" and n = "now s" and u = u] by simp

lemma st_misc_now: "sys_step es s (s\<lparr>now := n\<rparr>)"
  using st_misc [where s = s and m = "man s" and ts = "timers s" and n = n and u = "unsignalled s"] by simp

lemma st_misc_timer: "same_registry (man s) m \<Longrightarrow> sys_step es s (s\<lparr>man := m, timers := ts\<rparr>)"
  using st_misc [where s = s and m = m and ts = ts and n = "now s" and u = "unsignalled s"] by simp

lemma st_misc_ts: "sys_step es s (s\<lparr>timers := ts\<rparr>)"
  using st_misc_timer [of s "man s" es ts] by simp

lemmas join_pc_splits = option.splits if_splits join_pc.splits sum.splits

lemma perform_join_sys_step:
  assumes "the_join j f s = Some s'"
    "f \<in> {join_authorize j ev, join_capture j, join_require j ld, join_acquire j, flight_lookup j,
       flight_materialize es j ld cp acq sub, flight_register es j, flight_open j, join_admit j how,
       join_enqueue j, join_select j how, join_receive j, join_room_done j}"
  shows "sys_step es s s'"
proof -
  obtain t where t: "joins s j = Some t" "f t s = Some s'" using assms(1) by (auto simp: the_join_def split: option.splits)
  note st = st_authorize st_fail st_capture st_capture_same st_require st_follow st_lead st_found st_flight_failed st_absent
    st_built hosted_ok_new st_aborted st_register st_open st_stale st_acquired st_selecting st_await st_joined
  consider "f = join_authorize j ev" | "f = join_capture j" | "f = join_require j ld" | "f = join_acquire j"
    | "f = flight_lookup j" | "f = flight_materialize es j ld cp acq sub" | "f = flight_register es j" | "f = flight_open j"
    | "f = join_admit j how" | "f = join_enqueue j" | "f = join_select j how" | "f = join_receive j" | "f = join_room_done j"
    using assms(2) by blast
  then show ?thesis
  proof cases
    case 2
    then show ?thesis
      using t by (auto simp: join_capture_def join_gate_def same_registry_def intro!: st split: option.splits if_splits)
  next
    case 10
    then show ?thesis using t st_retry_or_fail [OF t(1)]
      by (auto simp: join_enqueue_def intro!: st_selecting split: join_pc_splits)
  next
    case 11
    then show ?thesis using t st_retry_or_fail [OF t(1)]
      by (auto simp: join_select_def intro!: st_await split: join_pc_splits)
  next
    case 12
    then show ?thesis using t
      by (auto simp: join_receive_def intro!: st_fail st_joined split: join_pc_splits reply.splits)
  next
    case 13
    then show ?thesis using t st_retry_or_fail [OF t(1)]
      by (auto simp: join_room_done_def split: join_pc_splits)
  qed (use t in \<open>auto simp: join_authorize_def join_require_def join_acquire_def flight_lookup_def acquire_lookup_def
      flight_materialize_def Let_def flight_register_def acquire_register_def flight_open_def join_admit_def
      acquire_stale_def intro!: st split: join_pc_splits\<close>)
qed

lemma perform_deletion_sys_step:
  assumes "the_deletion d f s = Some s'"
    "f \<in> {delete_mark d, delete_enqueue d, delete_select d how ctx, delete_receive d, delete_room_done d, delete_timeout d}"
  shows "sys_step es s s'"
proof -
  obtain t where t: "deletions s d = Some t" "f t s = Some s'" using assms(1) by (auto simp: the_deletion_def split: option.splits)
  show ?thesis
  proof (cases "f = delete_mark d")
    case True
    then show ?thesis using t by (auto simp: delete_mark_def closeDeleted_mark_def intro: st_marked split: delete_pc.splits)
  next
    case False
    then show ?thesis
      using assms(2) t
      by (auto simp: delete_enqueue_def delete_select_def delete_receive_def delete_room_done_def delete_timeout_def
          intro: st_del_select st_del_await st_del_failed st_del_gone st_del_ack
          split: option.splits if_splits delete_pc.splits reply.splits)
  qed
qed

lemma perform_sys_step:
  assumes "perform es a s = Some s'"
  shows "sys_step es s s'"
proof (cases a)
  case (ACommand ref)
  then show ?thesis using assms
    by (auto simp: room_command_def Let_def intro!: st_command st_answer split: option.splits list.splits if_splits)
next
  case (AEvent ref ev)
  then show ?thesis using assms by (auto simp: room_event_def intro!: st_event split: option.splits if_splits)
next
  case (AReleased ref)
  then show ?thesis using assms
    by (auto simp: room_released_def mgr_remove_def Let_def intro!: st_removed st_gone split: option.splits if_splits)
next
  case (ASession ref cmd)
  then show ?thesis using assms
    by (auto simp: session_command_def intro!: st_push_same split: option.splits command.splits)
next
  case (ACloseSignal ref how)
  then show ?thesis using assms
    by (auto simp: close_signal_def Let_def intro!: st_push st_misc_u split: option.splits if_splits)
next
  case (AJoin j did ct ident cn)
  then show ?thesis using assms by (auto simp: join_begin_def intro!: st_begin split: option.splits)
next
  case (ADelete d did)
  then show ?thesis using assms by (auto simp: delete_begin_def intro!: st_delete split: option.splits)
qed (use assms in \<open>auto simp: timer_fire_def tombstone_timer_def same_registry_def close_start_def close_begin_def
    close_drained_def close_expired_def intro: st_misc_timer st_misc_ts st_misc_now st_close st_drained st_expired
      perform_join_sys_step perform_deletion_sys_step split: option.splits if_splits\<close>)

section \<open>Invariants of the system\<close>

text \<open>
  \<open>sys_inv\<close> is the rule for an invariant of the transition system that may rest on another one
  already established.
\<close>

locale sys_inv =
  fixes es :: "room_ref \<Rightarrow> ('d, 'a) env" and c :: roomConfig
    and J :: "('d, 'a) sys \<Rightarrow> bool" and I :: "('d, 'a) sys \<Rightarrow> bool"
  assumes base: "reachable es c s \<Longrightarrow> J s"
    and init: "I (initial_sys c t)"
    and step: "J s \<Longrightarrow> J s' \<Longrightarrow> I s \<Longrightarrow> sys_step es s s' \<Longrightarrow> I s'"
begin

lemma holds: "reachable es c s \<Longrightarrow> I s"
proof (induction rule: reachable.induct)
  case (reach_step s a s')
  then show ?case using base step reachable.reach_step perform_sys_step by blast
qed (rule init)

lemma both: "reachable es c s \<Longrightarrow> J s \<and> I s"
  using holds base by blast

end

section \<open>Well-formedness is kept\<close>

lemmas wf_defs = sys_wf_def heap_wf_def rooms_wf_def joins_wf_def join_wf_def flights_wf_def alive_wf_def

lemma hosted_ok_queue [simp]: "hosted_ok e (h\<lparr>queue := q\<rparr>) = hosted_ok e h"
  by (simp add: hosted_ok_def alive_def)

lemma alive_simps [simp]: "alive (h\<lparr>queue := q\<rparr>) = alive h" "phase h = Ended \<Longrightarrow> \<not> alive h"
  "phase h = NotStarted \<Longrightarrow> alive h" "phase h = Running \<Longrightarrow> alive h" "\<not> alive (h\<lparr>phase := Gone\<rparr>)" "\<not> alive (h\<lparr>phase := Ended\<rparr>)"
  by (simp_all add: alive_def)

lemma sys_wfD:
  assumes "sys_wf es s" "joins s j = Some t"
  shows "pc_ref (pc t) = Some ref \<Longrightarrow> \<exists>h. heap s ref = Some h \<and> hid h = joinID t"
    "pc_ref (pc t) = Some ref \<Longrightarrow> heap s ref = Some h \<Longrightarrow> hid h = joinID t"
    "leader_pc (pc t) \<Longrightarrow> flightOf s (joinID t) = Some j"
    "pc t = Following k \<Longrightarrow> flightOf s (joinID t) = Some k"
    "unregistered_pc (pc t) \<Longrightarrow> map_of (rooms (man s)) (joinID t) = None"
    "pc t = Built ref \<Longrightarrow> heap s ref = Some h \<Longrightarrow> phase h = NotStarted"
    "pc t = Opening ref \<Longrightarrow> heap s ref = Some h \<Longrightarrow> phase h = NotStarted"
    "pc t = Opening ref \<Longrightarrow> map_of (rooms (man s)) (joinID t) = Some ref"
proof -
  have wf: "join_wf j t s" using assms by (auto simp: sys_wf_def joins_wf_def)
  then show "pc_ref (pc t) = Some ref \<Longrightarrow> \<exists>h. heap s ref = Some h \<and> hid h = joinID t"
    "leader_pc (pc t) \<Longrightarrow> flightOf s (joinID t) = Some j"
    "pc t = Following k \<Longrightarrow> flightOf s (joinID t) = Some k"
    "unregistered_pc (pc t) \<Longrightarrow> map_of (rooms (man s)) (joinID t) = None"
    "pc t = Built ref \<Longrightarrow> heap s ref = Some h \<Longrightarrow> phase h = NotStarted"
    "pc t = Opening ref \<Longrightarrow> heap s ref = Some h \<Longrightarrow> phase h = NotStarted"
    unfolding join_wf_def by blast+
  show "pc_ref (pc t) = Some ref \<Longrightarrow> heap s ref = Some h \<Longrightarrow> hid h = joinID t"
    using wf unfolding join_wf_def by fastforce
  show "pc t = Opening ref \<Longrightarrow> map_of (rooms (man s)) (joinID t) = Some ref"
    using wf unfolding join_wf_def by (cases "heap s ref") auto
qed

lemma heap_wf_step:
  assumes "sys_step es s s'" "sys_wf es s"
  shows "heap_wf es s'"
proof -
  have free: "\<And>ref. nextRef s \<le> ref \<Longrightarrow> heap s ref = None"
    and ok: "\<And>ref h. heap s ref = Some h \<Longrightarrow> hosted_ok (es ref) h"
    using assms(2) by (auto simp: sys_wf_def heap_wf_def)
  have old: "ref < nextRef s" if "heap s ref = Some h" for ref h
    using free [of ref] that by (cases "nextRef s \<le> ref") auto
  have same: "heap_wf es s'" if "heap s' = heap s" "nextRef s' = nextRef s"
    using that free ok by (simp add: heap_wf_def)
  have upd: "heap_wf es s'" if "heap s ref = Some h0" "hosted_ok (es ref) h" "heap s' = (heap s)(ref \<mapsto> h)" "nextRef s' = nextRef s" for ref h0 h
    using that free ok old [OF that(1)] by (auto simp: heap_wf_def)
  show ?thesis
    using assms(1)
  proof cases
    case (st_built j t h)
    then show ?thesis using free ok by (auto simp: heap_wf_def update_defs)
  next
    case (st_aborted j t ref h err)
    moreover have "phase h = NotStarted" using sys_wfD(6) [OF assms(2) st_aborted(2-4)] .
    ultimately show ?thesis using ok
      by (intro upd [OF st_aborted(4) hosted_ok_teardown]) (auto simp: update_defs)
  next
    case (st_open j t ref h)
    moreover have "phase h = NotStarted" using sys_wfD(7) [OF assms(2) st_open(2-4)] .
    ultimately have "hosted_ok (es ref) (h\<lparr>phase := Running\<rparr>)" using ok [of ref h] by (simp add: hosted_ok_def alive_def)
    with st_open show ?thesis by (intro upd [OF st_open(4)]) (auto simp: update_defs)
  next
    case (st_command ref h cmd who rest)
    have "hosted_ok (es ref) (h\<lparr>queue := rest\<rparr>)" using ok st_command by simp
    from hosted_ok_loop [OF this, of "LCommand cmd"] st_command show ?thesis
      by (intro upd [OF st_command(2)]) (auto simp: update_defs ready_def)
  next
    case (st_answer ref h cmd who rest rep)
    have "hosted_ok (es ref) (h\<lparr>queue := rest\<rparr>)" using ok st_answer by simp
    from hosted_ok_loop [OF this, of "LCommand cmd"] st_answer show ?thesis
      by (intro upd [OF st_answer(2)]) (auto simp: update_defs ready_def)
  next
    case (st_event ref h ev)
    from hosted_ok_loop [OF ok [OF st_event(2)]] st_event show ?thesis
      by (intro upd [OF st_event(2)]) (auto simp: update_defs)
  next
    case (st_removed ref h)
    have "hosted_ok (es ref) (h\<lparr>phase := Gone\<rparr>)" using ok [OF st_removed(2)] st_removed by (simp add: hosted_ok_def)
    with st_removed show ?thesis by (intro upd [OF st_removed(2)]) (auto simp: update_defs)
  next
    case (st_gone ref h)
    have "hosted_ok (es ref) (h\<lparr>phase := Gone\<rparr>)" using ok [OF st_gone(2)] st_gone by (simp add: hosted_ok_def)
    with st_gone show ?thesis by (intro upd [OF st_gone(2)]) (auto simp: update_defs)
  next
    case (st_stale j t ref h err)
    then show ?thesis using ok by (intro upd [OF st_stale(4)]) (auto simp: update_defs)
  next
    case (st_await j t ref h)
    then show ?thesis using ok by (intro upd [OF st_await(4)]) (auto simp: update_defs)
  next
    case (st_push ref h cmd u)
    then show ?thesis using ok by (intro upd [OF st_push(2)]) (auto simp: update_defs)
  next
    case (st_del_await d t ref h)
    then show ?thesis using ok by (intro upd [OF st_del_await(4)]) (auto simp: update_defs)
  qed (rule same; simp add: update_defs)+
qed

text \<open>Rooms stay in the heap, keep their document, never come back to life, and never un-start.\<close>

lemma heap_step:
  assumes "sys_step es s s'" "sys_wf es s" "heap s ref = Some h"
  obtains h' where "heap s' ref = Some h'" "hid h' = hid h" "alive h' \<Longrightarrow> alive h"
    "phase h \<noteq> NotStarted \<Longrightarrow> phase h' \<noteq> NotStarted"
proof -
  have "heap s (nextRef s) = None" using assms(2) by (simp add: sys_wf_def heap_wf_def)
  then have new: "ref \<noteq> nextRef s" using assms(3) by auto
  have "\<exists>h'. heap s' ref = Some h' \<and> hid h' = hid h \<and> (alive h' \<longrightarrow> alive h) \<and> (phase h \<noteq> NotStarted \<longrightarrow> phase h' \<noteq> NotStarted)"
    using assms(1)
  proof cases
    case (st_open j t ref' h')
    moreover have "phase h' = NotStarted" using sys_wfD(7) [OF assms(2) st_open(2-4)] .
    ultimately show ?thesis using assms(3) by (auto simp: update_defs)
  qed (use assms(3) new in \<open>auto simp: update_defs\<close>)
  then show thesis using that by blast
qed

lemma rooms_wf_step:
  assumes "sys_step es s s'" "sys_wf es s"
  shows "rooms_wf s'"
proof -
  have wf: "distinct (keys (rooms (man s)))"
    and reg: "\<And>did ref. map_of (rooms (man s)) did = Some ref \<Longrightarrow> \<exists>h. heap s ref = Some h \<and> hid h = did"
    using assms(2) by (auto simp: sys_wf_def rooms_wf_def)
  have keep: "\<exists>h'. heap s' ref = Some h' \<and> hid h' = did" if "heap s ref = Some h" "hid h = did" for ref h did
    using heap_step [OF assms that(1)] that(2) by blast
  have same: "rooms_wf s'" if "rooms (man s') = rooms (man s)"
    using that wf reg keep by (auto simp: rooms_wf_def) (metis reg)
  show ?thesis
    using assms(1)
  proof cases
    case (st_register j t ref h)
    have "hid h = joinID t" using sys_wfD(2) [OF assms(2) st_register(2), of ref h] st_register by simp
    then show ?thesis using st_register wf reg keep
      by (auto simp: rooms_wf_def update_defs distinct_keys_update) 
  next
    case (st_removed ref h)
    then have s': "rooms (man s') = AList.delete (hid h) (rooms (man s))" by (simp add: update_defs)
    then have "map_of (rooms (man s)) did = Some ref'" if "map_of (rooms (man s')) did = Some ref'" for did ref'
      using that by (simp split: if_splits)
    with wf reg keep s' show ?thesis unfolding rooms_wf_def by (metis distinct_keys_delete)
  qed (rule same; simp add: update_defs same_registry_def)+
qed

lemma alive_wf_step:
  assumes "sys_step es s s'" "sys_wf es s"
  shows "alive_wf s'"
  unfolding alive_wf_def
proof (intro allI impI)
  fix ref h' assume h': "heap s' ref = Some h'" "alive h'"
  show "map_of (rooms (man s')) (hid h') = Some ref \<or> (\<exists>j t. joins s' j = Some t \<and> pc t = Built ref)"
  proof (cases "heap s ref")
    case None
    from assms(1) show ?thesis by cases (use None h' in \<open>auto simp: update_defs split: if_splits\<close>)
  next
    case (Some h)
    with heap_step [OF assms] h' have h: "hid h' = hid h" "alive h" by (metis option.inject)+
    then consider "map_of (rooms (man s)) (hid h) = Some ref" | j t where "joins s j = Some t" "pc t = Built ref"
      using assms(2) Some unfolding sys_wf_def alive_wf_def by blast
    then show ?thesis
    proof cases
      case 1
      have "map_of (rooms (man s')) (hid h') = Some ref"
        using assms(1)
      proof cases
        case (st_register j t ref' h'')
        then show ?thesis using 1 h sys_wfD(5) [OF assms(2) st_register(2)] by (auto simp: update_defs)
      next
        case (st_removed ref' h'')
        then show ?thesis using 1 h h' Some by (auto simp: update_defs)
      qed (use 1 h in \<open>simp_all add: update_defs same_registry_def\<close>)
      then show ?thesis ..
    next
      case (2 j t)
      have built: ?thesis if "joins s' j = Some t" using that 2(2) by blast
      from assms(1) show ?thesis
      proof cases
        case (st_register j' t' ref' h'')
        then show ?thesis using 2 h sys_wfD(2) [OF assms(2) 2(1), of ref h] Some
          by (cases "j = j'") (auto simp: update_defs)
      next
        case (st_aborted j' t' ref' h'' err)
        show ?thesis
        proof (cases "j = j'")
          case True
          then show ?thesis using st_aborted 2 h' by (auto simp: update_defs)
        next
          case False
          then show ?thesis using st_aborted 2 by (intro built) (simp add: update_defs)
        qed
      qed (rule built; use 2 in \<open>auto simp: update_defs\<close>)+
    qed
  qed
qed

lemma join_wf_settled:
  assumes "settled_pc (pc t)" "\<And>ref. pc_ref (pc t) = Some ref \<Longrightarrow> \<exists>h. heap s ref = Some h \<and> hid h = joinID t"
  shows "join_wf j t s"
  using assms by (cases "pc t") (auto simp: join_wf_def)

lemma flight_alone:
  assumes "sys_wf es s" "joins s j = Some t" "leader_pc (pc t)" "joins s k = Some u" "joinID u = joinID t"
    "leader_pc (pc u) \<or> pc u = Following i"
  shows "k = j \<or> pc u = Following j"
  using sys_wfD(3) [OF assms(1,2,3)] sys_wfD(3) [OF assms(1,4)] sys_wfD(4) [OF assms(1,4), of i] assms(5,6) by auto

lemma flights_wf_step:
  assumes "sys_step es s s'" "sys_wf es s"
  shows "flights_wf s'"
proof -
  have wf: "\<exists>t. joins s j = Some t \<and> joinID t = did" if "flightOf s did = Some j" for did j
    using assms(2) that by (auto simp: sys_wf_def flights_wf_def)
  have same: "flights_wf s'"
    if "\<And>did i. flightOf s' did = Some i \<Longrightarrow> flightOf s did = Some i \<or> (\<exists>t. joins s i = Some t \<and> joinID t = did)"
      "\<And>i t. joins s i = Some t \<Longrightarrow> \<exists>t'. joins s' i = Some t' \<and> joinID t' = joinID t"
    unfolding flights_wf_def using that wf by metis
  from assms(1) show ?thesis
    by cases (rule same; auto simp: update_defs split: if_splits)+
qed

lemma following_same:
  assumes "sys_wf es s" "joins s j = Some t" "joins s k = Some u" "pc u = Following j"
  shows "joinID u = joinID t"
  using sys_wfD(4) [OF assms(1,3,4)] assms(1,2) by (fastforce simp: sys_wf_def flights_wf_def)

lemma heap_keep:
  assumes "sys_step es s s'" "sys_wf es s" "heap s ref = Some h" "hid h = did"
  shows "\<exists>h'. heap s' ref = Some h' \<and> hid h' = did"
  using heap_step [OF assms(1-3)] assms(4) by blast

lemma join_wf_frame:
  assumes step: "sys_step es s s'" "sys_wf es s" and u: "joins s k = Some u"
    and flight: "\<not> settled_pc (pc u) \<Longrightarrow> flightOf s' (joinID u) = flightOf s (joinID u)"
    and registry: "leader_pc (pc u) \<Longrightarrow> pc u \<noteq> Leading \<Longrightarrow> map_of (rooms (man s')) (joinID u) = map_of (rooms (man s)) (joinID u)"
    and phases: "\<And>ref h. pc u = Built ref \<or> pc u = Opening ref \<Longrightarrow> heap s ref = Some h \<Longrightarrow> phase h = NotStarted \<Longrightarrow>
      \<exists>h'. heap s' ref = Some h' \<and> phase h' = NotStarted"
  shows "join_wf k u s'"
proof (cases "settled_pc (pc u)")
  case True
  then show ?thesis using sys_wfD(1) [OF step(2) u] heap_keep [OF step] by (intro join_wf_settled) blast+
next
  case False
  have refs: "\<exists>h. heap s' ref = Some h \<and> hid h = joinID u" if "pc_ref (pc u) = Some ref" for ref
    using sys_wfD(1) [OF step(2) u that] heap_keep [OF step] by blast
  have started: "phase h' = NotStarted" if "pc u = Built ref \<or> pc u = Opening ref" "heap s' ref = Some h'" for ref h'
  proof -
    have "pc_ref (pc u) = Some ref" using that(1) by auto
    then obtain h where "heap s ref = Some h" using sys_wfD(1) [OF step(2) u] by blast
    moreover from this have "phase h = NotStarted" using that(1) sys_wfD(6,7) [OF step(2) u] by blast
    ultimately show ?thesis using phases [OF that(1)] that(2) by fastforce
  qed
  from False refs started show ?thesis
    using flight registry sys_wfD(3,4,5,8) [OF step(2) u] unfolding join_wf_def by (cases "pc u") simp_all
qed

lemma join_wf_quiet:
  assumes step: "sys_step es s s'" "sys_wf es s"
    and u: "joins s k = Some u \<or> settled_pc (pc u) \<and>
      (\<forall>ref. pc_ref (pc u) = Some ref \<longrightarrow> (\<exists>v. joins s k = Some v \<and> joinID v = joinID u \<and> pc_ref (pc v) = Some ref))"
    and same: "flightOf s' = flightOf s" "rooms (man s') = rooms (man s)"
      "\<And>ref h. heap s ref = Some h \<Longrightarrow> phase h = NotStarted \<Longrightarrow> \<exists>h'. heap s' ref = Some h' \<and> phase h' = NotStarted"
  shows "join_wf k u s'"
proof (cases "joins s k = Some u")
  case True
  show ?thesis by (rule join_wf_frame [OF step True]) (auto simp: same)
next
  case False
  then show ?thesis using u heap_keep [OF step] sys_wfD(1) [OF step(2)] by (intro join_wf_settled) metis+
qed

lemma join_wf_ended:
  assumes step: "sys_step es s s'" "sys_wf es s" and j: "joins s j = Some t" "leader_pc (pc t)"
    and s': "joins s' = joins (end_flight j (joinID t) res s)" "flightOf s' = (flightOf s)(joinID t := None)"
      "rooms (man s') = rooms (man s)"
    and ref: "\<And>ref. res = Inr ref \<Longrightarrow> \<exists>h. heap s ref = Some h \<and> hid h = joinID t"
    and phases: "\<And>ref h i v. joins s i = Some v \<Longrightarrow> leader_pc (pc v) \<Longrightarrow> pc_ref (pc v) = Some ref \<Longrightarrow> i \<noteq> j \<Longrightarrow>
      heap s ref = Some h \<Longrightarrow> phase h = NotStarted \<Longrightarrow> \<exists>h'. heap s' ref = Some h' \<and> phase h' = NotStarted"
    and u: "joins s' k = Some u"
  shows "join_wf k u s'"
proof -
  obtain v where v: "joins s k = Some v"
    and u': "u = (if k = j \<or> pc v = Following j then v\<lparr>pc := Got res\<rparr> else v)"
    using u s'(1) by (auto simp: end_flight_def split: option.splits if_splits)
  show ?thesis
  proof (cases "k = j \<or> pc v = Following j")
    case True
    then have did: "joinID v = joinID t" using following_same [OF step(2) j(1) v] j(1) v by auto
    show ?thesis
    proof (rule join_wf_settled)
      show "settled_pc (pc u)" using True u' by simp
      show "\<exists>h. heap s' ref = Some h \<and> hid h = joinID u" if "pc_ref (pc u) = Some ref" for ref
        using that True u' did ref [of ref] heap_keep [OF step] by (cases res) auto
    qed
  next
    case False
    then have v: "joins s k = Some u" using v u' by simp
    have other: "joinID u \<noteq> joinID t" if "\<not> settled_pc (pc u)"
    proof (cases "pc u")
      case (Following i)
      then show ?thesis using flight_alone [OF step(2) j v, of i] False u' by auto
    qed (use that flight_alone [OF step(2) j v, of 0] False in auto)
    show ?thesis
    proof (rule join_wf_frame [OF step v])
      show "flightOf s' (joinID u) = flightOf s (joinID u)" if "\<not> settled_pc (pc u)" using other [OF that] s'(2) by simp
      show "\<exists>h'. heap s' ref = Some h' \<and> phase h' = NotStarted"
        if "pc u = Built ref \<or> pc u = Opening ref" "heap s ref = Some h" "phase h = NotStarted" for ref h
        using phases [OF v _ _ _ that(2,3)] that(1) False by auto
    qed (simp add: s'(3))
  qed
qed

lemma joins_wf_step:
  assumes "sys_step es s s'" "sys_wf es s"
  shows "joins_wf s'"
  unfolding joins_wf_def
proof (intro allI impI)
  fix k u assume u: "joins s' k = Some u"
  note wf = sys_wfD [OF assms(2)] and frame = join_wf_frame [OF assms] and quiet = join_wf_quiet [OF assms]
    and ended = join_wf_ended [OF assms _ _ _ _ _ _ _ u]
  show "join_wf k u s'"
    using assms(1)
  proof cases
    case (st_follow j t i)
    show ?thesis
    proof (cases "k = j")
      case True
      then show ?thesis using st_follow u by (auto simp: update_defs join_wf_def)
    next
      case False
      then show ?thesis by (intro quiet) (use st_follow u in \<open>auto simp: update_defs\<close>)
    qed
  next
    case (st_lead j t)
    show ?thesis
    proof (cases "k = j")
      case True
      then show ?thesis using st_lead u by (auto simp: update_defs join_wf_def)
    next
      case False
      then have v: "joins s k = Some u" using st_lead u by (simp add: update_defs)
      then have "joinID u \<noteq> joinID t" if "\<not> settled_pc (pc u)"
        using that wf(3,4) [OF v] st_lead(4) by (cases "pc u") auto
      then show ?thesis using st_lead by (intro frame [OF v]) (auto simp: update_defs)
    qed
  next
    case (st_found j t ref)
    have "\<exists>h. heap s ref = Some h \<and> hid h = joinID t" using st_found(4) assms(2) by (auto simp: sys_wf_def rooms_wf_def)
    then show ?thesis using st_found by (intro ended [of j t "Inr ref"]) (auto simp: update_defs)
  next
    case (st_flight_failed j t err)
    then show ?thesis by (intro ended [of j t "Inl err"]) (auto simp: update_defs)
  next
    case (st_absent j t)
    show ?thesis
    proof (cases "k = j")
      case True
      then show ?thesis using st_absent u wf(3) [OF st_absent(2)] by (auto simp: update_defs join_wf_def)
    next
      case False
      then show ?thesis by (intro quiet) (use st_absent u in \<open>auto simp: update_defs\<close>)
    qed
  next
    case (st_built j t h)
    have "heap s (nextRef s) = None" using assms(2) by (simp add: sys_wf_def heap_wf_def)
    show ?thesis
    proof (cases "k = j")
      case True
      then show ?thesis using st_built u wf(3,5) [OF st_built(2)] by (auto simp: update_defs join_wf_def)
    next
      case False
      then show ?thesis by (intro quiet) (use st_built u \<open>heap s (nextRef s) = None\<close> in \<open>auto simp: update_defs\<close>)
    qed
  next
    case (st_aborted j t ref h err)
    have "ref' \<noteq> ref" if "joins s i = Some v" "leader_pc (pc v)" "pc_ref (pc v) = Some ref'" "i \<noteq> j" for i v ref'
      using flight_alone [OF assms(2) st_aborted(2) _ that(1), of 0] wf(2) [OF that(1,3)] wf(2) [OF st_aborted(2), of ref h]
        st_aborted that by auto
    then show ?thesis using st_aborted by (intro ended [of j t "Inl err"]) (auto simp: update_defs)
  next
    case (st_register j t ref h)
    show ?thesis
    proof (cases "k = j")
      case True
      then show ?thesis using st_register u wf(2,3,6) [OF st_register(2)] by (auto simp: update_defs join_wf_def)
    next
      case False
      then have v: "joins s k = Some u" using st_register u by (simp add: update_defs)
      have "joinID u \<noteq> joinID t" if "leader_pc (pc u)"
        using flight_alone [OF assms(2) st_register(2) _ v, of 0] that False st_register by auto
      then show ?thesis using st_register by (intro frame [OF v]) (auto simp: update_defs)
    qed
  next
    case (st_open j t ref h)
    have "ref' \<noteq> ref" if "joins s i = Some v" "leader_pc (pc v)" "pc_ref (pc v) = Some ref'" "i \<noteq> j" for i v ref'
      using flight_alone [OF assms(2) st_open(2) _ that(1), of 0] wf(2) [OF that(1,3)] wf(2) [OF st_open(2), of ref h]
        st_open that by auto
    then show ?thesis using st_open wf(2) [OF st_open(2), of ref h] by (intro ended [of j t "Inr ref"]) (auto simp: update_defs)
  next
    case (st_removed ref h)
    show ?thesis
    proof (rule frame)
      show v: "joins s k = Some u" using st_removed u by (simp add: update_defs)
      show "map_of (rooms (man s')) (joinID u) = map_of (rooms (man s)) (joinID u)" if "leader_pc (pc u)" "pc u \<noteq> Leading"
        using that st_removed wf(5,7,8) [OF v] by (cases "pc u") (auto simp: update_defs)
    qed (use st_removed in \<open>auto simp: update_defs\<close>)
  qed (rule quiet; use u in \<open>auto simp: update_defs same_registry_def split: if_splits\<close>)+
qed

lemma sys_wf_step: "sys_step es s s' \<Longrightarrow> sys_wf es s \<Longrightarrow> sys_wf es s'"
  using heap_wf_step rooms_wf_step joins_wf_step flights_wf_step alive_wf_step unfolding sys_wf_def by blast

interpretation wf: sys_inv es c "\<lambda>_. True" "sys_wf es" for es :: "room_ref \<Rightarrow> ('d, 'a) env" and c
proof unfold_locales
  show "sys_wf es (initial_sys c t)" for t by (simp add: wf_defs initial_sys_def NewManager_def)
qed (auto intro: sys_wf_step)

end
