(* ===== verification/ManagerProperties.thy ===== *)
theory ManagerProperties
  imports ManagerSafety
begin

text \<open>
  What the registry guarantees in every interleaving: one live room per document, no admission and
  no registration across an owner's delete, nothing served after a confirmed delete, a balanced
  room gauge, and a shutdown that misses no room. The history invariants are interpretations of
  \<open>sys_inv\<close> over the well-formedness of the system.
\<close>

section \<open>Histories\<close>

fun is_deleted :: "sys_event \<Rightarrow> bool" where
  "is_deleted (HDeleted _ _ _) = True"
| "is_deleted _ = False"

definition deletes :: "sys_event list \<Rightarrow> nat" where
  "deletes h = length (filter is_deleted h)"

lemma deletes_simps [simp]: "deletes [] = 0" "deletes (xs @ ys) = deletes xs + deletes ys"
  "deletes (ev # xs) = (if is_deleted ev then 1 else 0) + deletes xs"
  by (simp_all add: deletes_def)

text \<open>Every event of a history is justified by what came before it.\<close>

definition justified :: "(sys_event list \<Rightarrow> sys_event \<Rightarrow> bool) \<Rightarrow> sys_event list \<Rightarrow> bool" where
  "justified P h \<longleftrightarrow> (\<forall>xs ev ys. h = xs @ ev # ys \<longrightarrow> P xs ev)"

lemma justified_Nil [simp]: "justified P []"
  by (simp add: justified_def)

lemma justified_snoc [simp]: "justified P (h @ [ev]) \<longleftrightarrow> justified P h \<and> P h ev"
proof
  assume j: "justified P (h @ [ev])"
  have "P xs x" if "h = xs @ x # ys" for xs x ys
    using j that unfolding justified_def by (metis append_Cons append_assoc)
  moreover have "P h ev" using j unfolding justified_def by blast
  ultimately show "justified P h \<and> P h ev" unfolding justified_def by blast
next
  assume j: "justified P h \<and> P h ev"
  have "P xs x" if "h @ [ev] = xs @ x # ys" for xs x ys
  proof (cases ys rule: rev_cases)
    case Nil
    then show ?thesis using that j by simp
  next
    case (snoc zs z)
    then have "h = xs @ x # zs" using that by simp
    then show ?thesis using j unfolding justified_def by blast
  qed
  then show "justified P (h @ [ev])" unfolding justified_def by blast
qed

text \<open>A join is fresh at some point when it read that the document exists and no delete has been
  marked since it captured the epoch for that read.\<close>

definition fresh :: "sys_event list \<Rightarrow> nat \<Rightarrow> bool" where
  "fresh h j \<longleftrightarrow> (\<exists>a b. h = a @ HCaptured j # b \<and> HAuthorized j \<in> set a \<and> HExists j \<in> set b \<and> deletes b = 0)"

fun event_ok :: "sys_event list \<Rightarrow> sys_event \<Rightarrow> bool" where
  "event_ok h (HCaptured j) \<longleftrightarrow> HAuthorized j \<in> set h"
| "event_ok h (HExists j) \<longleftrightarrow> HAuthorized j \<in> set h \<and> HCaptured j \<in> set h"
| "event_ok h (HMaterialize j) \<longleftrightarrow> HAuthorized j \<in> set h \<and> HExists j \<in> set h"
| "event_ok h (HRegistered j _ _) \<longleftrightarrow> (deletes h < 2 ^ 64 \<longrightarrow> fresh h j)"
| "event_ok h (HAcquired j _) \<longleftrightarrow> (deletes h < 2 ^ 64 \<longrightarrow> fresh h j)"
| "event_ok h (HAdmitted j ref) \<longleftrightarrow> HAcquired j ref \<in> set h"
| "event_ok h _ \<longleftrightarrow> True"

fun authorized_pc :: "join_pc \<Rightarrow> bool" where
  "authorized_pc Authorizing = False"
| "authorized_pc (JoinFailed _) = False"
| "authorized_pc _ = True"

fun captured_pc :: "join_pc \<Rightarrow> bool" where
  "captured_pc Gating = False"
| "captured_pc p = authorized_pc p"

fun exists_pc :: "join_pc \<Rightarrow> bool" where
  "exists_pc Requiring = False"
| "exists_pc p = captured_pc p"

fun acquired_pc :: "join_pc \<Rightarrow> room_ref option" where
  "acquired_pc (Enqueueing ref) = Some ref"
| "acquired_pc (Selecting ref) = Some ref"
| "acquired_pc (Awaiting ref) = Some ref"
| "acquired_pc (Joined ref _ _) = Some ref"
| "acquired_pc _ = None"

definition thread_past :: "sys_event list \<Rightarrow> nat \<Rightarrow> join \<Rightarrow> bool" where
  "thread_past h j t \<longleftrightarrow>
     (authorized_pc (pc t) \<longrightarrow> HAuthorized j \<in> set h) \<and>
     (captured_pc (pc t) \<longrightarrow> (\<exists>a b. h = a @ HCaptured j # b \<and> HAuthorized j \<in> set a \<and> joinEpoch t = of_nat (deletes a) \<and>
        (exists_pc (pc t) \<longrightarrow> HExists j \<in> set b))) \<and>
     (\<forall>ref. acquired_pc (pc t) = Some ref \<longrightarrow> HAcquired j ref \<in> set h)"

definition past_inv :: "('d, 'a) sys \<Rightarrow> bool" where
  "past_inv s \<longleftrightarrow> deleteEpoch (man s) = of_nat (deletes (hist s)) \<and>
     (\<forall>j t. joins s j = Some t \<longrightarrow> thread_past (hist s) j t) \<and> justified event_ok (hist s)"

text \<open>The epoch is a 64-bit counter: below \<open>2 ^ 64\<close> deletes, equal epochs mean no delete in
  between.\<close>

lemma fresh_epoch:
  assumes "thread_past h j t" "exists_pc (pc t)" "joinEpoch t = of_nat (deletes h)" "deletes h < 2 ^ 64"
  shows "fresh h j"
proof -
  have "captured_pc (pc t)" using assms(2) by (cases "pc t") auto
  then obtain a b where ab: "h = a @ HCaptured j # b" "HAuthorized j \<in> set a" "joinEpoch t = of_nat (deletes a)" "HExists j \<in> set b"
    using assms(1,2) unfolding thread_past_def by blast
  then have "(of_nat (deletes a) :: 64 word) = of_nat (deletes h)" using assms(3) by simp
  then have "(of_nat (deletes b) :: 64 word) = 0" using ab(1) by simp
  then have "2 ^ 64 dvd deletes b" by (simp add: word_of_nat_eq_0_iff)
  moreover have "deletes b < 2 ^ 64" using assms(4) ab(1) by simp
  ultimately have "deletes b = 0" using nat_dvd_not_less by blast
  then show ?thesis using ab unfolding fresh_def by auto
qed

lemma thread_past_note:
  "thread_past h j t \<Longrightarrow> thread_past (h @ [ev]) j t"
  unfolding thread_past_def by (auto, (metis append_Cons append_assoc in_set_conv_decomp Un_iff set_append)+)

lemma thread_past_keep:
  assumes "thread_past h j t" "joinEpoch u = joinEpoch t"
    "authorized_pc (pc u) \<Longrightarrow> authorized_pc (pc t)" "captured_pc (pc u) \<Longrightarrow> captured_pc (pc t)"
    "exists_pc (pc u) \<Longrightarrow> exists_pc (pc t)" "\<And>ref. acquired_pc (pc u) = Some ref \<Longrightarrow> acquired_pc (pc t) = Some ref"
  shows "thread_past h j u"
  using assms unfolding thread_past_def by metis

lemma thread_past_start [simp]: "pc t = Authorizing \<Longrightarrow> thread_past h j t" "pc t = JoinFailed err \<Longrightarrow> thread_past h j t"
  by (simp_all add: thread_past_def)

lemma past_inv_step:
  assumes "past_inv s" "sys_step es s s'"
  shows "past_inv s'"
proof -
  have old: "thread_past (hist s) k u" if "joins s k = Some u" for k u
    using assms(1) that by (simp add: past_inv_def)
  have exist: "HAuthorized j \<in> set (hist s)" "HExists j \<in> set (hist s)" if "joins s j = Some t" "pc t = Leading" for j t
    using old [OF that(1)] that(2) by (auto simp: thread_past_def)
  have fresh: "event_ok (hist s) (HAcquired j ref)"
    if "joins s j = Some t" "exists_pc (pc t)" "deleteEpoch (man s) = joinEpoch t" for j t ref
    using fresh_epoch [OF old [OF that(1)] that(2)] that(3) assms(1) by (auto simp: past_inv_def)
  have quiet: "past_inv s'" if "deleteEpoch (man s') = deleteEpoch (man s)" "hist s' = hist s"
      "\<And>k u. joins s' k = Some u \<Longrightarrow> thread_past (hist s) k u"
    using that assms(1) by (simp add: past_inv_def)
  have noted: "past_inv s'" if "deleteEpoch (man s') = deleteEpoch (man s)" "hist s' = hist s @ [ev]" "\<not> is_deleted ev"
      "event_ok (hist s) ev" "\<And>k u. joins s' k = Some u \<Longrightarrow> thread_past (hist s @ [ev]) k u" for ev
    using that assms(1) by (simp add: past_inv_def)
  have other: "thread_past (hist s @ [ev]) k u" if "joins s k = Some u" for k u ev
    using thread_past_note [OF old [OF that]] .
  from assms(2) show ?thesis
  proof cases
    case (st_authorize j t md)
    have "thread_past (hist s @ [HAuthorized j]) j (t\<lparr>joinMode := md, pc := Gating\<rparr>)" by (simp add: thread_past_def)
    then show ?thesis
      using st_authorize by (intro noted [of "HAuthorized j"]) (auto simp: update_defs split: if_splits intro: other)
  next
    case (st_capture j t m)
    have "HAuthorized j \<in> set (hist s)" using old [OF st_capture(2)] st_capture(3) by (simp add: thread_past_def)
    then have "thread_past (hist s @ [HCaptured j]) j (t\<lparr>joinEpoch := deleteEpoch (man s), pc := Requiring\<rparr>)"
        "event_ok (hist s) (HCaptured j)"
      using assms(1) by (auto simp: thread_past_def past_inv_def)
    then show ?thesis
      using st_capture by (intro noted [of "HCaptured j"]) (auto simp: update_defs same_registry_def split: if_splits intro: other)
  next
    case (st_require j t mu)
    obtain a b where "hist s = a @ HCaptured j # b" "HAuthorized j \<in> set a" "joinEpoch t = of_nat (deletes a)"
      using old [OF st_require(2)] st_require(3) by (auto simp: thread_past_def)
    then have ev: "event_ok (hist s) (HExists j)"
      and "hist s @ [HExists j] = a @ HCaptured j # (b @ [HExists j]) \<and> HAuthorized j \<in> set a \<and>
        joinEpoch t = of_nat (deletes a) \<and> HExists j \<in> set (b @ [HExists j])" by auto
    then have "thread_past (hist s @ [HExists j]) j (t\<lparr>joinMultiUser := mu, pc := Acquiring\<rparr>)"
      unfolding thread_past_def by (simp, blast)
    then show ?thesis using ev st_require by (intro noted [of "HExists j"]) (auto simp: update_defs split: if_splits intro: other)
  next
    case (st_absent j t)
    then show ?thesis using exist [OF st_absent(2,3)] thread_past_keep [OF other [OF st_absent(2)], of "t\<lparr>pc := Materializing\<rparr>"]
      by (intro noted [of "HMaterialize j"]) (auto simp: update_defs split: if_splits intro: other)
  next
    case (st_register j t ref h)
    then show ?thesis using fresh [OF st_register(2) _ st_register(5), of ref] thread_past_keep [OF other [OF st_register(2)], of "t\<lparr>pc := Opening ref\<rparr>"]
      by (intro noted [of "HRegistered j (joinID t) ref"]) (auto simp: update_defs split: if_splits intro: other)
  next
    case (st_open j t ref h)
    then show ?thesis
      by (intro noted [of "HRoomOpened ref"])
        (auto simp: update_defs split: if_splits option.splits intro: other intro!: thread_past_keep [OF other])
  next
    case (st_acquired j t ref)
    have "thread_past (hist s @ [HAcquired j ref]) j (t\<lparr>pc := Enqueueing ref\<rparr>)"
      using other [OF st_acquired(2), of "HAcquired j ref"] st_acquired(3) by (auto simp: thread_past_def)
    then show ?thesis using st_acquired fresh [OF st_acquired(2) _ st_acquired(4), of ref]
      by (intro noted [of "HAcquired j ref"]) (auto simp: update_defs split: if_splits intro: other)
  next
    case (st_joined j t ref cid frames)
    have "HAcquired j ref \<in> set (hist s)" using old [OF st_joined(2)] st_joined(3) by (simp add: thread_past_def)
    then show ?thesis using st_joined thread_past_keep [OF other [OF st_joined(2)], of "t\<lparr>pc := Joined ref cid frames\<rparr>"]
      by (intro noted [of "HAdmitted j ref"]) (auto simp: update_defs split: if_splits intro: other)
  next
    case (st_removed ref h)
    then show ?thesis by (intro noted [of "HRoomClosed ref"]) (auto simp: update_defs intro: other)
  next
    case (st_marked d t expires live p)
    then show ?thesis using assms(1) other by (simp add: past_inv_def update_defs)
  qed (rule quiet; auto simp: update_defs same_registry_def split: if_splits option.splits intro: old intro!: thread_past_keep [OF old])+
qed

interpretation past: sys_inv es c "sys_wf es" past_inv for es :: "room_ref \<Rightarrow> ('d, 'a) env" and c
proof unfold_locales
  show "past_inv (initial_sys c t)" for t by (simp add: past_inv_def initial_sys_def NewManager_def)
qed (auto intro: wf.holds past_inv_step)

section \<open>Deletions\<close>

fun found_ref :: "delete_pc \<Rightarrow> room_ref option" where
  "found_ref (Found ref) = Some ref"
| "found_ref (DelSelecting ref) = Some ref"
| "found_ref (DelAwaiting ref) = Some ref"
| "found_ref _ = None"

definition is_dead :: "('d, 'a) sys \<Rightarrow> room_ref \<Rightarrow> bool" where
  "is_dead s ref \<longleftrightarrow> (\<exists>h. heap s ref = Some h \<and> \<not> alive h)"

text \<open>
  What the calls of \<^verbatim>\<open>CloseDeleted\<close> have seen: a delete is marked once, a call that is still closing the
  room it found has marked it with that room, the command it queued is the close, an answer to it
  means that room is dead, and so does a return without error.
\<close>

abbreviation marked :: "('d, 'a) sys \<Rightarrow> nat \<Rightarrow> document_id \<Rightarrow> room_ref option \<Rightarrow> bool" where
  "marked s d did live \<equiv> HDeleted d did live \<in> set (hist s)"

definition call_ok :: "('d, 'a) sys \<Rightarrow> nat \<Rightarrow> room_ref option \<Rightarrow> deletion \<Rightarrow> bool" where
  "call_ok s d live t \<longleftrightarrow> (\<forall>x. delPC t \<noteq> Marking x) \<and>
     (\<forall>ref. found_ref (delPC t) = Some ref \<longrightarrow> live = Some ref) \<and>
     (\<forall>ref. live = Some ref \<longrightarrow> delPC t = Returned None \<or> answers s (DeleteCaller d) \<noteq> None \<longrightarrow> is_dead s ref)"

definition deletion_inv :: "('d, 'a) sys \<Rightarrow> bool" where
  "deletion_inv s \<longleftrightarrow>
     (\<forall>d did live. marked s d did live \<longrightarrow> (\<exists>t. deletions s d = Some t \<and> call_ok s d live t)) \<and>
     (\<forall>d t ref. deletions s d = Some t \<longrightarrow> found_ref (delPC t) = Some ref \<longrightarrow> (\<exists>did. marked s d did (Some ref))) \<and>
     (\<forall>ref h cmd d. heap s ref = Some h \<longrightarrow> (cmd, DeleteCaller d) \<in> set (queue h) \<longrightarrow>
        cmd = CmdCloseDeleted \<and> (\<exists>did live. marked s d did live) \<and> (\<forall>did live. marked s d did live \<longrightarrow> live = Some ref)) \<and>
     (\<forall>d. answers s (DeleteCaller d) \<noteq> None \<longrightarrow> (\<exists>did live. marked s d did live))"

lemma deletion_invD:
  assumes "deletion_inv s"
  shows "marked s d did live \<Longrightarrow> \<exists>t. deletions s d = Some t \<and> call_ok s d live t"
    "deletions s d = Some t \<Longrightarrow> found_ref (delPC t) = Some ref \<Longrightarrow> \<exists>did. marked s d did (Some ref)"
    "heap s ref = Some h \<Longrightarrow> (cmd, DeleteCaller d) \<in> set (queue h) \<Longrightarrow>
       cmd = CmdCloseDeleted \<and> (\<exists>did live. marked s d did live) \<and> (\<forall>did live. marked s d did live \<longrightarrow> live = Some ref)"
    "answers s (DeleteCaller d) \<noteq> None \<Longrightarrow> \<exists>did live. marked s d did live"
  using assms unfolding deletion_inv_def by blast+

lemma is_dead_step:
  assumes "sys_step es s s'" "sys_wf es s" "is_dead s ref"
  shows "is_dead s' ref"
  using assms(3) heap_step [OF assms(1,2)] unfolding is_dead_def by metis

text \<open>Steps that leave the calls, their answers and their queued commands alone.\<close>

lemma deletion_inv_frame:
  assumes inv: "deletion_inv s" and step: "sys_step es s s'" "sys_wf es s"
    and same: "deletions s' = deletions s" "\<And>d did live. marked s' d did live = marked s d did live"
      "\<And>d. answers s' (DeleteCaller d) = answers s (DeleteCaller d)"
    and queue: "\<And>ref h' cmd d. heap s' ref = Some h' \<Longrightarrow> (cmd, DeleteCaller d) \<in> set (queue h') \<Longrightarrow>
      \<exists>h. heap s ref = Some h \<and> (cmd, DeleteCaller d) \<in> set (queue h)"
  shows "deletion_inv s'"
proof -
  have "call_ok s' d live t" if "call_ok s d live t" for d live t
    using that is_dead_step [OF step] unfolding call_ok_def same by blast
  then have "\<exists>t. deletions s d = Some t \<and> call_ok s' d live t" if "marked s d did live" for d did live
    using deletion_invD(1) [OF inv that] by blast
  moreover have "cmd = CmdCloseDeleted \<and> (\<exists>did live. marked s d did live) \<and> (\<forall>did live. marked s d did live \<longrightarrow> live = Some ref)"
    if "heap s' ref = Some h'" "(cmd, DeleteCaller d) \<in> set (queue h')" for ref h' cmd d
    using queue [OF that] deletion_invD(3) [OF inv] by blast
  ultimately show ?thesis
    using deletion_invD(2,4) [OF inv] unfolding deletion_inv_def same by blast
qed

text \<open>Steps of one call that neither mark nor queue anything.\<close>

lemma deletion_inv_call:
  assumes inv: "deletion_inv s" and t: "deletions s d = Some t" and dead: "\<And>ref. found_ref p = None \<Longrightarrow> found_ref (delPC t) = Some ref \<Longrightarrow> p = Returned None \<Longrightarrow> is_dead s ref"
    and p: "\<And>x. p \<noteq> Marking x" "found_ref (delPC t) \<noteq> None" "found_ref p = None \<or> found_ref p = found_ref (delPC t)"
  shows "deletion_inv (put_deletion d (t\<lparr>delPC := p\<rparr>) s)"
proof -
  let ?s = "put_deletion d (t\<lparr>delPC := p\<rparr>) s"
  obtain ref did where ref: "found_ref (delPC t) = Some ref" "marked s d did (Some ref)"
    using deletion_invD(2) [OF inv t] p(2) by auto
  have only: "live = Some ref" if "marked s d did live" for did live
    using deletion_invD(1) [OF inv that] t ref(1) by (auto simp: call_ok_def)
  have "call_ok ?s d live (t\<lparr>delPC := p\<rparr>)" if "marked s d did live" for did live
    using deletion_invD(1) [OF inv that] t only [OF that] ref(1) p dead [of ref] by (auto simp: call_ok_def put_deletion_def is_dead_def)
  moreover have "call_ok ?s k live u = call_ok s k live u" for k live u
    by (simp add: call_ok_def put_deletion_def is_dead_def)
  ultimately show ?thesis
    using deletion_invD [OF inv] p(3) ref unfolding deletion_inv_def
    by (auto simp: put_deletion_def)
qed

text \<open>A room registered for a deleted document is the one the delete found, or it was registered
  later.\<close>

definition registry_inv :: "('d, 'a) sys \<Rightarrow> bool" where
  "registry_inv s \<longleftrightarrow>
     (\<forall>xs d did live ys ref. hist s = xs @ HDeleted d did live # ys \<longrightarrow> map_of (rooms (man s)) did = Some ref \<longrightarrow>
        live = Some ref \<or> (\<exists>j. HRegistered j did ref \<in> set ys))"

lemma registry_inv_step:
  assumes "sys_step es s s'" "registry_inv s"
  shows "registry_inv s'"
  unfolding registry_inv_def
proof (intro allI impI)
  fix xs d did live ys ref
  assume h: "hist s' = xs @ HDeleted d did live # ys" and r: "map_of (rooms (man s')) did = Some ref"
  have old: "live = Some ref \<or> (\<exists>j. HRegistered j did ref \<in> set zs)"
    if "hist s = xs @ HDeleted d did live # zs" "map_of (rooms (man s)) did = Some ref" for zs
    using assms(2) that unfolding registry_inv_def by blast
  have noted: "live = Some ref \<or> (\<exists>j. HRegistered j did ref \<in> set ys)"
    if "hist s' = hist s @ [ev]" "map_of (rooms (man s)) did = Some ref" "\<not> is_deleted ev" for ev
  proof (cases ys rule: rev_cases)
    case Nil
    then show ?thesis using h that by auto
  next
    case (snoc zs z)
    then show ?thesis using old [of zs] h that by auto
  qed
  from assms(1) show "live = Some ref \<or> (\<exists>j. HRegistered j did ref \<in> set ys)"
  proof cases
    case (st_register j t ref' h')
    show ?thesis
    proof (cases "did = joinID t")
      case True
      then show ?thesis using st_register h r
        by (cases ys rule: rev_cases) (auto simp: update_defs)
    next
      case False
      then show ?thesis using st_register r by (intro noted [of "HRegistered j (joinID t) ref'"]) (auto simp: update_defs)
    qed
  next
    case (st_removed ref' h')
    then show ?thesis using r by (intro noted [of "HRoomClosed ref'"]) (auto simp: update_defs split: if_splits)
  next
    case (st_marked d' t expires live' p)
    then show ?thesis using r h old by (cases ys rule: rev_cases) (auto simp: update_defs)
  next
    case (st_authorize j t md)
    then show ?thesis using r by (intro noted [of "HAuthorized j"]) (auto simp: update_defs)
  next
    case (st_capture j t m)
    then show ?thesis using r by (intro noted [of "HCaptured j"]) (auto simp: update_defs same_registry_def)
  next
    case (st_require j t mu)
    then show ?thesis using r by (intro noted [of "HExists j"]) (auto simp: update_defs)
  next
    case (st_absent j t)
    then show ?thesis using r by (intro noted [of "HMaterialize j"]) (auto simp: update_defs)
  next
    case (st_open j t ref' h')
    then show ?thesis using r by (intro noted [of "HRoomOpened ref'"]) (auto simp: update_defs)
  next
    case (st_acquired j t ref')
    then show ?thesis using r by (intro noted [of "HAcquired j ref'"]) (auto simp: update_defs)
  next
    case (st_joined j t ref' cid frames)
    then show ?thesis using r by (intro noted [of "HAdmitted j ref'"]) (auto simp: update_defs)
  qed (rule old; use h r in \<open>simp add: update_defs same_registry_def\<close>)+
qed

lemma close_deleted_ends: "fst (run_step e (LCommand CmdCloseDeleted) r) = False"
  by (simp add: run_step_def dispatch_def)

lemma hosted_dead:
  assumes "sys_wf es s" "heap s ref = Some h" "lc (hroom h) \<noteq> stateActive \<or> doneClosed (hroom h)"
  shows "is_dead s ref"
proof -
  have "hosted_ok (es ref) h" using assms(1,2) by (simp add: sys_wf_def heap_wf_def)
  then show ?thesis using hosted_ok_lc assms(2,3) unfolding is_dead_def by blast
qed

lemma deletion_inv_answer:
  assumes inv: "deletion_inv s" and step: "sys_step es s s'" "sys_wf es s"
    and r: "heap s ref = Some h" "queue h = (cmd, who) # rest"
    and s': "s' = loop_result ref (h\<lparr>queue := rest\<rparr>) (run_step (es ref) (LCommand cmd) (hroom h)) (s\<lparr>answers := (answers s)(who \<mapsto> rep)\<rparr>)"
  shows "deletion_inv s'"
proof -
  have frame: "deletions s' = deletions s" "marked s' d did live = marked s d did live" for d did live
    using s' by (simp_all add: update_defs)
  have queues: "\<exists>h. heap s i = Some h \<and> (c, DeleteCaller d) \<in> set (queue h)"
    if "heap s' i = Some h'" "(c, DeleteCaller d) \<in> set (queue h')" for i h' c d
    using that s' r by (auto simp: update_defs split: if_splits)
  have "call_ok s' d live t" if "marked s d did live" "call_ok s d live t" for d did live t
  proof -
    have "is_dead s' ref'" if "live = Some ref'" "who = DeleteCaller d" for ref'
    proof -
      have "cmd = CmdCloseDeleted" "live = Some ref"
        using deletion_invD(3) [OF inv r(1), of cmd d] r(2) that \<open>marked s d did live\<close> by auto
      then show ?thesis using s' that by (simp add: update_defs is_dead_def close_deleted_ends)
    qed
    then show ?thesis
      using that(2) is_dead_step [OF step] s' unfolding call_ok_def by (auto simp: update_defs split: if_splits)
  qed
  then have "\<exists>t. deletions s d = Some t \<and> call_ok s' d live t" if "marked s d did live" for d did live
    using deletion_invD(1) [OF inv that] that by blast
  moreover have "\<exists>did live. marked s d did live" if "answers s' (DeleteCaller d) \<noteq> None" for d
    using that s' deletion_invD(3) [OF inv r(1), of cmd d] deletion_invD(4) [OF inv, of d] r(2)
    by (auto simp: update_defs split: if_splits)
  moreover have "c = CmdCloseDeleted \<and> (\<exists>did live. marked s d did live) \<and> (\<forall>did live. marked s d did live \<longrightarrow> live = Some i)"
    if "heap s' i = Some h'" "(c, DeleteCaller d) \<in> set (queue h')" for i h' c d
    using queues [OF that] deletion_invD(3) [OF inv] by blast
  ultimately show ?thesis using deletion_invD(2) [OF inv] unfolding deletion_inv_def frame by blast
qed

lemma deletion_inv_mark:
  assumes inv: "deletion_inv s" and step: "sys_step es s s'" "sys_wf es s"
    and t: "deletions s d = Some t" "delPC t = Marking expires" and live: "live = map_of (rooms (man s)) (delID t)"
    and s': "hist s' = hist s @ [HDeleted d (delID t) live]" "heap s' = heap s" "answers s' = answers s"
      "deletions s' = (deletions s)(d \<mapsto> t\<lparr>delPC := (case live of Some ref \<Rightarrow> Found ref | None \<Rightarrow> Returned None)\<rparr>)"
  shows "deletion_inv s'"
proof -
  have fresh: "\<not> marked s d did l" for did l
    using deletion_invD(1) [OF inv, of d did l] t by (auto simp: call_ok_def)
  then have "answers s (DeleteCaller d) = None" using deletion_invD(4) [OF inv] by blast
  then have "call_ok s' d live (t\<lparr>delPC := (case live of Some ref \<Rightarrow> Found ref | None \<Rightarrow> Returned None)\<rparr>)"
    using s' by (auto simp: call_ok_def split: option.splits)
  moreover have "call_ok s' k l u" if "call_ok s k l u" for k l u
    using that is_dead_step [OF step] s'(3) unfolding call_ok_def by auto
  ultimately have "\<exists>t. deletions s' k = Some t \<and> call_ok s' k l t" if "marked s' k did l" for k did l
    using that deletion_invD(1) [OF inv, of k did l] fresh s' by (auto split: if_splits)
  moreover have "\<exists>did. marked s' k did (Some ref)" if "deletions s' k = Some u" "found_ref (delPC u) = Some ref" for k u ref
    using that deletion_invD(2) [OF inv, of k u ref] s' by (auto split: if_splits option.splits)
  moreover have "c = CmdCloseDeleted \<and> (\<exists>did live. marked s' k did live) \<and> (\<forall>did live. marked s' k did live \<longrightarrow> live = Some i)"
    if "heap s' i = Some h'" "(c, DeleteCaller k) \<in> set (queue h')" for i h' c k
    using that deletion_invD(3) [OF inv, of i h' c k] fresh s' by auto
  moreover have "\<exists>did live. marked s' k did live" if "answers s' (DeleteCaller k) \<noteq> None" for k
    using that deletion_invD(4) [OF inv, of k] s' by auto
  ultimately show ?thesis unfolding deletion_inv_def by blast
qed

lemma deletion_inv_push:
  assumes inv: "deletion_inv s" and t: "deletions s d = Some t" "found_ref (delPC t) = Some ref" and h: "heap s ref = Some h"
  shows "deletion_inv (push_command ref CmdCloseDeleted (DeleteCaller d) h s)"
proof -
  let ?s = "push_command ref CmdCloseDeleted (DeleteCaller d) h s"
  have only: "live = Some ref" if "marked s d did live" for did live
    using deletion_invD(1) [OF inv that] t by (auto simp: call_ok_def)
  have frame: "deletions ?s = deletions s" "hist ?s = hist s" "answers ?s = answers s" by (simp_all add: update_defs)
  have dead: "is_dead ?s i = is_dead s i" for i using h by (auto simp: is_dead_def update_defs)
  have call: "call_ok ?s k live u = call_ok s k live u" for k live u by (simp add: call_ok_def dead frame)
  have "c = CmdCloseDeleted \<and> (\<exists>did live. marked s k did live) \<and> (\<forall>did live. marked s k did live \<longrightarrow> live = Some i)"
    if "heap ?s i = Some h'" "(c, DeleteCaller k) \<in> set (queue h')" for i h' c k
  proof -
    have "(i = ref \<and> k = d \<and> c = CmdCloseDeleted) \<or> (\<exists>h0. heap s i = Some h0 \<and> (c, DeleteCaller k) \<in> set (queue h0))"
      using that h by (auto simp: update_defs split: if_splits)
    then show ?thesis using deletion_invD(3) [OF inv, of i _ c k] deletion_invD(2) [OF inv t] only by blast
  qed
  then show ?thesis using deletion_invD(1,2,4) [OF inv] unfolding deletion_inv_def frame call by blast
qed

lemma deletion_inv_step:
  assumes "sys_wf es s" "deletion_inv s" "sys_step es s s'"
  shows "deletion_inv s'"
proof -
  note frame = deletion_inv_frame [OF assms(2,3,1)] and call = deletion_inv_call [OF assms(2)]
  from assms(3) show ?thesis
  proof cases
    case (st_answer ref h cmd who rest rep)
    then show ?thesis using deletion_inv_answer [OF assms(2,3,1) st_answer(2,4,1)] by simp
  next
    case (st_marked d t expires live p)
    then show ?thesis by (intro deletion_inv_mark [OF assms(2,3,1) st_marked(2,3)]) (simp_all add: update_defs)
  next
    case (st_delete d did expires)
    have "\<not> marked s d i l" for i l using deletion_invD(1) [OF assms(2), of d i l] st_delete(2) by auto
    then show ?thesis using assms(2) st_delete
      by (auto simp: deletion_inv_def update_defs call_ok_def is_dead_def split: if_splits)
  next
    case (st_del_select d t ref)
    then show ?thesis using call [OF st_del_select(2), of "DelSelecting ref"] by auto
  next
    case (st_del_await d t ref h)
    let ?s = "push_command ref CmdCloseDeleted (DeleteCaller d) h s"
    have "deletion_inv ?s" using deletion_inv_push [OF assms(2) st_del_await(2) _ st_del_await(4)] st_del_await(3) by simp
    moreover have "deletions ?s d = Some t" using st_del_await by (simp add: update_defs)
    ultimately show ?thesis unfolding st_del_await(1) using st_del_await(3)
      by (intro deletion_inv_call) auto
  next
    case (st_del_failed d t ref err)
    then show ?thesis using call [OF st_del_failed(2), of "Returned (Some err)"] by auto
  next
    case (st_del_gone d t ref h)
    then show ?thesis using call [OF st_del_gone(2), of "Returned None"] hosted_dead [OF assms(1) st_del_gone(4,5)] by auto
  next
    case (st_del_ack d t ref rep)
    obtain did where "marked s d did (Some ref)" using deletion_invD(2) [OF assms(2) st_del_ack(2)] st_del_ack(3) by auto
    then have "is_dead s ref" using deletion_invD(1) [OF assms(2)] st_del_ack(2,4) by (fastforce simp: call_ok_def)
    then show ?thesis using call [OF st_del_ack(2), of "Returned None"] st_del_ack by auto
  qed (rule frame; auto simp: update_defs split: if_splits)+
qed

interpretation dels: sys_inv es c "sys_wf es" deletion_inv for es :: "room_ref \<Rightarrow> ('d, 'a) env" and c
proof unfold_locales
  show "deletion_inv (initial_sys c t)" for t by (simp add: deletion_inv_def initial_sys_def)
qed (auto intro: wf.holds deletion_inv_step)

interpretation reg: sys_inv es c "sys_wf es" registry_inv for es :: "room_ref \<Rightarrow> ('d, 'a) env" and c
proof unfold_locales
  show "registry_inv (initial_sys c t)" for t by (simp add: registry_inv_def initial_sys_def)
qed (auto intro: wf.holds registry_inv_step)

section \<open>The room gauge\<close>

fun counts_open :: "sys_event \<Rightarrow> bool" where
  "counts_open (HRoomOpened _) = True"
| "counts_open _ = False"

fun counts_closed :: "sys_event \<Rightarrow> bool" where
  "counts_closed (HRoomClosed _) = True"
| "counts_closed _ = False"

definition started :: "('d, 'a) sys \<Rightarrow> document_id \<times> room_ref \<Rightarrow> bool" where
  "started s entry = (case heap s (snd entry) of Some h \<Rightarrow> phase h \<noteq> NotStarted | None \<Rightarrow> False)"

definition gauge_inv :: "('d, 'a) sys \<Rightarrow> bool" where
  "gauge_inv s \<longleftrightarrow> length (filter counts_open (hist s)) =
     length (filter counts_closed (hist s)) + length (filter (started s) (rooms (man s)))"

lemma filter_one_more:
  assumes "distinct xs" "a \<in> set xs" "\<not> P a"
  shows "length (filter (\<lambda>x. P x \<or> x = a) xs) = Suc (length (filter P xs))"
  using assms
proof (induction xs)
  case (Cons x xs)
  show ?case
  proof (cases "x = a")
    case True
    then have "filter (\<lambda>x. P x \<or> x = a) xs = filter P xs" using Cons.prems by (intro filter_cong) auto
    then show ?thesis using True Cons.prems by simp
  qed (use Cons in auto)
qed simp

lemma registered_entry:
  assumes "sys_wf es s" "(did, ref) \<in> set (rooms (man s))"
  obtains h where "heap s ref = Some h" "hid h = did"
proof -
  have "map_of (rooms (man s)) did = Some ref" using assms by (simp add: sys_wf_def rooms_wf_def)
  then show thesis using that assms(1) unfolding sys_wf_def rooms_wf_def by blast
qed

lemma gauge_inv_step:
  assumes "sys_wf es s" "gauge_inv s" "sys_step es s s'"
  shows "gauge_inv s'"
proof -
  have d: "distinct (keys (rooms (man s)))" using assms(1) by (simp add: sys_wf_def rooms_wf_def)
  have same: "gauge_inv s'"
    if "\<And>did ref h. (did, ref) \<in> set (rooms (man s)) \<Longrightarrow> heap s ref = Some h \<Longrightarrow>
        \<exists>h'. heap s' ref = Some h' \<and> (phase h' = NotStarted \<longleftrightarrow> phase h = NotStarted)"
      "rooms (man s') = rooms (man s)" "filter counts_open (hist s') = filter counts_open (hist s)"
      "filter counts_closed (hist s') = filter counts_closed (hist s)"
  proof -
    have "filter (started s') (rooms (man s)) = filter (started s) (rooms (man s))"
    proof (rule filter_cong [OF refl])
      fix x assume x: "x \<in> set (rooms (man s))"
      then obtain h where "heap s (snd x) = Some h" using registered_entry [OF assms(1), of "fst x" "snd x"] by auto
      then show "started s' x = started s x" using that(1) [of "fst x" "snd x"] x by (fastforce simp: started_def)
    qed
    then show ?thesis using assms(2) that(2-4) by (simp add: gauge_inv_def)
  qed
  from assms(3) show ?thesis
  proof cases
    case (st_register j t ref h)
    have "map_of (rooms (man s)) (joinID t) = None" using sys_wfD(5) [OF assms(1) st_register(2)] st_register(3) by simp
    moreover have "phase h = NotStarted" using sys_wfD(6) [OF assms(1) st_register(2-4)] .
    moreover have "started s' = started s" using st_register by (simp add: started_def fun_eq_iff update_defs)
    ultimately show ?thesis using assms(2) st_register
      by (simp add: gauge_inv_def update_absent) (simp add: update_defs update_absent started_def)
  next
    case (st_open j t ref h)
    let ?a = "(joinID t, ref)"
    have new: "phase h = NotStarted" using sys_wfD(7) [OF assms(1) st_open(2-4)] .
    have reg: "?a \<in> set (rooms (man s))" using sys_wfD(8) [OF assms(1) st_open(2,3)] map_of_SomeD by fast
    have "filter (started s') (rooms (man s)) = filter (\<lambda>x. started s x \<or> x = ?a) (rooms (man s))"
    proof (rule filter_cong [OF refl])
      fix x assume "x \<in> set (rooms (man s))"
      then obtain h' where "heap s (snd x) = Some h'" "hid h' = fst x"
        using registered_entry [OF assms(1), of "fst x" "snd x"] by auto
      then show "started s' x = (started s x \<or> x = ?a)"
        using st_open sys_wfD(2) [OF assms(1) st_open(2), of ref h] new by (cases x) (auto simp: started_def update_defs)
    qed
    moreover have "distinct (rooms (man s))" using d by (simp add: distinct_map)
    moreover have "\<not> started s ?a" using st_open(4) new by (simp add: started_def)
    ultimately show ?thesis using assms(2) st_open filter_one_more [OF _ reg]
      by (simp add: gauge_inv_def) (simp add: update_defs)
  next
    case (st_removed ref h)
    have "started s' = started s" using st_removed by (auto simp: started_def fun_eq_iff update_defs)
    moreover have "started s (hid h, ref)" using st_removed by (simp add: started_def)
    ultimately show ?thesis
      using assms(2) st_removed filter_delete_count [OF d, of "hid h" ref "started s"]
      by (simp add: gauge_inv_def) (simp add: update_defs)
  next
    case (st_built j t h)
    have "heap s (nextRef s) = None" using assms(1) by (simp add: sys_wf_def heap_wf_def)
    then show ?thesis using st_built by (intro same) (auto simp: update_defs)
  next
    case (st_aborted j t ref h err)
    have "ref' \<noteq> ref" if "(did, ref') \<in> set (rooms (man s))" for did ref'
      using registered_entry [OF assms(1) that] sys_wfD(2,5) [OF assms(1) st_aborted(2)] st_aborted(3,4) that
      by (metis leader_pc.simps(3) map_of_eq_None_iff option.inject pc_ref.simps(1) fst_conv image_eqI unregistered_pc.simps(2))
    then show ?thesis using st_aborted by (intro same) (auto simp: update_defs)
  qed (rule same; auto simp: update_defs same_registry_def)+
qed

interpretation gauge: sys_inv es c "sys_wf es" gauge_inv for es :: "room_ref \<Rightarrow> ('d, 'a) env" and c
proof unfold_locales
  show "gauge_inv (initial_sys c t)" for t by (simp add: gauge_inv_def initial_sys_def NewManager_def)
qed (auto intro: wf.holds gauge_inv_step)

text \<open>A registered room that has not been started is about to be, by the join that registered it.\<close>

definition opening_inv :: "('d, 'a) sys \<Rightarrow> bool" where
  "opening_inv s \<longleftrightarrow> (\<forall>did ref h. map_of (rooms (man s)) did = Some ref \<longrightarrow> heap s ref = Some h \<longrightarrow> phase h = NotStarted \<longrightarrow>
     (\<exists>j t. joins s j = Some t \<and> pc t = Opening ref))"

lemma opening_inv_step:
  assumes "sys_wf es s" "opening_inv s" "sys_step es s s'"
  shows "opening_inv s'"
  unfolding opening_inv_def
proof (intro allI impI)
  fix did ref h' assume r: "map_of (rooms (man s')) did = Some ref" and h': "heap s' ref = Some h'" "phase h' = NotStarted"
  show "\<exists>j t. joins s' j = Some t \<and> pc t = Opening ref"
  proof (cases "map_of (rooms (man s)) did = Some ref")
    case False
    from assms(3) show ?thesis
      by cases (use False r in \<open>auto simp: update_defs same_registry_def split: if_splits\<close>)
  next
    case True
    then obtain h where h: "heap s ref = Some h" using assms(1) unfolding sys_wf_def rooms_wf_def by blast
    then have "phase h = NotStarted" using heap_step [OF assms(3,1) h] h' by force
    then obtain j t where jt: "joins s j = Some t" "pc t = Opening ref" using assms(2) True h unfolding opening_inv_def by blast
    have here: ?thesis if "joins s' j = Some t" using that jt(2) by blast
    from assms(3) show ?thesis
    proof cases
      case (st_open i u ref' k)
      show ?thesis
      proof (cases "i = j")
        case True
        then show ?thesis using st_open jt h' by (auto simp: update_defs)
      next
        case False
        then show ?thesis using st_open jt by (intro here) (simp add: update_defs)
      qed
    qed (rule here; use jt in \<open>auto simp: update_defs\<close>)+
  qed
qed

interpretation unopened: sys_inv es c "sys_wf es" opening_inv for es :: "room_ref \<Rightarrow> ('d, 'a) env" and c
proof unfold_locales
  show "opening_inv (initial_sys c t)" for t by (simp add: opening_inv_def initial_sys_def NewManager_def)
qed (auto intro: wf.holds opening_inv_step)

section \<open>Shutdown\<close>

definition shutdown_inv :: "('d, 'a) sys \<Rightarrow> bool" where
  "shutdown_inv s \<longleftrightarrow>
     (\<forall>refs. draining s = Some refs \<longrightarrow> isClosed (man s) \<and> snd ` set (rooms (man s)) \<subseteq> set refs) \<and>
     (closeOutcome s = Some False \<longrightarrow> (\<exists>refs. draining s = Some refs \<and> (\<forall>ref\<in>set refs. is_dead s ref)))"

lemma set_delete_subset: "set (AList.delete k xs) \<subseteq> set xs"
  by (auto simp: AList.delete_eq)

lemma shutdown_inv_step:
  assumes "sys_wf es s" "shutdown_inv s" "sys_step es s s'"
  shows "shutdown_inv s'"
proof -
  have dead: "is_dead s' ref" if "is_dead s ref" for ref using is_dead_step [OF assms(3,1) that] .
  have same: "shutdown_inv s'"
    if "draining s' = draining s" "isClosed (man s') = isClosed (man s)" "closeOutcome s' = closeOutcome s"
      "set (rooms (man s')) \<subseteq> set (rooms (man s))"
    using assms(2) that dead unfolding shutdown_inv_def by (metis (no_types, lifting) image_mono subset_trans)
  from assms(3) show ?thesis
  proof cases
    case (st_register j t ref h)
    then show ?thesis using assms(2) by (auto simp: shutdown_inv_def update_defs)
  next
    case (st_removed ref h)
    then show ?thesis using set_delete_subset [of "hid h"] by (intro same) (auto simp: update_defs)
  next
    case (st_close dl)
    then show ?thesis using assms(2) by (auto simp: shutdown_inv_def)
  next
    case (st_drained refs)
    have "is_dead s ref" if "ref \<in> set refs" for ref
      using st_drained(3) that hosted_dead [OF assms(1), of ref] by (auto simp: list_all_iff split: option.splits)
    then show ?thesis using assms(2) st_drained by (auto simp: shutdown_inv_def is_dead_def)
  next
    case st_expired
    then show ?thesis using assms(2) by (auto simp: shutdown_inv_def)
  qed (rule same; simp add: update_defs same_registry_def)+
qed

interpretation shut: sys_inv es c "sys_wf es" shutdown_inv for es :: "room_ref \<Rightarrow> ('d, 'a) env" and c
proof unfold_locales
  show "shutdown_inv (initial_sys c t)" for t by (simp add: shutdown_inv_def initial_sys_def)
qed (auto intro: wf.holds shutdown_inv_step)

section \<open>A concrete history\<close>

text \<open>
  A first session joins, the owner deletes the document and the room is closed; after the tombstone
  has expired (the row was kept) a second session opens a new room.
\<close>

definition sample_row :: Metadata where
  "sample_row = sample_meta\<lparr>metaMigrated := True\<rparr>"

definition join_actions :: "nat \<Rightarrow> bytes action list" where
  "join_actions j =
     [AJoin j ''doc'' ContentTypeMemo (Some 11) 101, AAuthorize j (\<lambda>_. Some True), ACapture j, ARequire j (Inr sample_row),
      AAcquire j, ALookup j, AMaterialize j (Inr sample_meta) (Inr [1, 2]) AcqOpened True, ARegister j, AOpen j,
      AAdmit j SlotTaken, AEnqueue j, ASelect j SlotTaken]"

definition sample_served :: "(bytes, nat list) sys" where
  "sample_served = the (perform_all (\<lambda>_. sample_env) (join_actions 0 @ [ACommand 0, AReceive 0])
     (initial_sys DefaultRoomConfig 0))"

definition sample_deleted :: "(bytes, nat list) sys" where
  "sample_deleted = the (perform_all (\<lambda>_. sample_env)
     ([ADelete 7 ''doc'', AMark 7, ADelEnqueue 7, ADelSelect 7 SlotTaken False, ACommand 0, ADelReceive 7, AReleased 0,
       ATick 300000000000, ATimer ''doc'' 300000000000] @ join_actions 1 @ [ACommand 1, AReceive 1]) sample_served)"

definition sample_shut :: "(bytes, nat list) sys" where
  "sample_shut = the (perform_all (\<lambda>_. sample_env)
     [ACloseStart, ACloseSignal 0 SlotTaken, ACommand 0, ACloseDrained] sample_served)"

lemma perform_all_the:
  "reachable es c s \<Longrightarrow> perform_all es as s \<noteq> None \<Longrightarrow> reachable es c (the (perform_all es as s))"
  by (auto dest: perform_all_reachable)

lemma sample_served_reachable: "reachable (\<lambda>_. sample_env) DefaultRoomConfig sample_served"
  unfolding sample_served_def by (rule perform_all_the [OF reach_init]) code_simp

lemma sample_deleted_reachable: "reachable (\<lambda>_. sample_env) DefaultRoomConfig sample_deleted"
  unfolding sample_deleted_def by (rule perform_all_the [OF sample_served_reachable]) code_simp

lemma sample_shut_reachable: "reachable (\<lambda>_. sample_env) DefaultRoomConfig sample_shut"
  unfolding sample_shut_def by (rule perform_all_the [OF sample_served_reachable]) code_simp

lemma sample_deleted_hist:
  "hist sample_deleted = [HAuthorized 0, HCaptured 0, HExists 0, HMaterialize 0, HRegistered 0 ''doc'' 0, HRoomOpened 0,
     HAcquired 0 0, HAdmitted 0 0, HDeleted 7 ''doc'' (Some 0), HRoomClosed 0, HAuthorized 1, HCaptured 1, HExists 1,
     HMaterialize 1, HRegistered 1 ''doc'' 1, HRoomOpened 1, HAcquired 1 1, HAdmitted 1 1]"
  by code_simp

section \<open>The guarantees of the registry\<close>

lemma justified_at: "justified P h \<Longrightarrow> h = xs @ ev # ys \<Longrightarrow> P xs ev"
  unfolding justified_def by blast

lemma live_room_at:
  assumes "sys_wf es s" "heap s i = Some k" "lc (hroom k) = stateActive"
  shows "map_of (rooms (man s)) (hid k) = Some i \<or>
    (\<exists>j t. joins s j = Some t \<and> pc t = Built i \<and> joinID t = hid k \<and> flightOf s (hid k) = Some j \<and>
      map_of (rooms (man s)) (hid k) = None)"
proof -
  have "hosted_ok (es i) k" using assms(1,2) by (simp add: sys_wf_def heap_wf_def)
  then have "alive k" using hosted_ok_lc(1) assms(3) by blast
  then show ?thesis using assms(1,2) sys_wfD(2,3,5) [OF assms(1)] unfolding sys_wf_def alive_wf_def
    by (metis leader_pc.simps(3) pc_ref.simps(1) unregistered_pc.simps(2))
qed

text \<open>
  C4: at most one live room per document. In every interleaving of joins, deletes, releases and
  shutdown, two rooms of the process that are active and serve the same document are the same room,
  so no document is ever edited in two copies; and an active room is the registered one, unless it
  is still being materialized by the one join that leads for that document.
\<close>

theorem one_live_room:
  assumes "reachable es c s" and "heap s ref = Some h" and "lc (hroom h) = stateActive"
  shows "(\<forall>ref' h'. heap s ref' = Some h' \<and> hid h' = hid h \<and> lc (hroom h') = stateActive \<longrightarrow> ref' = ref) \<and>
    (map_of (rooms (man s)) (hid h) = Some ref \<or>
      (\<exists>j t. joins s j = Some t \<and> pc t = Built ref \<and> flightOf s (hid h) = Some j))"
proof -
  have wf: "sys_wf es s" by (rule wf.holds [OF assms(1)])
  note where_it_is = live_room_at [OF wf]
  have "ref' = ref" if "heap s ref' = Some h'" "hid h' = hid h" "lc (hroom h') = stateActive" for ref' h'
    using where_it_is [OF assms(2,3)] where_it_is [OF that(1,3)] that(2) by auto
  then show ?thesis using where_it_is [OF assms(2,3)] by blast
qed

theorem one_live_room_witness:
  "lc (hroom (the (heap sample_deleted 1))) = stateActive \<and>
   {ref'. heap sample_deleted ref' \<noteq> None \<and> hid (the (heap sample_deleted ref')) = ''doc'' \<and>
      lc (hroom (the (heap sample_deleted ref'))) = stateActive} = {1}"
proof -
  have 1: "heap sample_deleted 1 \<noteq> None \<and> hid (the (heap sample_deleted 1)) = ''doc'' \<and>
      lc (hroom (the (heap sample_deleted 1))) = stateActive" by code_simp
  then obtain h where "heap sample_deleted 1 = Some h" "hid h = ''doc''" "lc (hroom h) = stateActive" by auto
  from one_live_room [OF sample_deleted_reachable this(1,3)] this 1 show ?thesis by auto
qed

text \<open>
  C3: no admission across a delete. Whenever \<^verbatim>\<open>acquire\<close> hands a room to a join, and whenever it
  registers one, that join was authorized first, captured the delete epoch after that, read that
  the document exists after that, and no delete (of any document) was marked since the capture. The
  epoch is a 64-bit counter, so this is stated below \<open>2 ^ 64\<close> deletes.
\<close>

theorem no_admission_across_delete:
  assumes "reachable es c s" and "hist s = xs @ ev # ys" and "ev = HAcquired j ref \<or> ev = HRegistered j did ref"
    and "deletes xs < 2 ^ 64"
  shows "\<exists>a b. xs = a @ HCaptured j # b \<and> HAuthorized j \<in> set a \<and> HExists j \<in> set b \<and>
    (\<forall>d did live. HDeleted d did live \<notin> set b)"
proof -
  have "justified event_ok (hist s)" using past.holds [OF assms(1)] by (simp add: past_inv_def)
  from justified_at [OF this assms(2)] have "fresh xs j" using assms(3,4) by auto
  then show ?thesis unfolding fresh_def deletes_def
    by (metis filter_empty_conv is_deleted.simps(1) length_0_conv)
qed

theorem no_admission_across_delete_witness:
  "\<exists>a b. [HAuthorized 0, HCaptured 0, HExists 0, HMaterialize 0, HRegistered 0 ''doc'' 0, HRoomOpened 0,
     HAcquired 0 0, HAdmitted 0 0, HDeleted 7 ''doc'' (Some 0), HRoomClosed 0, HAuthorized 1, HCaptured 1, HExists 1,
     HMaterialize 1, HRegistered 1 ''doc'' 1, HRoomOpened 1] = a @ HCaptured 1 # b \<and> HAuthorized 1 \<in> set a \<and> HExists 1 \<in> set b \<and>
    (\<forall>d did live. HDeleted d did live \<notin> set b)"
  by (rule no_admission_across_delete [OF sample_deleted_reachable, where ev = "HAcquired 1 1" and ys = "[HAdmitted 1 1]" and ref = 1])
    (simp_all add: sample_deleted_hist)

text \<open>
  C15: deleted content does not come back. Once a call of \<^verbatim>\<open>CloseDeleted\<close> has returned without error,
  every room that serves the document was registered after the delete was marked, by a join that
  captured its epoch and read that the document exists after that; the room that was live at the
  delete no longer runs.
\<close>

theorem no_resurrection:
  assumes "reachable es c s" and "hist s = xs @ HDeleted d did live # ys"
    and "deletions s d = Some t" and "delPC t = Returned None"
    and "map_of (rooms (man s)) did = Some ref" and "heap s ref = Some h" and "lc (hroom h) = stateActive"
    and "deletes (hist s) < 2 ^ 64"
  shows "live \<noteq> Some ref \<and> (\<exists>j. HRegistered j did ref \<in> set ys \<and> HCaptured j \<in> set ys \<and> HExists j \<in> set ys)"
proof -
  have wf: "sys_wf es s" and inv: "deletion_inv s" using dels.both [OF assms(1)] by auto
  have "hosted_ok (es ref) h" using wf assms(6) by (simp add: sys_wf_def heap_wf_def)
  then have live: "\<not> is_dead s ref" using hosted_ok_lc(1) assms(6,7) by (auto simp: is_dead_def)
  have "marked s d did live" using assms(2) by simp
  from deletion_invD(1) [OF inv this] live assms(3,4) have other: "live \<noteq> Some ref" by (auto simp: call_ok_def)
  moreover have "registry_inv s" by (rule reg.holds [OF assms(1)])
  ultimately obtain j where j: "HRegistered j did ref \<in> set ys"
    using assms(2,5) unfolding registry_inv_def by blast
  then obtain us vs where ys: "ys = us @ HRegistered j did ref # vs" by (meson split_list)
  have "justified event_ok (hist s)" using past.holds [OF assms(1)] by (simp add: past_inv_def)
  from justified_at [OF this, of "xs @ HDeleted d did live # us" "HRegistered j did ref" vs]
  have "fresh (xs @ HDeleted d did live # us) j" using assms(2,8) ys by simp
  then obtain a b where ab: "xs @ HDeleted d did live # us = a @ HCaptured j # b" "HExists j \<in> set b" "deletes b = 0"
    unfolding fresh_def by blast
  have "length xs < length a"
  proof (rule ccontr)
    assume "\<not> length xs < length a"
    then obtain w where "xs @ HDeleted d did live # us = a @ w @ HDeleted d did live # us" "xs = a @ w"
      using ab(1) by (metis append_eq_append_conv_if append_take_drop_id linorder_not_less append.assoc)
    then have "HDeleted d did live \<in> set b" using ab(1) by (cases w) auto
    then have "deletes b \<noteq> 0" by (metis deletes_def filter_empty_conv is_deleted.simps(1) length_0_conv)
    then show False using ab(3) by simp
  qed
  then obtain v where "v \<noteq> []" "HDeleted d did live # us = v @ HCaptured j # b"
    using ab(1) by (auto simp: append_eq_append_conv2)
  then obtain w where "us = w @ HCaptured j # b" by (cases v) auto
  then show ?thesis using other j ys ab(2) by auto
qed

theorem no_resurrection_witness:
  "\<exists>j. HRegistered j ''doc'' 1 \<in> set (drop 9 (hist sample_deleted)) \<and> HExists j \<in> set (drop 9 (hist sample_deleted))"
proof -
  have "deletions sample_deleted 7 \<noteq> None \<and> delPC (the (deletions sample_deleted 7)) = Returned None \<and>
      map_of (rooms (man sample_deleted)) ''doc'' = Some 1 \<and> heap sample_deleted 1 \<noteq> None \<and>
      lc (hroom (the (heap sample_deleted 1))) = stateActive" by code_simp
  then obtain t h where th: "deletions sample_deleted 7 = Some t" "delPC t = Returned None"
      "map_of (rooms (man sample_deleted)) ''doc'' = Some 1" "heap sample_deleted 1 = Some h" "lc (hroom h) = stateActive"
    by auto
  have "hist sample_deleted = take 8 (hist sample_deleted) @ HDeleted 7 ''doc'' (Some 0) # drop 9 (hist sample_deleted)"
    by (simp add: sample_deleted_hist)
  from no_resurrection [OF sample_deleted_reachable this th] show ?thesis by (auto simp: sample_deleted_hist)
qed

text \<open>
  C37: the rooms gauge is exact. Rooms reported open exceed rooms reported closed by the registered
  rooms whose opening has been reported, so the gauge never goes below zero, a room torn down before
  it was registered is not counted, and when no join is between registration and start the gauge is
  the number of registered rooms.
\<close>

theorem rooms_gauge:
  assumes "reachable es c s"
  shows "length (filter counts_open (hist s)) =
      length (filter counts_closed (hist s)) + length (filter (started s) (rooms (man s))) \<and>
    ((\<forall>j t ref. joins s j = Some t \<longrightarrow> pc t \<noteq> Opening ref) \<longrightarrow>
      length (filter counts_open (hist s)) = length (filter counts_closed (hist s)) + RoomCount (man s))"
proof -
  have "gauge_inv s" by (rule gauge.holds [OF assms])
  moreover have "filter (started s) (rooms (man s)) = rooms (man s)" if "\<forall>j t ref. joins s j = Some t \<longrightarrow> pc t \<noteq> Opening ref"
  proof -
    have "started s x" if x: "x \<in> set (rooms (man s))" for x
    proof -
      have wf: "sys_wf es s" and o: "opening_inv s" using unopened.both [OF assms] by auto
      obtain h where h: "heap s (snd x) = Some h" using registered_entry [OF wf, of "fst x" "snd x"] x by auto
      have "map_of (rooms (man s)) (fst x) = Some (snd x)" using wf x by (simp add: sys_wf_def rooms_wf_def)
      then show ?thesis using o h \<open>\<forall>j t ref. joins s j = Some t \<longrightarrow> pc t \<noteq> Opening ref\<close>
        unfolding opening_inv_def started_def by force
    qed
    then show ?thesis by (simp add: filter_id_conv)
  qed
  ultimately show ?thesis by (simp add: gauge_inv_def RoomCount_def)
qed

text \<open>
  C19: a shutdown misses no room. From the moment \<^verbatim>\<open>Close\<close> has taken its snapshot every registered room
  is in it, because registration is refused; and when \<^verbatim>\<open>Close\<close> returns within its deadline every
  registered room is closed, and a room that is still active is one a join is about to tear down
  again without ever registering it.
\<close>

theorem shutdown_misses_no_room:
  assumes "reachable es c s" and "draining s = Some refs"
  shows "(\<forall>did ref. map_of (rooms (man s)) did = Some ref \<longrightarrow> ref \<in> set refs) \<and> isClosed (man s) \<and>
    (closeOutcome s = Some False \<longrightarrow>
      (\<forall>did ref h. map_of (rooms (man s)) did = Some ref \<and> heap s ref = Some h \<longrightarrow> lc (hroom h) = stateClosed) \<and>
      (\<forall>ref h. heap s ref = Some h \<and> lc (hroom h) = stateActive \<longrightarrow> (\<exists>j t. joins s j = Some t \<and> pc t = Built ref)))"
proof -
  have wf: "sys_wf es s" and inv: "shutdown_inv s" using shut.both [OF assms(1)] by auto
  have reg: "ref \<in> set refs" if "map_of (rooms (man s)) did = Some ref" for did ref
    using inv assms(2) map_of_SomeD [OF that] by (force simp: shutdown_inv_def)
  have "lc (hroom h) = stateClosed" if "closeOutcome s = Some False" "map_of (rooms (man s)) did = Some ref" "heap s ref = Some h" for did ref h
  proof -
    have "is_dead s ref" using inv assms(2) reg [OF that(2)] that(1) by (auto simp: shutdown_inv_def)
    moreover have "hosted_ok (es ref) h" using wf that(3) by (simp add: sys_wf_def heap_wf_def)
    ultimately show ?thesis using that(3) by (auto simp: is_dead_def hosted_ok_def)
  qed
  moreover have "map_of (rooms (man s)) (hid h) = Some ref \<or> (\<exists>j t. joins s j = Some t \<and> pc t = Built ref)"
    if "heap s ref = Some h" "lc (hroom h) = stateActive" for ref h
    using live_room_at [OF wf that] by blast
  ultimately show ?thesis using inv assms(2) reg by (fastforce simp: shutdown_inv_def)
qed

theorem rooms_gauge_witness:
  "length (filter counts_open (hist sample_deleted)) = 2 \<and> length (filter counts_closed (hist sample_deleted)) = 1 \<and>
   length (filter (started sample_deleted) (rooms (man sample_deleted))) = 1"
proof -
  have "length (filter counts_open (hist sample_deleted)) = 2 \<and> length (filter counts_closed (hist sample_deleted)) = 1"
    by (simp add: sample_deleted_hist)
  then show ?thesis using rooms_gauge [OF sample_deleted_reachable] by simp
qed

theorem shutdown_misses_no_room_witness:
  "closeOutcome sample_shut = Some False \<and> lc (hroom (the (heap sample_shut 0))) = stateClosed"
proof -
  have "closeOutcome sample_shut = Some False \<and> draining sample_shut = Some [0] \<and>
      map_of (rooms (man sample_shut)) ''doc'' = Some 0 \<and> heap sample_shut 0 \<noteq> None" by code_simp
  then obtain h where "closeOutcome sample_shut = Some False" "draining sample_shut = Some [0]"
      "map_of (rooms (man sample_shut)) ''doc'' = Some 0" "heap sample_shut 0 = Some h" by auto
  then show ?thesis using shutdown_misses_no_room [OF sample_shut_reachable, of "[0]"] by auto
qed

section \<open>Sessions and the room\<close>

fun is_close :: "forward_event \<Rightarrow> bool" where
  "is_close (FwCloseAfterDrain _) = True"
| "is_close _ = False"

abbreviation heartbeat :: "('d, 'a) env \<Rightarrow> bytes \<Rightarrow> bool" where
  "heartbeat e data \<equiv> \<exists>p. read_message e data = Some (WireHeartbeat, p)"

lemma Forward_cases:
  assumes "Forward e outcome data s = (evs, s')"
  shows "sid s' = sid s" "hasConn s' = hasConn s" "dropped s' \<longleftrightarrow> dropped s \<or> outcome \<noteq> enqueueAdmitted \<and> \<not> heartbeat e data"
    "FwEnqueue cmd \<in> set evs \<Longrightarrow> cmd = CmdMessage (sid s) data (dropped s)"
    "length (filter is_close evs) \<le> (if dropped s \<or> \<not> dropped s' then 0 else 1)"
  using assms by (auto simp: Forward_def forward_room_def Let_def split: option.splits if_splits prod.splits)

lemma forward_all_frame:
  assumes "forward_all e calls s = (evs, s')"
  shows "sid s' = sid s \<and> (dropped s \<longrightarrow> dropped s') \<and>
    length (filter is_close evs) \<le> (if dropped s then 0 else 1) \<and>
    (dropped s \<longrightarrow> (\<forall>cmd. FwEnqueue cmd \<in> set evs \<longrightarrow> (\<exists>d. cmd = CmdMessage (sid s) d True)))"
  using assms
proof (induction calls arbitrary: s evs)
  case (Cons call calls)
  obtain outcome data where c: "call = (outcome, data)" by fastforce
  obtain evs1 s1 where f: "Forward e outcome data s = (evs1, s1)" by fastforce
  obtain evs2 where r: "forward_all e calls s1 = (evs2, s')" "evs = evs1 @ evs2"
    using Cons.prems c f by (auto split: prod.splits)
  note F = Forward_cases [OF f] and R = Cons.IH [OF r(1)]
  have closes: "length (filter is_close evs) \<le> (if dropped s then 0 else 1)"
    using F(3,5) R r(2) by (auto split: if_splits)
  show ?case using F(1,3) F(4) R r(2) closes by auto
qed simp

lemma forward_all_append:
  "forward_all e (xs @ ys) s =
     (case forward_all e xs s of (evs, s1) \<Rightarrow> (case forward_all e ys s1 of (evs', s2) \<Rightarrow> (evs @ evs', s2)))"
  by (induction xs arbitrary: s) (auto split: prod.splits)

text \<open>
  C16: a session that lost a frame is never vouched for. When a frame that is not a heartbeat was
  refused by the room's queue, every command the session queues afterwards carries the mark, and the
  room answers a durability request with that mark by a failure or not at all, never by parking or
  confirming it; over its whole life the session announces at most one end of its own.
\<close>

theorem lost_frame_never_vouched:
  assumes "forward_all e (earlier @ (outcome, data) # later) s = (evs, s')" and "outcome \<noteq> enqueueAdmitted"
    and "\<not> heartbeat e data"
  shows "length (filter is_close evs) \<le> 1 \<and>
    (\<exists>evs1 evs2. evs = evs1 @ evs2 \<and> evs1 = fst (forward_all e (earlier @ [(outcome, data)]) s) \<and>
      (\<forall>cmd. FwEnqueue cmd \<in> set evs2 \<longrightarrow> (\<exists>d. cmd = CmdMessage (sid s) d True)) \<and> filter is_close evs2 = []) \<and>
    (snd (handleDurabilityRequest e (sid s) p True r) = r \<or>
      (\<exists>rid reason. snd (handleDurabilityRequest e (sid s) p True r) = failBarrier e (sid s) rid reason r))"
proof -
  obtain evs1 s1 where one: "forward_all e (earlier @ [(outcome, data)]) s = (evs1, s1)" by fastforce
  obtain evs2 where two: "forward_all e later s1 = (evs2, s')" "evs = evs1 @ evs2"
    using assms(1) one forward_all_append [of e "earlier @ [(outcome, data)]" later s] by (auto split: prod.splits)
  obtain q0 s0 where zero: "forward_all e earlier s = (q0, s0)" by fastforce
  obtain q1 where last: "Forward e outcome data s0 = (q1, s1)"
    using one zero by (auto simp: forward_all_append split: prod.splits)
  have "dropped s1" using Forward_cases(3) [OF last] assms(2,3) by simp
  moreover have "sid s1 = sid s" using forward_all_frame [OF one] by simp
  ultimately have tail: "\<forall>cmd. FwEnqueue cmd \<in> set evs2 \<longrightarrow> (\<exists>d. cmd = CmdMessage (sid s) d True)" "filter is_close evs2 = []"
    using forward_all_frame [OF two(1)] by auto
  have "length (filter is_close evs) \<le> 1" using forward_all_frame [OF assms(1)] by (auto split: if_splits)
  moreover have "snd (handleDurabilityRequest e (sid s) p True r) = r \<or>
      (\<exists>rid reason. snd (handleDurabilityRequest e (sid s) p True r) = failBarrier e (sid s) rid reason r)"
    by (auto simp: handleDurabilityRequest_def Let_def split: option.splits)
  ultimately show ?thesis using one two tail by auto
qed

theorem lost_frame_never_vouched_witness:
  "let calls = [(enqueueAdmitted, [0, 2, 9]), (enqueueRefusedBackpressure, [0, 2, 8]), (enqueueRefusedBackpressure, [0, 2, 8]),
        (enqueueAdmitted, [4, 7])];
      evs = fst (forward_all sample_env calls \<lparr>sid = 1, hasConn = True, dropped = False\<rparr>)
   in evs = [FwEnqueue (CmdMessage 1 [0, 2, 9] False), FwSend (FControl (end_control (session_end CodeUpdateNotAccepted))),
        FwCloseAfterDrain (session_end CodeUpdateNotAccepted), FwEnqueue (CmdMessage 1 [4, 7] True)] \<and>
      length (filter is_close evs) \<le> 1"
proof -
  let ?s = "\<lparr>sid = 1, hasConn = True, dropped = False\<rparr>"
  let ?calls = "[(enqueueAdmitted, [0, 2, 9])] @ (enqueueRefusedBackpressure, [0, 2, 8]) #
    [(enqueueRefusedBackpressure, [0, 2, 8]), (enqueueAdmitted, [4, 7])]"
  have "\<not> heartbeat sample_env [0, 2, 8]" by (simp add: sample_env_def)
  with lost_frame_never_vouched [OF surjective_pairing, of enqueueRefusedBackpressure sample_env "[0, 2, 8]"]
  have "length (filter is_close (fst (forward_all sample_env ?calls ?s))) \<le> 1" by (simp only: enqueueOutcome.distinct not_False_eq_True)
  moreover have "fst (forward_all sample_env ?calls ?s) =
      [FwEnqueue (CmdMessage 1 [0, 2, 9] False), FwSend (FControl (end_control (session_end CodeUpdateNotAccepted))),
        FwCloseAfterDrain (session_end CodeUpdateNotAccepted), FwEnqueue (CmdMessage 1 [4, 7] True)]" by code_simp
  ultimately show ?thesis by (simp add: Let_def)
qed

end
