(* ===== verification/Stores.thy ===== *)
theory Stores
  imports RoomLoop
begin

text \<open>
  The stores behind the ports: the in-memory metadata index
  (\<^verbatim>\<open>internal/adapter/outbound/metadatastore/inmemory\<close>), the pointer resolver over an index
  (\<^verbatim>\<open>persistence/metapointer\<close>), and the two checkpoint stores, in process (\<^verbatim>\<open>persistence/inprocess\<close>) and
  over file-service (\<^verbatim>\<open>persistence/fileservice\<close>). file-service itself is reached over HTTP: its
  answers are the parameter \<open>file_service\<close>. A context that has ended before a call is the boolean
  \<open>ctxEnded\<close>.
\<close>

section \<open>The in-memory index\<close>

type_synonym rows = "document_id \<rightharpoonup> Metadata"

definition mem_Load :: "document_id \<Rightarrow> rows \<Rightarrow> load_error + Metadata" where
  "mem_Load did s = (case s did of None \<Rightarrow> Inl ErrNotFound | Some meta \<Rightarrow> Inr meta)"

definition unblank :: "string \<Rightarrow> string \<Rightarrow> string" where
  "unblank new old = (if new = '''' then old else new)"

definition coalesceBlank :: "Metadata \<Rightarrow> Metadata \<Rightarrow> Metadata" where
  "coalesceBlank m existing =
     m\<lparr>metaContentType := unblank (metaContentType m) (metaContentType existing),
       metaContentPointer := unblank (metaContentPointer m) (metaContentPointer existing),
       metaMigrated := (if metaMigrated existing then True else metaMigrated m),
       metaIsMultiUser := (if metaIsMultiUser m = None then metaIsMultiUser existing else metaIsMultiUser m),
       metaAuthorizationPolicyID := unblank (metaAuthorizationPolicyID m) (metaAuthorizationPolicyID existing),
       metaOwnerRef := unblank (metaOwnerRef m) (metaOwnerRef existing),
       metaStorageBucketID := unblank (metaStorageBucketID m) (metaStorageBucketID existing)\<rparr>"

definition mem_Save :: "int \<Rightarrow> Metadata \<Rightarrow> rows \<Rightarrow> load_error option \<times> rows" where
  "mem_Save now meta s =
     (let m = (case s (metaID meta) of
            Some existing \<Rightarrow>
              coalesceBlank (meta\<lparr>metaCreatedAt := metaCreatedAt existing, metaVersion := metaVersion existing + 1\<rparr>) existing
          | None \<Rightarrow>
              meta\<lparr>metaCreatedAt := now, metaMigrated := True,
                   metaVersion := (if metaVersion meta = 0 then 1 else metaVersion meta)\<rparr>)
      in (None, s(metaID meta \<mapsto> m\<lparr>metaUpdatedAt := now\<rparr>)))"

text \<open>\<^verbatim>\<open>Manager.PreRegister\<close> is the store's save.\<close>

definition PreRegister :: "(Metadata \<Rightarrow> 'm \<Rightarrow> load_error option \<times> 'm) \<Rightarrow> Metadata \<Rightarrow> 'm \<Rightarrow> load_error option \<times> 'm" where
  "PreRegister save meta m = save meta m"

section \<open>The pointer resolver\<close>

datatype pointer_error = ErrNoPointer string | IndexError load_error

definition resolver_Pointer ::
  "(document_id \<Rightarrow> 'm \<Rightarrow> load_error + Metadata) \<Rightarrow> document_id \<Rightarrow> 'm \<Rightarrow> pointer_error + string \<times> string" where
  "resolver_Pointer load did m =
     (case load did m of
        Inl err \<Rightarrow> if err = ErrNotFound then Inl (ErrNoPointer '''') else Inl (IndexError err)
      | Inr meta \<Rightarrow>
          if metaContentPointer meta = '''' then Inl (ErrNoPointer (metaStorageBucketID meta))
          else Inr (metaContentPointer meta, metaStorageBucketID meta))"

definition resolver_Record ::
  "(document_id \<Rightarrow> 'm \<Rightarrow> load_error + Metadata) \<Rightarrow> (Metadata \<Rightarrow> 'm \<Rightarrow> load_error option \<times> 'm) \<Rightarrow>
     document_id \<Rightarrow> string \<Rightarrow> 'm \<Rightarrow> load_error option \<times> 'm" where
  "resolver_Record load save did pointer m =
     (let row = (case load did m of
            Inr meta \<Rightarrow> Inr meta
          | Inl err \<Rightarrow> if err = ErrNotFound then Inr emptyMetadata else Inl err)
      in case row of
           Inl err \<Rightarrow> (Some err, m)
         | Inr meta \<Rightarrow> save (meta\<lparr>metaID := did, metaContentPointer := pointer\<rparr>) m)"

section \<open>Checkpoints\<close>

datatype encoding = EncodingUnspecified | EncodingV1 | EncodingV2

record saveRequest =
  reqDocument :: document_id
  reqFence :: nat
  reqEncoding :: encoding
  reqUpdate :: bytes
  reqVector :: bytes

record checkpoint =
  cpRevision :: "64 word"
  cpEncoding :: encoding
  cpUpdate :: bytes
  cpVector :: bytes

datatype store_error =
    ContextEnded
  | StoreNotFound
  | StoreCorrupt
  | ErrUnexpectedFence
  | ErrEncodingRequired
  | ErrUnsupportedEncoding
  | SnapshotTooLarge
  | ResolveFailed load_error
  | RecordFailed load_error
  | TransportError
  | DedupConflict
  | UnexpectedStatus int
  | CreateResponseInvalid

text \<open>What the room sees of a load error (\<^verbatim>\<open>isNotFound\<close>, \<^verbatim>\<open>ErrCorrupt\<close>, anything else).\<close>

fun room_load_error :: "store_error \<Rightarrow> load_error" where
  "room_load_error StoreNotFound = ErrNotFound"
| "room_load_error StoreCorrupt = ErrCorrupt"
| "room_load_error _ = ErrOther ''store''"

definition check_encoding :: "encoding \<Rightarrow> store_error option" where
  "check_encoding enc =
     (case enc of
        EncodingV2 \<Rightarrow> None
      | EncodingUnspecified \<Rightarrow> Some ErrEncodingRequired
      | _ \<Rightarrow> Some ErrUnsupportedEncoding)"

section \<open>The in-process store\<close>

record procStore =
  blobs :: "document_id \<rightharpoonup> bytes"
  vectors :: "document_id \<rightharpoonup> bytes"
  encodings :: "document_id \<rightharpoonup> encoding"
  revisionOf :: "document_id \<rightharpoonup> 64 word"
  revision :: "64 word"

definition newStore :: procStore where
  "newStore = \<lparr>blobs = Map.empty, vectors = Map.empty, encodings = Map.empty, revisionOf = Map.empty, revision = 0\<rparr>"

definition checkFence :: "nat \<Rightarrow> store_error option" where
  "checkFence fence = (if fence \<noteq> 0 then Some ErrUnexpectedFence else None)"

definition proc_SaveCheckpoint :: "bool \<Rightarrow> saveRequest \<Rightarrow> procStore \<Rightarrow> (store_error + 64 word) \<times> procStore" where
  "proc_SaveCheckpoint ctxEnded req s =
     (if ctxEnded then (Inl ContextEnded, s)
      else case check_encoding (reqEncoding req) of
        Some err \<Rightarrow> (Inl err, s)
      | None \<Rightarrow>
          (case checkFence (reqFence req) of
             Some err \<Rightarrow> (Inl err, s)
           | None \<Rightarrow>
               (let rev = revision s + 1; did = reqDocument req
                in (Inr rev,
                    s\<lparr>revision := rev, blobs := (blobs s)(did \<mapsto> reqUpdate req), vectors := (vectors s)(did \<mapsto> reqVector req),
                      encodings := (encodings s)(did \<mapsto> reqEncoding req), revisionOf := (revisionOf s)(did \<mapsto> rev)\<rparr>))))"

text \<open>A missing key of a Go map reads as the zero value.\<close>

definition proc_LoadCheckpoint :: "bool \<Rightarrow> document_id \<Rightarrow> procStore \<Rightarrow> store_error + checkpoint" where
  "proc_LoadCheckpoint ctxEnded did s =
     (if ctxEnded then Inl ContextEnded
      else case blobs s did of
        None \<Rightarrow> Inl StoreNotFound
      | Some blob \<Rightarrow>
          Inr \<lparr>cpRevision = (case revisionOf s did of Some n \<Rightarrow> n | None \<Rightarrow> 0),
               cpEncoding = (case encodings s did of Some enc \<Rightarrow> enc | None \<Rightarrow> EncodingUnspecified),
               cpUpdate = blob, cpVector = (case vectors s did of Some v \<Rightarrow> v | None \<Rightarrow> [])\<rparr>)"

section \<open>The file-service store\<close>

text \<open>
  The HTTP calls: PUT of a file's content, POST of a new file into a bucket, GET of a file's content.
  \<open>None\<close> is a transport error; otherwise the status code with what the response body decodes to (the
  new file's id, the content).
\<close>

record 'f file_service =
  put_content :: "string \<Rightarrow> bytes \<Rightarrow> 'f \<Rightarrow> int option \<times> 'f"
  post_file :: "string \<Rightarrow> bytes \<Rightarrow> 'f \<Rightarrow> (int \<times> string option) option \<times> 'f"
  get_content :: "string \<Rightarrow> 'f \<Rightarrow> (int \<times> bytes option) option"

text \<open>\<^verbatim>\<open>revisionCounter\<close>: an atomic \<^verbatim>\<open>uint64\<close>, read as it is and incremented with wrap-around.\<close>

abbreviation revision_next :: "64 word \<Rightarrow> 64 word" where
  "revision_next n \<equiv> n + 1"

record ('f, 'm) fileStore =
  service :: 'f
  index :: 'm
  revisionCounter :: "64 word"

definition rewrite :: "'f file_service \<Rightarrow> string \<Rightarrow> bytes \<Rightarrow> 'f \<Rightarrow> store_error option \<times> 'f" where
  "rewrite fs pointer data f =
     (case put_content fs pointer data f of
        (None, f') \<Rightarrow> (Some TransportError, f')
      | (Some code, f') \<Rightarrow>
          (if code \<in> {200, 201, 204} then None
           else if code = 404 then Some StoreNotFound
           else if code = 409 then Some DedupConflict
           else Some (UnexpectedStatus code), f'))"

definition create :: "'f file_service \<Rightarrow> string \<Rightarrow> bytes \<Rightarrow> 'f \<Rightarrow> (store_error + string) \<times> 'f" where
  "create fs bkt data f =
     (case post_file fs bkt data f of
        (None, f') \<Rightarrow> (Inl TransportError, f')
      | (Some (code, body), f') \<Rightarrow>
          (if code \<noteq> 200 \<and> code \<noteq> 201 then Inl (UnexpectedStatus code)
           else case body of
             None \<Rightarrow> Inl CreateResponseInvalid
           | Some fid \<Rightarrow> if fid = '''' then Inl CreateResponseInvalid else Inr fid, f'))"

definition readBounded :: "int \<Rightarrow> bytes \<Rightarrow> store_error + bytes" where
  "readBounded limit body =
     (if limit \<le> 0 then Inr body
      else let b = take (nat (limit + 1)) body
           in if int (length b) > limit then Inl StoreCorrupt else Inr b)"

definition fetch :: "'f file_service \<Rightarrow> int \<Rightarrow> string \<Rightarrow> 'f \<Rightarrow> store_error + bytes" where
  "fetch fs limit pointer f =
     (case get_content fs pointer f of
        None \<Rightarrow> Inl TransportError
      | Some (code, body) \<Rightarrow>
          if code = 404 then Inl StoreCorrupt
          else if code \<noteq> 200 then Inl (UnexpectedStatus code)
          else case body of None \<Rightarrow> Inl TransportError | Some b \<Rightarrow> readBounded limit b)"

text \<open>\<open>load\<close> and \<open>save\<close> are the index the resolver was built over, \<open>limit\<close> is \<^verbatim>\<open>MaxUploadSize\<close>.\<close>

definition fs_SaveCheckpoint ::
  "'f file_service \<Rightarrow> (document_id \<Rightarrow> 'm \<Rightarrow> load_error + Metadata) \<Rightarrow> (Metadata \<Rightarrow> 'm \<Rightarrow> load_error option \<times> 'm) \<Rightarrow> int \<Rightarrow>
     bool \<Rightarrow> saveRequest \<Rightarrow> ('f, 'm) fileStore \<Rightarrow> (store_error + 64 word) \<times> ('f, 'm) fileStore" where
  "fs_SaveCheckpoint fs load save limit ctxEnded req s =
     (if ctxEnded then (Inl ContextEnded, s)
      else if reqFence req \<noteq> 0 then (Inl ErrUnexpectedFence, s)
      else case check_encoding (reqEncoding req) of
        Some err \<Rightarrow> (Inl err, s)
      | None \<Rightarrow>
          if limit > 0 \<and> int (length (reqUpdate req)) > limit then (Inl SnapshotTooLarge, s)
          else case resolver_Pointer load (reqDocument req) (index s) of
            Inr (pointer, bkt) \<Rightarrow>
              (case rewrite fs pointer (reqUpdate req) (service s) of
                 (None, f') \<Rightarrow> (Inr (revision_next (revisionCounter s)), s\<lparr>service := f', revisionCounter := revision_next (revisionCounter s)\<rparr>)
               | (Some err, f') \<Rightarrow> (Inl (if err = StoreNotFound then StoreCorrupt else err), s\<lparr>service := f'\<rparr>))
          | Inl (IndexError err) \<Rightarrow> (Inl (ResolveFailed err), s)
          | Inl (ErrNoPointer bkt) \<Rightarrow>
              if bkt = '''' then (Inl StoreCorrupt, s)
              else case create fs bkt (reqUpdate req) (service s) of
                (Inl err, f') \<Rightarrow> (Inl err, s\<lparr>service := f'\<rparr>)
              | (Inr pointer, f') \<Rightarrow>
                  (case resolver_Record load save (reqDocument req) pointer (index s) of
                     (Some err, m') \<Rightarrow> (Inl (RecordFailed err), s\<lparr>service := f', index := m'\<rparr>)
                   | (None, m') \<Rightarrow>
                       (Inr (revision_next (revisionCounter s)),
                        s\<lparr>service := f', index := m', revisionCounter := revision_next (revisionCounter s)\<rparr>)))"

definition fs_LoadCheckpoint ::
  "'f file_service \<Rightarrow> (document_id \<Rightarrow> 'm \<Rightarrow> load_error + Metadata) \<Rightarrow> int \<Rightarrow> (bytes \<Rightarrow> bytes option) \<Rightarrow>
     bool \<Rightarrow> document_id \<Rightarrow> ('f, 'm) fileStore \<Rightarrow> store_error + checkpoint" where
  "fs_LoadCheckpoint fs load limit state_vector ctxEnded did s =
     (if ctxEnded then Inl ContextEnded
      else case resolver_Pointer load did (index s) of
        Inl (ErrNoPointer _) \<Rightarrow> Inl StoreNotFound
      | Inl (IndexError err) \<Rightarrow> Inl (ResolveFailed err)
      | Inr (pointer, _) \<Rightarrow>
          (case fetch fs limit pointer (service s) of
             Inl err \<Rightarrow> Inl err
           | Inr blob \<Rightarrow>
               (case state_vector blob of
                  None \<Rightarrow> Inl StoreCorrupt
                | Some v \<Rightarrow>
                    Inr \<lparr>cpRevision = revisionCounter s, cpEncoding = EncodingV2, cpUpdate = blob, cpVector = v\<rparr>)))"

end
