(* ===== verification/Attachment.thy ===== *)
theory Attachment
  imports Prelude
begin

text \<open>
  How the two RabbitMQ clients stay attached to the broker: \<^verbatim>\<open>run\<close>, \<^verbatim>\<open>reattach\<close>, \<^verbatim>\<open>adopt\<close> and \<^verbatim>\<open>Close\<close> of
  \<^verbatim>\<open>internal/adapter/outbound/metadatastore/rabbitmq/conn.go\<close> and of
  \<^verbatim>\<open>internal/adapter/inbound/lifecycle/conn.go\<close>, which mirror each other. Sessions are numbered in the
  order they are dialled. The supervisor goroutine is a phase, every call of \<^verbatim>\<open>Close\<close> is a thread, and a
  step is one locked section or one call between two of them.
\<close>

section \<open>Opening a session\<close>

text \<open>
  \<^verbatim>\<open>openSession\<close>: the calls that wire an attachment up, each of which may fail, and what is closed
  again when one does. The answers of the broker are the argument.
\<close>

datatype broker_call = Dial | OpenChannel | Declare string | SetQos int | Consume string

datatype wire = WOpenConn | WOpenCh | WCloseCh | WCloseConn

fun setup_all :: "(broker_call \<Rightarrow> bool) \<Rightarrow> broker_call list \<Rightarrow> bool" where
  "setup_all ok [] = True"
| "setup_all ok (x # xs) = (if ok x then setup_all ok xs else False)"

definition openSession :: "(broker_call \<Rightarrow> bool) \<Rightarrow> broker_call list \<Rightarrow> bool \<times> wire list" where
  "openSession ok wiring =
     (if \<not> ok Dial then (False, [])
      else if \<not> ok OpenChannel then (False, [WOpenConn, WCloseConn])
      else if setup_all ok wiring then (True, [WOpenConn, WOpenCh])
      else (False, [WOpenConn, WOpenCh, WCloseCh, WCloseConn]))"

text \<open>Whatever step fails, nothing stays open; and every step is needed.\<close>

lemma openSession_outcome:
  "openSession ok wiring = (False, ws) \<Longrightarrow> count_list ws WOpenConn = count_list ws WCloseConn \<and> count_list ws WOpenCh = count_list ws WCloseCh"
  "fst (openSession ok wiring) \<longleftrightarrow> ok Dial \<and> ok OpenChannel \<and> (\<forall>x\<in>set wiring. ok x)"
proof -
  have "setup_all ok xs \<longleftrightarrow> (\<forall>x\<in>set xs. ok x)" for xs by (induction xs) auto
  then show "fst (openSession ok wiring) \<longleftrightarrow> ok Dial \<and> ok OpenChannel \<and> (\<forall>x\<in>set wiring. ok x)" by (simp add: openSession_def)
qed (auto simp: openSession_def split: if_splits)

section \<open>The attachment and its supervisor\<close>

record attachment =
  attConn :: nat
  attCh :: nat
  shutdown :: bool

datatype phase = Consuming nat | Releasing nat | Pausing | Dialling | Holding nat | Refusing nat | Stopped

datatype closer = Closing | TookChannel nat | TookBoth nat nat | ClosedAll

record 'c supervised =
  client :: 'c
  phase :: phase
  dialled :: nat
  closedChs :: "nat list"
  closedConns :: "nat list"
  closers :: "nat \<rightharpoonup> closer"

definition shut_session :: "nat \<Rightarrow> nat \<Rightarrow> 'c supervised \<Rightarrow> 'c supervised" where
  "shut_session ch conn s = s\<lparr>closedChs := ch # closedChs s, closedConns := conn # closedConns s\<rparr>"

text \<open>\<^verbatim>\<open>Connect\<close> has opened the first session before the supervisor starts.\<close>

definition supervise :: "'c \<Rightarrow> 'c supervised" where
  "supervise c =
     \<lparr>client = c, phase = Consuming 0, dialled = 1, closedChs = [], closedConns = [], closers = Map.empty\<rparr>"

text \<open>
  \<open>adopt\<close> is the client's own \<^verbatim>\<open>adopt\<close>, \<open>snap\<close> what the locked section of its \<^verbatim>\<open>Close\<close> changes. The RPC client
  reads channel and connection under one lock, the lifecycle consumer (\<open>split\<close>) under two.
\<close>

inductive sup_step ::
  "(nat \<Rightarrow> 'a attachment_scheme \<Rightarrow> bool \<times> 'a attachment_scheme) \<Rightarrow> ('a attachment_scheme \<Rightarrow> 'a attachment_scheme) \<Rightarrow> bool \<Rightarrow>
     'a attachment_scheme supervised \<Rightarrow> 'a attachment_scheme supervised \<Rightarrow> bool"
  for adopt snap split s where
  sup_dropped: "phase s = Consuming n \<Longrightarrow> sup_step adopt snap split s (s\<lparr>phase := Releasing n\<rparr>)"
| sup_released: "phase s = Releasing n \<Longrightarrow> sup_step adopt snap split s (shut_session n n s\<lparr>phase := Pausing\<rparr>)"
| sup_stopped: "phase s = Pausing \<Longrightarrow> shutdown (client s) \<Longrightarrow> sup_step adopt snap split s (s\<lparr>phase := Stopped\<rparr>)"
| sup_dial: "phase s = Pausing \<Longrightarrow> sup_step adopt snap split s (s\<lparr>phase := Dialling\<rparr>)"
| sup_dial_failed: "phase s = Dialling \<Longrightarrow> sup_step adopt snap split s (s\<lparr>phase := Pausing\<rparr>)"
| sup_dialled: "phase s = Dialling \<Longrightarrow>
    sup_step adopt snap split s (s\<lparr>phase := Holding (dialled s), dialled := Suc (dialled s)\<rparr>)"
| sup_adopted: "phase s = Holding n \<Longrightarrow> adopt n (client s) = (True, c) \<Longrightarrow>
    sup_step adopt snap split s (s\<lparr>phase := Consuming n, client := c\<rparr>)"
| sup_refused: "phase s = Holding n \<Longrightarrow> adopt n (client s) = (False, c) \<Longrightarrow>
    sup_step adopt snap split s (s\<lparr>phase := Refusing n, client := c\<rparr>)"
| sup_discarded: "phase s = Refusing n \<Longrightarrow> sup_step adopt snap split s (shut_session n n s\<lparr>phase := Stopped\<rparr>)"
| close_shutdown: "closers s t = None \<Longrightarrow>
    sup_step adopt snap split s (s\<lparr>client := (client s)\<lparr>shutdown := True\<rparr>, closers := (closers s)(t \<mapsto> Closing)\<rparr>)"
| close_take_channel: "split \<Longrightarrow> closers s t = Some Closing \<Longrightarrow>
    sup_step adopt snap split s (s\<lparr>closers := (closers s)(t \<mapsto> TookChannel (attCh (client s)))\<rparr>)"
| close_take_conn: "split \<Longrightarrow> closers s t = Some (TookChannel n) \<Longrightarrow>
    sup_step adopt snap split s
      (s\<lparr>closedChs := n # closedChs s, closers := (closers s)(t \<mapsto> TookBoth n (attConn (client s)))\<rparr>)"
| close_take_both: "\<not> split \<Longrightarrow> closers s t = Some Closing \<Longrightarrow>
    sup_step adopt snap split s
      (s\<lparr>client := snap (client s), closers := (closers s)(t \<mapsto> TookBoth (attCh (client s)) (attConn (client s)))\<rparr>)"
| close_done: "closers s t = Some (TookBoth n m) \<Longrightarrow>
    sup_step adopt snap split s (shut_session n m s\<lparr>closers := (closers s)(t \<mapsto> ClosedAll)\<rparr>)"

inductive_cases sup_stepE: "sup_step adopt snap split s s'"

section \<open>No connection outlives the shutdown\<close>

fun held :: "phase \<Rightarrow> nat option" where
  "held (Consuming n) = Some n"
| "held (Releasing n) = Some n"
| "held (Holding n) = Some n"
| "held (Refusing n) = Some n"
| "held _ = None"

fun closer_ok :: "'a attachment_scheme \<Rightarrow> nat list \<Rightarrow> nat list \<Rightarrow> closer \<Rightarrow> bool" where
  "closer_ok c chs conns Closing = True"
| "closer_ok c chs conns (TookChannel n) = (n = attCh c)"
| "closer_ok c chs conns (TookBoth n m) = (n = attCh c \<and> m = attConn c)"
| "closer_ok c chs conns ClosedAll = (attCh c \<in> set chs \<and> attConn c \<in> set conns)"

definition closers_ok :: "'a attachment_scheme \<Rightarrow> nat list \<Rightarrow> nat list \<Rightarrow> (nat \<rightharpoonup> closer) \<Rightarrow> bool" where
  "closers_ok c chs conns ks \<longleftrightarrow> (\<forall>t k. ks t = Some k \<longrightarrow> closer_ok c chs conns k)"

definition sup_inv :: "'a attachment_scheme supervised \<Rightarrow> bool" where
  "sup_inv s \<longleftrightarrow>
     (\<forall>n<dialled s. held (phase s) = Some n \<or> n \<in> set (closedChs s) \<and> n \<in> set (closedConns s)) \<and>
     (\<forall>n. held (phase s) = Some n \<longrightarrow> n < dialled s) \<and>
     (\<forall>n. phase s = Consuming n \<longrightarrow> attConn (client s) = n \<and> attCh (client s) = n) \<and>
     (phase s = Stopped \<or> (\<exists>n. phase s = Refusing n) \<or> (\<exists>t. closers s t \<noteq> None) \<longrightarrow> shutdown (client s)) \<and>
     closers_ok (client s) (closedChs s) (closedConns s) (closers s)"

lemma sup_invD:
  assumes "sup_inv s"
  shows sup_inv_closed: "n < dialled s \<Longrightarrow> held (phase s) = Some n \<or> n \<in> set (closedChs s) \<and> n \<in> set (closedConns s)"
    and sup_inv_held: "held (phase s) = Some n \<Longrightarrow> n < dialled s"
    and sup_inv_live: "phase s = Consuming n \<Longrightarrow> attConn (client s) = n \<and> attCh (client s) = n"
    and sup_inv_shut: "closers s t \<noteq> None \<Longrightarrow> shutdown (client s)"
    and sup_inv_stopped: "phase s = Stopped \<Longrightarrow> shutdown (client s)"
    and sup_inv_closer: "closers s t = Some k \<Longrightarrow> closer_ok (client s) (closedChs s) (closedConns s) k"
  using assms unfolding sup_inv_def closers_ok_def by blast+

lemma shut_session_simps [simp]:
  "client (shut_session a b s) = client s" "phase (shut_session a b s) = phase s" "dialled (shut_session a b s) = dialled s"
  "closedChs (shut_session a b s) = a # closedChs s" "closedConns (shut_session a b s) = b # closedConns s"
  "closers (shut_session a b s) = closers s"
  by (simp_all add: shut_session_def)

lemma closer_ok_mono:
  "closer_ok c chs conns k \<Longrightarrow> set chs \<subseteq> set chs' \<Longrightarrow> set conns \<subseteq> set conns' \<Longrightarrow> attCh c' = attCh c \<Longrightarrow> attConn c' = attConn c \<Longrightarrow>
     closer_ok c' chs' conns' k"
  by (cases k) auto

lemma closers_ok_mono:
  "closers_ok c chs conns ks \<Longrightarrow> set chs \<subseteq> set chs' \<Longrightarrow> set conns \<subseteq> set conns' \<Longrightarrow> attCh c' = attCh c \<Longrightarrow> attConn c' = attConn c \<Longrightarrow>
     closers_ok c' chs' conns' ks"
  unfolding closers_ok_def by (metis closer_ok_mono)

lemma closers_ok_upd:
  "closers_ok c chs conns ks \<Longrightarrow> closer_ok c chs conns k \<Longrightarrow> closers_ok c chs conns (ks(t \<mapsto> k))"
  by (simp add: closers_ok_def)

lemma sup_inv_frame:
  "sup_inv s \<Longrightarrow> attConn c = attConn (client s) \<Longrightarrow> attCh c = attCh (client s) \<Longrightarrow> (shutdown (client s) \<longrightarrow> shutdown c) \<Longrightarrow>
     sup_inv (s\<lparr>client := c\<rparr>)"
  unfolding sup_inv_def by (auto elim: closers_ok_mono)

lemma sup_inv_start: "attConn c = 0 \<Longrightarrow> attCh c = 0 \<Longrightarrow> sup_inv (supervise c)"
  by (simp add: sup_inv_def supervise_def closers_ok_def)

text \<open>What \<^verbatim>\<open>adopt\<close> promises its supervisor: nothing is installed once the shutdown has begun.\<close>

locale attachable =
  fixes adopt :: "nat \<Rightarrow> 'a attachment_scheme \<Rightarrow> bool \<times> 'a attachment_scheme"
    and snap :: "'a attachment_scheme \<Rightarrow> 'a attachment_scheme"
    and split :: bool
  assumes adopt_refuses: "shutdown c \<Longrightarrow> adopt n c = (False, c)"
    and adopt_installs: "\<not> shutdown c \<Longrightarrow>
      fst (adopt n c) \<and> attConn (snd (adopt n c)) = n \<and> attCh (snd (adopt n c)) = n \<and> \<not> shutdown (snd (adopt n c))"
    and snap_keeps: "attConn (snap c) = attConn c \<and> attCh (snap c) = attCh c \<and> shutdown (snap c) = shutdown c"
begin

lemma adoptD: "adopt n c = (True, c') \<Longrightarrow> \<not> shutdown c \<and> \<not> shutdown c' \<and> attConn c' = n \<and> attCh c' = n"
  using adopt_refuses [of c n] adopt_installs [of c n] by (cases "shutdown c") auto

lemma refusedD: "adopt n c = (False, c') \<Longrightarrow> shutdown c \<and> c' = c"
  using adopt_refuses [of c n] adopt_installs [of c n] by (cases "shutdown c") auto

lemma sup_inv_step:
  assumes "sup_inv s" and "sup_step adopt snap split s s'"
  shows "sup_inv s'"
  using assms(2)
proof (cases rule: sup_step.cases)
  case (sup_adopted n c)
  note a = adoptD [OF sup_adopted(3)]
  then have "closers s t = None" for t using sup_inv_shut [OF assms(1)] by blast
  then show ?thesis using assms(1) sup_adopted a by (auto simp: sup_inv_def closers_ok_def)
next
  case (close_take_both t)
  then show ?thesis using assms(1) snap_keeps [of "client s"]
    by (auto simp: sup_inv_def intro!: closers_ok_upd elim: closers_ok_mono)
next
  case (close_take_conn t n)
  then have "n = attCh (client s)" using sup_inv_closer [OF assms(1) close_take_conn(3)] by simp
  then show ?thesis using assms(1) close_take_conn
    by (auto simp: sup_inv_def intro!: closers_ok_upd elim: closers_ok_mono)
next
  case (close_done t n m)
  then show ?thesis using assms(1) sup_inv_closer [OF assms(1) close_done(2)]
    by (auto simp: sup_inv_def intro!: closers_ok_upd elim: closers_ok_mono)
next
  case (close_shutdown t)
  then show ?thesis using assms(1)
    by (auto simp: sup_inv_def intro!: closers_ok_upd elim: closers_ok_mono)
next
  case (close_take_channel t)
  then show ?thesis using assms(1) by (auto simp: sup_inv_def intro!: closers_ok_upd)
qed (use assms(1) in \<open>auto simp: sup_inv_def less_Suc_eq dest: refusedD elim: closers_ok_mono\<close>)

text \<open>Once a \<^verbatim>\<open>Close\<close> has returned, whatever was dialled is closed or in the hands of a supervisor that is
  about to close it, and no session is installed any more.\<close>

lemma closed_all_sessions:
  assumes "sup_inv s" and "closers s t = Some ClosedAll" and "n < dialled s"
  shows "n \<in> set (closedConns s) \<or> phase s \<in> {Releasing n, Holding n, Refusing n}"
proof (cases "held (phase s) = Some n")
  case True
  then show ?thesis
    using sup_inv_live [OF assms(1)] sup_inv_closer [OF assms(1,2)] by (cases "phase s") auto
qed (use sup_inv_closed [OF assms(1,3)] in auto)

lemma closed_no_adopt:
  assumes "sup_inv s" and "closers s t \<noteq> None" and "sup_step adopt snap split s s'"
  shows "attConn (client s') = attConn (client s) \<and> attCh (client s') = attCh (client s)"
  using assms(3) sup_inv_shut [OF assms(1,2)] snap_keeps
  by (cases rule: sup_step.cases) (auto dest: adoptD refusedD)

end

end
