(* ===== verification/RpcClient.thy ===== *)
theory RpcClient
  imports Attachment
begin

text \<open>
  The request/reply transport of the metadata store
  (\<^verbatim>\<open>internal/adapter/outbound/metadatastore/rabbitmq/conn.go\<close>): calls wait for a reply that carries
  their correlation id, the supervisor's goroutine dispatches replies and replaces the session when
  the broker drops it, and \<^verbatim>\<open>Close\<close> ends it. Every locked section is one step, and so is a send on a
  waiter's channel, whose buffer has one slot. Correlation ids are the numbers of the calls:
  \<^verbatim>\<open>uuid.NewString\<close> does not return an id twice. JSON bodies are decoded by a parameter.
\<close>

section \<open>Replies\<close>

record nestReply =
  replyResponse :: bytes
  replyErr :: bytes

definition json_null :: bytes where
  "json_null = [110, 117, 108, 108]"

text \<open>The two error replies the client makes itself, as JSON strings.\<close>

definition json_string :: "string \<Rightarrow> bytes" where
  "json_string v = [34] @ map of_char v @ [34]"

definition malformedReply :: nestReply where
  "malformedReply = \<lparr>replyResponse = [], replyErr = json_string ''malformed reply envelope''\<rparr>"

definition channelClosedReply :: nestReply where
  "channelClosedReply = \<lparr>replyResponse = [], replyErr = json_string ''rabbitmq reply channel closed''\<rparr>"

definition decodeReply :: "(bytes \<Rightarrow> nestReply option) \<Rightarrow> bytes \<Rightarrow> nestReply" where
  "decodeReply unmarshal body = (case unmarshal body of Some r \<Rightarrow> r | None \<Rightarrow> malformedReply)"

datatype call_error = CallDetached | CallPublish | CallTimeout | CallServer bytes | CallUnmarshal | CallMarshal

text \<open>What \<^verbatim>\<open>Call\<close> makes of the reply; \<open>None\<close> when the response is empty and the caller's value stays as it
  was.\<close>

definition call_result :: "nestReply \<Rightarrow> call_error + bytes option" where
  "call_result r =
     (if replyErr r \<noteq> [] \<and> replyErr r \<noteq> json_null then Inl (CallServer (replyErr r))
      else if replyResponse r \<noteq> [] then Inr (Some (replyResponse r))
      else Inr None)"

section \<open>The client\<close>

type_synonym call_id = nat

record rpc_client = attachment +
  replyQ :: nat
  detached :: bool
  pending :: "call_id list"

definition rpc_connect :: rpc_client where
  "rpc_connect = \<lparr>attConn = 0, attCh = 0, shutdown = False, replyQ = 0, detached = False, pending = []\<rparr>"

text \<open>The calls that wire a session up: the exclusive reply queue, the server's queue, the reply consumer.\<close>

definition rpc_wiring :: "string \<Rightarrow> string \<Rightarrow> broker_call list" where
  "rpc_wiring replyName queue = [Declare '''', Declare queue, Consume replyName]"

definition DefaultRpcReattachBackoff :: int where
  "DefaultRpcReattachBackoff = 2 * 10 ^ 9"

datatype connect_error = URLRequired | QueueRequired | OpenFailed

text \<open>\<^verbatim>\<open>Connect\<close>: the client, its request timeout and its backoff.\<close>

definition rpc_Connect ::
  "(broker_call \<Rightarrow> bool) \<Rightarrow> string \<Rightarrow> string \<Rightarrow> string \<Rightarrow> int \<Rightarrow> int \<Rightarrow> connect_error + rpc_client \<times> int \<times> int" where
  "rpc_Connect ok url queue replyName timeout backoff =
     (if url = '''' then Inl URLRequired
      else if queue = '''' then Inl QueueRequired
      else if \<not> fst (openSession ok (rpc_wiring replyName queue)) then Inl OpenFailed
      else Inr (rpc_connect, if timeout \<le> 0 then 5 * 10 ^ 9 else timeout,
                if backoff \<le> 0 then DefaultRpcReattachBackoff else backoff))"

definition rpc_adopt :: "nat \<Rightarrow> rpc_client \<Rightarrow> bool \<times> rpc_client" where
  "rpc_adopt n c =
     (if shutdown c then (False, c)
      else (True, c\<lparr>attConn := n, attCh := n, replyQ := n, detached := False\<rparr>))"

definition rpc_snap :: "rpc_client \<Rightarrow> rpc_client" where
  "rpc_snap c = c\<lparr>detached := True\<rparr>"

text \<open>The waiter registration of \<^verbatim>\<open>Call\<close>: channel and reply queue are read with it, under one lock.\<close>

definition call_register :: "call_id \<Rightarrow> rpc_client \<Rightarrow> (call_error + nat \<times> nat) \<times> rpc_client" where
  "call_register i c =
     (if detached c then (Inl CallDetached, c)
      else (Inr (attCh c, replyQ c), c\<lparr>pending := i # pending c\<rparr>))"

definition call_forget :: "call_id \<Rightarrow> rpc_client \<Rightarrow> rpc_client" where
  "call_forget i c = c\<lparr>pending := removeAll i (pending c)\<rparr>"

text \<open>The locked sections of \<^verbatim>\<open>deliver\<close> and \<^verbatim>\<open>failAllPending\<close>: the sends they lead to.\<close>

definition rpc_deliver :: "call_id \<Rightarrow> nestReply \<Rightarrow> rpc_client \<Rightarrow> (call_id \<times> nestReply) list \<times> rpc_client" where
  "rpc_deliver i r c = (if i \<in> set (pending c) then ([(i, r)], call_forget i c) else ([], c))"

definition failAllPending :: "rpc_client \<Rightarrow> (call_id \<times> nestReply) list \<times> rpc_client" where
  "failAllPending c = (map (\<lambda>i. (i, channelClosedReply)) (pending c), c\<lparr>detached := True, pending := []\<rparr>)"

definition Emit :: "(nat \<Rightarrow> bytes \<Rightarrow> bool) \<Rightarrow> bytes option \<Rightarrow> rpc_client \<Rightarrow> call_error option" where
  "Emit publish body c =
     (case body of None \<Rightarrow> Some CallMarshal | Some b \<Rightarrow> if publish (attCh c) b then None else Some CallPublish)"

section \<open>Calls as threads\<close>

datatype call_state = Publishing | Awaiting | Leaving "call_error + bytes option" | Returned "call_error + bytes option"

record call =
  callCh :: nat
  callReplyQ :: nat
  callWaiter :: "nestReply list"
  callState :: call_state

record rpc_sys =
  sup :: "rpc_client supervised"
  calls :: "call_id \<rightharpoonup> call"
  sends :: "(call_id \<times> nestReply) list"
  streamEnded :: bool
  received :: "(nat \<times> call_id \<times> nestReply) list"

abbreviation the_client :: "rpc_sys \<Rightarrow> rpc_client" where
  "the_client s \<equiv> client (sup s)"

definition set_client :: "rpc_client \<Rightarrow> rpc_sys \<Rightarrow> rpc_sys" where
  "set_client c s = s\<lparr>sup := (sup s)\<lparr>client := c\<rparr>\<rparr>"

definition put_call :: "call_id \<Rightarrow> call \<Rightarrow> rpc_sys \<Rightarrow> rpc_sys" where
  "put_call i k s = s\<lparr>calls := (calls s)(i \<mapsto> k)\<rparr>"

definition rpc_start :: rpc_sys where
  "rpc_start = \<lparr>sup = supervise rpc_connect, calls = Map.empty, sends = [], streamEnded = False, received = []\<rparr>"

text \<open>
  The goroutine of \<^verbatim>\<open>consumeReplies\<close> is inside a session until \<open>streamEnded\<close>; it takes the next delivery
  only when its sends are done, and leaves the phase only after \<^verbatim>\<open>failAllPending\<close>.
\<close>

inductive rpc_step :: "rpc_sys \<Rightarrow> rpc_sys \<Rightarrow> bool" for s where
  call_refused: "calls s i = None \<Longrightarrow> call_register i (the_client s) = (Inl err, c) \<Longrightarrow>
    rpc_step s (put_call i \<lparr>callCh = 0, callReplyQ = 0, callWaiter = [], callState = Returned (Inl err)\<rparr> s)"
| call_registered: "calls s i = None \<Longrightarrow> call_register i (the_client s) = (Inr (ch, q), c) \<Longrightarrow>
    rpc_step s (put_call i \<lparr>callCh = ch, callReplyQ = q, callWaiter = [], callState = Publishing\<rparr> (set_client c s))"
| call_published: "calls s i = Some k \<Longrightarrow> callState k = Publishing \<Longrightarrow> rpc_step s (put_call i (k\<lparr>callState := Awaiting\<rparr>) s)"
| call_unpublished: "calls s i = Some k \<Longrightarrow> callState k = Publishing \<Longrightarrow>
    rpc_step s (put_call i (k\<lparr>callState := Leaving (Inl CallPublish)\<rparr>) s)"
| call_timeout: "calls s i = Some k \<Longrightarrow> callState k = Awaiting \<Longrightarrow>
    rpc_step s (put_call i (k\<lparr>callState := Leaving (Inl CallTimeout)\<rparr>) s)"
| call_receives: "calls s i = Some k \<Longrightarrow> callState k = Awaiting \<Longrightarrow> callWaiter k = r # rs \<Longrightarrow>
    rpc_step s (put_call i (k\<lparr>callWaiter := rs, callState := Leaving (call_result r)\<rparr>) s)"
| call_left: "calls s i = Some k \<Longrightarrow> callState k = Leaving res \<Longrightarrow>
    rpc_step s (put_call i (k\<lparr>callState := Returned res\<rparr>) (set_client (call_forget i (the_client s)) s))"
| reply_received: "phase (sup s) = Consuming n \<Longrightarrow> \<not> streamEnded s \<Longrightarrow> sends s = [] \<Longrightarrow>
    rpc_deliver i r (the_client s) = (out, c) \<Longrightarrow>
    rpc_step s ((set_client c s)\<lparr>sends := out, received := (n, i, r) # received s\<rparr>)"
| reply_sent: "sends s = (i, r) # rest \<Longrightarrow> calls s i = Some k \<Longrightarrow> callWaiter k = [] \<Longrightarrow>
    rpc_step s ((put_call i (k\<lparr>callWaiter := [r]\<rparr>) s)\<lparr>sends := rest\<rparr>)"
| stream_ended: "phase (sup s) = Consuming n \<Longrightarrow> \<not> streamEnded s \<Longrightarrow> sends s = [] \<Longrightarrow>
    failAllPending (the_client s) = (out, c) \<Longrightarrow>
    rpc_step s ((set_client c s)\<lparr>sends := out, streamEnded := True\<rparr>)"
| supervised: "sup_step rpc_adopt rpc_snap False (sup s) t \<Longrightarrow>
    ((\<exists>n. phase (sup s) = Consuming n) \<and> phase t \<noteq> phase (sup s) \<longrightarrow> streamEnded s \<and> sends s = []) \<Longrightarrow>
    rpc_step s (s\<lparr>sup := t, streamEnded := (streamEnded s \<and> phase t = phase (sup s))\<rparr>)"

inductive rpc_reach :: "rpc_sys \<Rightarrow> bool" where
  rpc_new: "rpc_reach rpc_start"
| rpc_next: "rpc_reach s \<Longrightarrow> rpc_step s s' \<Longrightarrow> rpc_reach s'"

end
