(* ===== verification/RmqStore.thy ===== *)
theory RmqStore
  imports Stores RpcClient
begin

text \<open>
  The metadata store over the server's RabbitMQ bus
  (\<^verbatim>\<open>internal/adapter/outbound/metadatastore/rabbitmq/store.go\<close> and \<^verbatim>\<open>contract.go\<close>), on top of the outcome of
  \<^verbatim>\<open>Call\<close>. The server at the other end of the bus is the parameter \<open>bus\<close>: what a call comes back with and
  what it did to the server's state, a lost request or a lost reply included. JSON bodies are decoded
  by the parameters \<open>decodeFetch\<close> and \<open>decodeSave\<close>.
\<close>

section \<open>The wire contract\<close>

record SaveData =
  sdID :: string
  sdContentType :: string
  sdVersion :: int
  sdContentPointer :: string
  sdAuthorizationPolicyID :: string
  sdOwnerRef :: string

record SaveReply =
  srSuccess :: bool
  srError :: string

record FetchReply =
  frFound :: bool
  frContentType :: string
  frVersion :: int
  frContentPointer :: string
  frMigrated :: bool
  frIsMultiUser :: "bool option"
  frAuthorizationPolicyID :: string
  frStorageBucketID :: string
  frOwnerRef :: string
  frError :: string

text \<open>The zero values the replies start from: an empty response leaves them as they are.\<close>

definition zeroSaveReply :: SaveReply where
  "zeroSaveReply = \<lparr>srSuccess = False, srError = ''''\<rparr>"

definition zeroFetchReply :: FetchReply where
  "zeroFetchReply = \<lparr>frFound = False, frContentType = '''', frVersion = 0, frContentPointer = '''', frMigrated = False,
     frIsMultiUser = None, frAuthorizationPolicyID = '''', frStorageBucketID = '''', frOwnerRef = '''', frError = ''''\<rparr>"

definition unmarshal_into :: "'r \<Rightarrow> (bytes \<Rightarrow> 'r option) \<Rightarrow> call_error + bytes option \<Rightarrow> call_error + 'r" where
  "unmarshal_into zero decode res =
     (case res of
        Inl err \<Rightarrow> Inl err
      | Inr None \<Rightarrow> Inr zero
      | Inr (Some body) \<Rightarrow> (case decode body of None \<Rightarrow> Inl CallUnmarshal | Some r \<Rightarrow> Inr r))"

section \<open>The store\<close>

record 'v bus =
  fetch_call :: "document_id \<Rightarrow> 'v \<Rightarrow> call_error + bytes option"
  save_call :: "SaveData \<Rightarrow> 'v \<Rightarrow> (call_error + bytes option) \<times> 'v"
  decodeFetch :: "bytes \<Rightarrow> FetchReply option"
  decodeSave :: "bytes \<Rightarrow> SaveReply option"

definition fetchReply :: "'v bus \<Rightarrow> document_id \<Rightarrow> 'v \<Rightarrow> call_error + FetchReply" where
  "fetchReply bus did v = unmarshal_into zeroFetchReply (decodeFetch bus) (fetch_call bus did v)"

definition rmq_Load :: "'v bus \<Rightarrow> document_id \<Rightarrow> 'v \<Rightarrow> load_error + Metadata" where
  "rmq_Load bus did v =
     (case fetchReply bus did v of
        Inl err \<Rightarrow> Inl (ErrOther ''collaboration-fetch'')
      | Inr r \<Rightarrow>
          if frError r \<noteq> '''' then Inl (ErrOther (frError r))
          else if \<not> frFound r then Inl ErrNotFound
          else if frContentType r \<notin> {'''', ContentTypeMemo, ContentTypeWhiteboard} then Inl (ErrOther ''unknown contentType'')
          else Inr (emptyMetadata\<lparr>metaID := did, metaContentType := frContentType r, metaVersion := frVersion r,
                 metaContentPointer := frContentPointer r, metaMigrated := frMigrated r, metaIsMultiUser := frIsMultiUser r,
                 metaAuthorizationPolicyID := frAuthorizationPolicyID r, metaStorageBucketID := frStorageBucketID r,
                 metaOwnerRef := frOwnerRef r\<rparr>))"

definition saveData :: "Metadata \<Rightarrow> SaveData" where
  "saveData meta =
     \<lparr>sdID = metaID meta, sdContentType = metaContentType meta, sdVersion = metaVersion meta,
      sdContentPointer = metaContentPointer meta, sdAuthorizationPolicyID = metaAuthorizationPolicyID meta,
      sdOwnerRef = metaOwnerRef meta\<rparr>"

definition rmq_Save :: "'v bus \<Rightarrow> Metadata \<Rightarrow> 'v \<Rightarrow> load_error option \<times> 'v" where
  "rmq_Save bus meta v =
     (case save_call bus (saveData meta) v of
        (res, v') \<Rightarrow>
          (case unmarshal_into zeroSaveReply (decodeSave bus) res of
             Inl err \<Rightarrow> Some (ErrOther ''collaboration-save'')
           | Inr r \<Rightarrow>
               if srError r \<noteq> '''' then Some (ErrOther (srError r))
               else if \<not> srSuccess r then Some (ErrOther ''server reported failure'')
               else None,
           v'))"

text \<open>The contribution event names the actors of the window; it is emitted and not answered.\<close>

record ContributionData =
  cdID :: string
  cdUsers :: "string list"

definition rmq_Contribution :: "(actor_id \<Rightarrow> string) \<Rightarrow> (ContributionData \<Rightarrow> call_error option) \<Rightarrow> document_id \<Rightarrow> actor_id list \<Rightarrow> bool" where
  "rmq_Contribution uuid emit did actors \<longleftrightarrow> emit \<lparr>cdID = did, cdUsers = map uuid actors\<rparr> = None"

text \<open>An empty response to a fetch is read as a document that does not exist.\<close>

lemma empty_reply_is_not_found:
  "fetch_call bus did v = call_result r \<Longrightarrow> replyErr r = [] \<Longrightarrow> replyResponse r = [] \<Longrightarrow> rmq_Load bus did v = Inl ErrNotFound"
  by (simp add: rmq_Load_def fetchReply_def call_result_def unmarshal_into_def zeroFetchReply_def)

end
