(* ===== verification/StoreProperties.thy ===== *)
theory StoreProperties
  imports RmqStore
begin

text \<open>
  What the stores promise. \<open>checkpoint_store\<close> is the contract the room relies on, stated over an
  abstract map from documents to their durable state; the in-process store is an interpretation,
  and \<open>metadata_store\<close>, the contract of the index, carries the proof that the file-service store over
  any such index implements it as well.
\<close>

section \<open>The contract of a checkpoint store\<close>

text \<open>
  A save that reports success has replaced the state of its document and touched no other; one that
  reports an error has either done that or nothing (a response can be lost on the way back).
\<close>

definition spec_save ::
  "saveRequest \<Rightarrow> store_error + 64 word \<Rightarrow> (document_id \<rightharpoonup> bytes) \<Rightarrow> (document_id \<rightharpoonup> bytes) \<Rightarrow> bool" where
  "spec_save req res d d' \<longleftrightarrow>
     (case res of
        Inr _ \<Rightarrow> d' = d(reqDocument req \<mapsto> reqUpdate req) \<and> reqEncoding req = EncodingV2 \<and> reqFence req = 0
      | Inl _ \<Rightarrow> d' = d \<or> d' = d(reqDocument req \<mapsto> reqUpdate req))"

definition spec_load :: "document_id \<Rightarrow> store_error + checkpoint \<Rightarrow> (document_id \<rightharpoonup> bytes) \<Rightarrow> bool" where
  "spec_load did res d \<longleftrightarrow>
     (case res of
        Inr cp \<Rightarrow> d did = Some (cpUpdate cp) \<and> cpEncoding cp = EncodingV2
      | Inl err \<Rightarrow> err = StoreNotFound \<longrightarrow> d did = None)"

locale checkpoint_store =
  fixes save :: "saveRequest \<Rightarrow> 's \<Rightarrow> (store_error + 64 word) \<times> 's"
    and load :: "document_id \<Rightarrow> 's \<Rightarrow> store_error + checkpoint"
    and state_of :: "'s \<Rightarrow> document_id \<rightharpoonup> bytes"
    and inv :: "'s \<Rightarrow> bool"
  assumes save_law: "inv s \<Longrightarrow> save req s = (res, s') \<Longrightarrow> inv s' \<and> spec_save req res (state_of s) (state_of s')"
    and load_law: "inv s \<Longrightarrow> spec_load did (load did s) (state_of s)"
begin

fun save_all :: "saveRequest list \<Rightarrow> 's \<Rightarrow> (store_error + 64 word) list \<times> 's" where
  "save_all [] s = ([], s)"
| "save_all (req # reqs) s =
     (case save req s of (res, s1) \<Rightarrow> (case save_all reqs s1 of (ress, s2) \<Rightarrow> (res # ress, s2)))"

lemma save_all_other:
  assumes "inv s" "save_all reqs s = (ress, s')" "\<forall>req\<in>set reqs. reqDocument req \<noteq> did"
  shows "inv s' \<and> state_of s' did = state_of s did"
  using assms
proof (induction reqs arbitrary: s ress)
  case (Cons req reqs)
  obtain res s1 where one: "save req s = (res, s1)" by fastforce
  then obtain ress' where rest: "save_all reqs s1 = (ress', s')" using Cons.prems(2) by (auto split: prod.splits)
  have law: "inv s1" "spec_save req res (state_of s) (state_of s1)" using save_law [OF Cons.prems(1) one] by auto
  then have "state_of s1 did = state_of s did" using Cons.prems(3) by (auto simp: spec_save_def split: sum.splits)
  then show ?case using Cons.IH [OF law(1) rest] Cons.prems(3) by simp
qed simp

text \<open>A saved state is what a later load returns, whatever was saved for other documents meanwhile;
  in particular the document never looks as if it had no state.\<close>

lemma saved_then_loaded:
  assumes "inv s" "save req s = (Inr n, s1)" "save_all reqs s1 = (ress, s2)" "\<forall>r\<in>set reqs. reqDocument r \<noteq> reqDocument req"
  shows "load (reqDocument req) s2 \<noteq> Inl StoreNotFound \<and>
    (\<forall>cp. load (reqDocument req) s2 = Inr cp \<longrightarrow> cpUpdate cp = reqUpdate req)"
proof -
  have law: "inv s1" "state_of s1 (reqDocument req) = Some (reqUpdate req)"
    using save_law [OF assms(1,2)] by (auto simp: spec_save_def)
  then have "inv s2" "state_of s2 (reqDocument req) = Some (reqUpdate req)"
    using save_all_other [OF law(1) assms(3,4)] by auto
  then show ?thesis using load_law [of s2 "reqDocument req"] by (auto simp: spec_load_def split: sum.splits)
qed

end

section \<open>The in-process store\<close>

definition proc_inv :: "procStore \<Rightarrow> bool" where
  "proc_inv s \<longleftrightarrow> (\<forall>did. blobs s did \<noteq> None \<longrightarrow> encodings s did = Some EncodingV2)"

interpretation proc: checkpoint_store "proc_SaveCheckpoint ctx" "proc_LoadCheckpoint ctx" blobs proc_inv for ctx
  by unfold_locales
    (auto simp: proc_SaveCheckpoint_def proc_LoadCheckpoint_def spec_save_def spec_load_def proc_inv_def check_encoding_def
      checkFence_def Let_def split: if_splits option.splits encoding.splits)

section \<open>The contract of the index\<close>

text \<open>
  What the checkpoint store needs of \<^verbatim>\<open>port.MetadataStore\<close>. \<open>pointers\<close> is the durable file pointer of each
  document. A load that answers, answers with it; a save of a row with a pointer that succeeds has
  replaced exactly that document's pointer, and one that fails has done that or nothing: the reply of
  a save that took effect may be lost.
\<close>

definition nonblank :: "string \<Rightarrow> string option" where
  "nonblank v = (if v = '''' then None else Some v)"

locale metadata_store =
  fixes mload :: "document_id \<Rightarrow> 'm \<Rightarrow> load_error + Metadata"
    and msave :: "Metadata \<Rightarrow> 'm \<Rightarrow> load_error option \<times> 'm"
    and pointers :: "'m \<Rightarrow> document_id \<rightharpoonup> string"
  assumes load_row: "mload did m = Inr meta \<Longrightarrow> pointers m did = nonblank (metaContentPointer meta)"
    and load_absent: "mload did m = Inl ErrNotFound \<Longrightarrow> pointers m did = None"
    and save_pointer: "msave meta m = (res, m') \<Longrightarrow> metaContentPointer meta \<noteq> '''' \<Longrightarrow>
      pointers m' = (pointers m)(metaID meta \<mapsto> metaContentPointer meta) \<or> res \<noteq> None \<and> pointers m' = pointers m"
begin

lemma pointer_known:
  "resolver_Pointer mload did m = Inr (p, b) \<Longrightarrow> pointers m did = Some p"
  "resolver_Pointer mload did m = Inl (ErrNoPointer b) \<Longrightarrow> pointers m did = None"
  by (auto simp: resolver_Pointer_def nonblank_def dest: load_row load_absent split: sum.splits if_splits)

lemma record_pointer:
  assumes "resolver_Record mload msave did pointer m = (res, m')" "pointer \<noteq> ''''"
  shows "pointers m' = (pointers m)(did \<mapsto> pointer) \<or> res \<noteq> None \<and> pointers m' = pointers m"
proof (cases "\<exists>meta. msave (meta\<lparr>metaID := did, metaContentPointer := pointer\<rparr>) m = (res, m')")
  case True
  then show ?thesis using save_pointer assms(2) by fastforce
qed (use assms(1) in \<open>auto simp: resolver_Record_def Let_def split: sum.splits if_splits\<close>)

end

definition row_pointers :: "rows \<Rightarrow> document_id \<rightharpoonup> string" where
  "row_pointers m did = (case m did of Some meta \<Rightarrow> nonblank (metaContentPointer meta) | None \<Rightarrow> None)"

lemma mem_Save_pointers:
  assumes "mem_Save now meta m = (res, m')" and "metaContentPointer meta \<noteq> ''''"
  shows "row_pointers m' = (row_pointers m)(metaID meta \<mapsto> metaContentPointer meta)"
proof
  fix did
  show "row_pointers m' did = ((row_pointers m)(metaID meta \<mapsto> metaContentPointer meta)) did"
    using assms by (cases "did = metaID meta")
      (auto simp: mem_Save_def coalesceBlank_def unblank_def row_pointers_def nonblank_def Let_def split: option.splits)
qed

interpretation mem: metadata_store mem_Load "mem_Save now" row_pointers for now
  by unfold_locales (auto simp: mem_Load_def row_pointers_def dest: mem_Save_pointers split: option.splits)

section \<open>The index over the bus\<close>



section \<open>The file-service store\<close>

text \<open>
  The documented behaviour of file-service. \<open>stored\<close> is the content under a file id and \<open>issued\<close> the
  ids it has handed out. A PUT that succeeds replaces the content behind that id, one that fails
  replaced it or did nothing; a POST that succeeds hands out an id it never issued and stores the
  bytes there, and no POST touches an issued file; a GET that succeeds returns the content.
\<close>

definition put_ok :: "'f file_service \<Rightarrow> ('f \<Rightarrow> string \<rightharpoonup> bytes) \<Rightarrow> ('f \<Rightarrow> string set) \<Rightarrow> bool" where
  "put_ok fs stored issued \<longleftrightarrow>
     (\<forall>p data f res f'. put_content fs p data f = (res, f') \<longrightarrow>
        issued f' = issued f \<and> (stored f' = stored f \<or> stored f' = (stored f)(p \<mapsto> data)) \<and>
        (\<forall>code. res = Some code \<and> code \<in> {200, 201, 204} \<longrightarrow> stored f' = (stored f)(p \<mapsto> data)))"

definition post_ok :: "'f file_service \<Rightarrow> ('f \<Rightarrow> string \<rightharpoonup> bytes) \<Rightarrow> ('f \<Rightarrow> string set) \<Rightarrow> bool" where
  "post_ok fs stored issued \<longleftrightarrow>
     (\<forall>b data f res f'. post_file fs b data f = (res, f') \<longrightarrow>
        issued f \<subseteq> issued f' \<and> (\<forall>p\<in>issued f. stored f' p = stored f p) \<and>
        (\<forall>code p. res = Some (code, Some p) \<and> code \<in> {200, 201} \<and> p \<noteq> '''' \<longrightarrow>
           p \<notin> issued f \<and> p \<in> issued f' \<and> stored f' p = Some data))"

definition get_ok :: "'f file_service \<Rightarrow> ('f \<Rightarrow> string \<rightharpoonup> bytes) \<Rightarrow> bool" where
  "get_ok fs stored \<longleftrightarrow> (\<forall>p f b. get_content fs p f = Some (200, Some b) \<longrightarrow> stored f p = Some b)"

definition file_service_ok :: "'f file_service \<Rightarrow> ('f \<Rightarrow> string \<rightharpoonup> bytes) \<Rightarrow> ('f \<Rightarrow> string set) \<Rightarrow> bool" where
  "file_service_ok fs stored issued \<longleftrightarrow> put_ok fs stored issued \<and> post_ok fs stored issued \<and> get_ok fs stored"

definition fs_state :: "('m \<Rightarrow> document_id \<rightharpoonup> string) \<Rightarrow> ('f \<Rightarrow> string \<rightharpoonup> bytes) \<Rightarrow> ('f, 'm) fileStore \<Rightarrow> document_id \<rightharpoonup> bytes" where
  "fs_state ptrs stored s did = (case ptrs (index s) did of Some p \<Rightarrow> stored (service s) p | None \<Rightarrow> None)"

text \<open>Every pointer in the index was issued by the service, and no two documents share one.\<close>

definition fs_inv :: "('m \<Rightarrow> document_id \<rightharpoonup> string) \<Rightarrow> ('f \<Rightarrow> string set) \<Rightarrow> ('f, 'm) fileStore \<Rightarrow> bool" where
  "fs_inv ptrs issued s \<longleftrightarrow>
     (\<forall>did p. ptrs (index s) did = Some p \<longrightarrow> p \<in> issued (service s)) \<and>
     (\<forall>did did' p. ptrs (index s) did = Some p \<longrightarrow> ptrs (index s) did' = Some p \<longrightarrow> did' = did)"

text \<open>A save that stops before it reaches the service, rewrites a file, or creates one.\<close>

lemma fs_SaveCheckpoint_cases:
  assumes "fs_SaveCheckpoint fs load save limit ctx req s = (res, s')"
  obtains (early) err where "s' = s" "res = Inl err"
  | (rewrite) p b resp f' where "resolver_Pointer load (reqDocument req) (index s) = Inr (p, b)"
      "put_content fs p (reqUpdate req) (service s) = (resp, f')" "service s' = f'" "index s' = index s"
      "\<And>n. res = Inr n \<Longrightarrow> reqEncoding req = EncodingV2 \<and> reqFence req = 0 \<and> (\<exists>code. resp = Some code \<and> code \<in> {200, 201, 204})"
  | (failed) b resp f' err where "post_file fs b (reqUpdate req) (service s) = (resp, f')" "res = Inl err" "service s' = f'"
      "index s' = index s"
  | (created) b code q f' rec m' where "post_file fs b (reqUpdate req) (service s) = (Some (code, Some q), f')" "code \<in> {200, 201}"
      "q \<noteq> ''''" "resolver_Record load save (reqDocument req) q (index s) = (rec, m')" "\<And>n. res = Inr n \<Longrightarrow> rec = None"
      "service s' = f'" "index s' = m'" "reqEncoding req = EncodingV2" "reqFence req = 0"
proof (cases "fs_SaveCheckpoint fs load save limit ctx req s = (Inl ContextEnded, s) \<or> ctx \<or> reqFence req \<noteq> 0 \<or>
    check_encoding (reqEncoding req) \<noteq> None \<or> limit > 0 \<and> int (length (reqUpdate req)) > limit")
  case True
  then show thesis using assms early by (auto simp: fs_SaveCheckpoint_def split: option.splits if_splits)
next
  case False
  then have v2: "reqEncoding req = EncodingV2" "reqFence req = 0" "\<not> ctx" "check_encoding (reqEncoding req) = None"
    "\<not> (limit > 0 \<and> int (length (reqUpdate req)) > limit)"
    by (auto simp: check_encoding_def split: encoding.splits)
  show thesis
  proof (cases "resolver_Pointer load (reqDocument req) (index s)")
    case (Inr pb)
    obtain p b where pb: "pb = (p, b)" by fastforce
    obtain resp f' where put: "put_content fs p (reqUpdate req) (service s) = (resp, f')" by fastforce
    show thesis
      by (rule rewrite [OF Inr [unfolded pb] put])
        (use assms v2 Inr pb put in \<open>auto simp: fs_SaveCheckpoint_def Stores.rewrite_def split: option.splits if_splits\<close>)
  next
    case (Inl e)
    show thesis
    proof (cases e)
      case (IndexError err)
      then show thesis using assms v2 Inl early by (auto simp: fs_SaveCheckpoint_def)
    next
      case (ErrNoPointer b)
      show thesis
      proof (cases "b = ''''")
        case True
        then show thesis using assms v2 Inl ErrNoPointer early by (auto simp: fs_SaveCheckpoint_def)
      next
        case False
        obtain resp f' where post: "post_file fs b (reqUpdate req) (service s) = (resp, f')" by fastforce
        have "snd (create fs b (reqUpdate req) (service s)) = f'"
          using post by (simp add: create_def split: option.split prod.split)
        then obtain made where made: "create fs b (reqUpdate req) (service s) = (made, f')" by (metis prod.collapse)
        show thesis
        proof (cases made)
          case (Inl err)
          then show thesis using assms v2 \<open>resolver_Pointer load _ _ = Inl e\<close> ErrNoPointer False made
            by (intro failed [OF post, of err]) (auto simp: fs_SaveCheckpoint_def)
        next
          case (Inr q)
          then obtain code where resp: "resp = Some (code, Some q)" "code \<in> {200, 201}" "q \<noteq> ''''"
            using made post by (auto simp: create_def split: option.splits if_splits)
          obtain rec m' where rc: "resolver_Record load save (reqDocument req) q (index s) = (rec, m')" by fastforce
          show thesis
            by (rule created [OF post [unfolded resp(1)] resp(2,3) rc])
              (use assms v2 \<open>resolver_Pointer load _ _ = Inl e\<close> ErrNoPointer False made Inr rc in
                \<open>auto simp: fs_SaveCheckpoint_def split: option.splits\<close>)
        qed
      qed
    qed
  qed
qed

context metadata_store
begin

lemma fs_save_law:
  assumes ok: "file_service_ok fs stored issued" and inv: "fs_inv pointers issued s"
    and save: "fs_SaveCheckpoint fs mload msave limit ctx req s = (res, s')"
  shows "fs_inv pointers issued s' \<and> spec_save req res (fs_state pointers stored s) (fs_state pointers stored s')"
  using save
proof (cases rule: fs_SaveCheckpoint_cases)
  case (early err)
  then show ?thesis using inv by (simp add: spec_save_def)
next
  case (rewrite p b resp f')
  have put: "issued f' = issued (service s)" "stored f' = stored (service s) \<or> stored f' = (stored (service s))(p \<mapsto> reqUpdate req)"
    "\<And>code. resp = Some code \<Longrightarrow> code \<in> {200, 201, 204} \<Longrightarrow> stored f' = (stored (service s))(p \<mapsto> reqUpdate req)"
    using ok rewrite(2) unfolding file_service_ok_def put_ok_def by blast+
  have mine: "pointers (index s) (reqDocument req) = Some p" using pointer_known(1) [OF rewrite(1)] .
  have own: "pointers (index s) did \<noteq> Some p" if "did \<noteq> reqDocument req" for did
    using inv mine that unfolding fs_inv_def by blast
  have upd: "fs_state pointers stored s' = (fs_state pointers stored s)(reqDocument req \<mapsto> reqUpdate req)"
    if "stored f' = (stored (service s))(p \<mapsto> reqUpdate req)"
    using that mine rewrite(3,4) own by (auto simp: fs_state_def fun_eq_iff split: option.splits)
  have same: "fs_state pointers stored s' = fs_state pointers stored s" if "stored f' = stored (service s)"
    unfolding fs_state_def rewrite(3,4) that ..
  have "fs_inv pointers issued s'" using inv put(1) rewrite(3,4) by (simp add: fs_inv_def)
  moreover have "spec_save req res (fs_state pointers stored s) (fs_state pointers stored s')"
    using put(2,3) rewrite(5) upd same unfolding spec_save_def by (cases res) auto
  ultimately show ?thesis ..
next
  case (failed b resp f' err)
  have post: "issued (service s) \<subseteq> issued f'" "\<And>q. q \<in> issued (service s) \<Longrightarrow> stored f' q = stored (service s) q"
    using ok failed(1) unfolding file_service_ok_def post_ok_def by blast+
  have "fs_inv pointers issued s'" using inv post(1) failed(3,4) by (auto simp: fs_inv_def)
  moreover have "fs_state pointers stored s' = fs_state pointers stored s"
    using inv post(2) failed(3,4) by (auto simp: fs_state_def fs_inv_def fun_eq_iff split: option.splits)
  ultimately show ?thesis using failed(2) by (simp add: spec_save_def)
next
  case (created b code q f' rec m')
  have post: "issued (service s) \<subseteq> issued f'" "\<And>r. r \<in> issued (service s) \<Longrightarrow> stored f' r = stored (service s) r"
    "q \<notin> issued (service s)" "q \<in> issued f'" "stored f' q = Some (reqUpdate req)"
    using ok created(1-3) unfolding file_service_ok_def post_ok_def by blast+
  have old: "p \<in> issued (service s)" if "pointers (index s) did = Some p" for did p
    using inv that unfolding fs_inv_def by blast
  have rec: "pointers m' = (pointers (index s))(reqDocument req \<mapsto> q) \<or> rec \<noteq> None \<and> pointers m' = pointers (index s)"
    by (rule record_pointer [OF created(4,3)])
  moreover have "p \<in> issued f'" if "pointers (index s) did = Some p" for did p using old [OF that] post(1) by blast
  ultimately have "fs_inv pointers issued s'" using inv old post(3,4) created(6,7) by (auto simp: fs_inv_def split: if_splits)
  moreover have "fs_state pointers stored s' = (if pointers m' = pointers (index s) then fs_state pointers stored s
      else (fs_state pointers stored s)(reqDocument req \<mapsto> reqUpdate req))"
    using rec old post(2,5) created(6,7) by (auto simp: fs_state_def fun_eq_iff split: option.splits)
  moreover have "pointers m' \<noteq> pointers (index s)" if "rec = None"
    using rec that old post(3) by (metis fun_upd_same)
  ultimately show ?thesis using created(5,8,9) by (auto simp: spec_save_def split: sum.splits)
qed

lemma fs_load_law:
  assumes "file_service_ok fs stored issued"
  shows "spec_load did (fs_LoadCheckpoint fs mload limit sv ctx did s) (fs_state pointers stored s)"
proof -
  have "stored (service s) p = Some blob" if f: "fetch fs limit p (service s) = Inr blob" for p blob
  proof -
    obtain body where body: "get_content fs p (service s) = Some (200, Some body)" "readBounded limit body = Inr blob"
      using f unfolding fetch_def by (cases "get_content fs p (service s)") (auto split: option.splits if_splits)
    then have "blob = body" by (auto simp: readBounded_def Let_def split: if_splits)
    then show ?thesis using assms body(1) by (auto simp: file_service_ok_def get_ok_def)
  qed
  moreover have "fetch fs limit p (service s) \<noteq> Inl StoreNotFound" for p
    by (auto simp: fetch_def readBounded_def Let_def split: option.splits if_splits)
  ultimately show ?thesis
    by (auto simp: fs_LoadCheckpoint_def spec_load_def fs_state_def dest: pointer_known split: sum.splits pointer_error.splits option.splits)
qed

text \<open>The file-service store over any such index implements the contract.\<close>

lemma fs_checkpoint_store:
  assumes "file_service_ok fs stored issued"
  shows "checkpoint_store (fs_SaveCheckpoint fs mload msave limit ctx) (fs_LoadCheckpoint fs mload limit sv ctx)
    (fs_state pointers stored) (fs_inv pointers issued)"
  by unfold_locales (use fs_save_law [OF assms] fs_load_law [OF assms] in auto)

end

section \<open>A concrete file service\<close>

text \<open>Files are numbered; the id of the \<open>n\<close>th is \<open>n\<close> times the letter f. Every call succeeds.\<close>

type_synonym sample_files = "nat \<times> (string \<rightharpoonup> bytes)"

definition sample_fs :: "sample_files file_service" where
  "sample_fs = \<lparr>put_content = (\<lambda>p data f. (Some 200, (fst f, (snd f)(p \<mapsto> data)))),
     post_file = (\<lambda>b data f. (Some (201, Some (replicate (Suc (fst f)) (CHR ''f''))),
       (Suc (fst f), (snd f)(replicate (Suc (fst f)) (CHR ''f'') \<mapsto> data)))),
     get_content = (\<lambda>p f. case snd f p of Some b \<Rightarrow> Some (200, Some b) | None \<Rightarrow> Some (404, None))\<rparr>"



definition sample_request :: "bytes \<Rightarrow> saveRequest" where
  "sample_request u = \<lparr>reqDocument = ''doc'', reqFence = 0, reqEncoding = EncodingV2, reqUpdate = u, reqVector = []\<rparr>"

definition sample_index :: rows where
  "sample_index = snd (mem_Save 5 (emptyMetadata\<lparr>metaID := ''doc'', metaStorageBucketID := ''bucket'', metaOwnerRef := ''space''\<rparr>) Map.empty)"

definition sample_store :: "(sample_files, rows) fileStore" where
  "sample_store = \<lparr>service = (0, Map.empty), index = sample_index, revisionCounter = 0\<rparr>"

definition sample_saved_store :: "(sample_files, rows) fileStore" where
  "sample_saved_store = snd (fs_SaveCheckpoint sample_fs mem_Load (mem_Save 6) 100 False (sample_request [1, 2]) sample_store)"

section \<open>What the stores promise\<close>

text \<open>Over the in-memory index the file-service store implements the contract as well.\<close>

lemma file_store_over_memory:
  "file_service_ok fs stored issued \<Longrightarrow>
     checkpoint_store (fs_SaveCheckpoint fs mem_Load (mem_Save now) limit ctx) (fs_LoadCheckpoint fs mem_Load limit sv ctx)
       (fs_state row_pointers stored) (fs_inv row_pointers issued)"
  by (rule mem.fs_checkpoint_store)







text \<open>
  C25: a missing file is corruption, not a new document. When the index has a pointer and file-service
  has no file behind it, a load is refused as corrupt, so a room over that store and any index fails to open
  instead of opening empty; and a save is refused as corrupt, creates no file and leaves the index
  as it was.
\<close>

theorem missing_file_never_opens_empty:
  assumes "load did (index s) = Inr meta" and "metaContentPointer meta \<noteq> ''''"
    and "get_content fs (metaContentPointer meta) (service s) = Some (404, body)"
    and "put_content fs (metaContentPointer meta) (reqUpdate req) (service s) = (Some 404, f')"
    and "reqDocument req = did" and "reqFence req = 0" and "reqEncoding req = EncodingV2"
    and "limit \<le> 0 \<or> int (length (reqUpdate req)) \<le> limit"
  shows "newRoom e did ct c (load did (index s))
      (map_sum room_load_error cpUpdate (fs_LoadCheckpoint fs load limit sv False did s)) AcqOpened subscribed =
        Inl (StoredStateError ErrCorrupt) \<and>
    fs_SaveCheckpoint fs load save limit False req s = (Inl StoreCorrupt, s\<lparr>service := f'\<rparr>)"
proof -
  have p: "resolver_Pointer load did (index s) = Inr (metaContentPointer meta, metaStorageBucketID meta)"
    using assms(1,2) by (simp add: resolver_Pointer_def)
  then have "fs_LoadCheckpoint fs load limit sv False did s = Inl StoreCorrupt"
    using assms(3) by (simp add: fs_LoadCheckpoint_def fetch_def)
  moreover have "fs_SaveCheckpoint fs load save limit False req s = (Inl StoreCorrupt, s\<lparr>service := f'\<rparr>)"
    using p assms(4-8) by (auto simp: fs_SaveCheckpoint_def check_encoding_def rewrite_def)
  ultimately show ?thesis
    using assms(1) by (simp add: newRoom_def attachRoom_def loadMetadata_def openDoc_def restoreInto_def Let_def)
qed

definition lost_fs :: "sample_files file_service" where
  "lost_fs = sample_fs\<lparr>put_content := (\<lambda>p data f. (Some 404, f)), get_content := (\<lambda>p f. Some (404, None))\<rparr>"

theorem missing_file_never_opens_empty_witness:
  "fs_SaveCheckpoint lost_fs mem_Load (mem_Save 9) 100 False (sample_request [3]) sample_saved_store =
     (Inl StoreCorrupt, sample_saved_store)"
proof -
  have row: "mem_Load ''doc'' (index sample_saved_store) \<noteq> Inl ErrNotFound \<and>
      map_option metaContentPointer (index sample_saved_store ''doc'') = Some ''f''" by code_simp
  then obtain meta where "mem_Load ''doc'' (index sample_saved_store) = Inr meta" "metaContentPointer meta = ''f''"
    by (auto simp: mem_Load_def split: option.splits)
  from missing_file_never_opens_empty [where load = mem_Load and did = "''doc''" and s = sample_saved_store, OF this(1),
      where fs = lost_fs and body = None and req = "sample_request [3]" and
      f' = "service sample_saved_store" and limit = 100 and save = "mem_Save 9", THEN conjunct2] this(2)
  show ?thesis by (simp add: lost_fs_def sample_request_def)
qed

text \<open>
  A first save of a document without an index row is refused as corrupt: the resolver reports no
  pointer and no bucket, and the store requires a bucket before it creates and records a file. The
  branch of \<^verbatim>\<open>Record\<close> that creates a missing row is not reached from here.
\<close>

theorem unregistered_first_save_refused:
  "load (reqDocument req) (index s) = Inl ErrNotFound \<Longrightarrow> reqFence req = 0 \<Longrightarrow> reqEncoding req = EncodingV2 \<Longrightarrow>
     limit \<le> 0 \<or> int (length (reqUpdate req)) \<le> limit \<Longrightarrow>
     fs_SaveCheckpoint fs load save limit False req s = (Inl StoreCorrupt, s)"
  by (auto simp: fs_SaveCheckpoint_def check_encoding_def resolver_Pointer_def)

end
