(* ===== verification/Hub.thy ===== *)
theory Hub
  imports Prelude "HOL-Library.Sublist"
begin

text \<open>
  \<^verbatim>\<open>internal/adapter/outbound/hub/redis/hub.go\<close>: cross-pod fan-out over Redis. The first part is the
  frame codec, the second the hub's subscribers and pumps with one definition per critical section,
  the third delivery. A pump is one Redis subscription shared by the local subscribers of a
  document; calls of \<^verbatim>\<open>Subscribe\<close> that are still waiting for Redis are threads of the transition
  system \<open>hub_step\<close>. Go strings are byte strings, so identifiers are \<open>bytes\<close> here. Redis itself is
  outside: what it answers and delivers is an argument.
\<close>

section \<open>The frame codec\<close>

definition maxIDLen :: nat where
  "maxIDLen = 65536"

text \<open>Four bytes, most significant first.\<close>

definition putUint32 :: "nat \<Rightarrow> bytes" where
  "putUint32 n = [of_nat (n div 16777216), of_nat (n div 65536), of_nat (n div 256), of_nat n]"

definition uint32 :: "bytes \<Rightarrow> nat" where
  "uint32 b = unat (b ! 0) * 16777216 + unat (b ! 1) * 65536 + unat (b ! 2) * 256 + unat (b ! 3)"

definition hub_encode :: "bytes \<Rightarrow> bytes \<Rightarrow> bytes \<Rightarrow> bytes" where
  "hub_encode instanceID source payload =
     (let i = take maxIDLen instanceID; s = take maxIDLen source
      in putUint32 (length i) @ i @ putUint32 (length s) @ s @ payload)"

definition hub_decode :: "bytes \<Rightarrow> (bytes \<times> bytes \<times> bytes) option" where
  "hub_decode frame =
     (if length frame < 4 then None
      else let instLen = uint32 (take 4 frame)
           in if length frame < 4 + instLen + 4 then None
              else let inst = take instLen (drop 4 frame);
                       rest = drop (4 + instLen) frame;
                       srcLen = uint32 (take 4 rest)
                   in if length rest < 4 + srcLen then None
                      else Some (inst, take srcLen (drop 4 rest), drop (4 + srcLen) rest))"

lemma length_putUint32 [simp]: "length (putUint32 n) = 4"
  by (simp add: putUint32_def)

lemma uint32_putUint32 [simp]:
  assumes "n < 4294967296"
  shows "uint32 (putUint32 n) = n"
proof -
  define a b c where "a = n div 256" and "b = a div 256" and "c = b div 256"
  have d: "n div 65536 = b" "n div 16777216 = c" by (simp_all add: a_def b_def c_def div_mult2_eq [symmetric])
  have "c < 256" using assms d(2) by (simp add: less_mult_imp_div_less flip: d(2))
  then have "uint32 (putUint32 n) = c * 16777216 + (b mod 256) * 65536 + (a mod 256) * 256 + n mod 256"
    by (simp add: uint32_def putUint32_def d unsigned_of_nat take_bit_eq_mod flip: a_def)
  moreover have "n = a * 256 + n mod 256" "a = b * 256 + a mod 256" "b = c * 256 + b mod 256"
    by (simp_all add: a_def b_def c_def)
  ultimately show ?thesis by linarith
qed

lemma hub_decode_encode:
  assumes "length inst \<le> maxIDLen" "length source \<le> maxIDLen"
  shows "hub_decode (hub_encode inst source payload) = Some (inst, source, payload)"
  using assms by (simp add: hub_decode_def hub_encode_def Let_def maxIDLen_def)

section \<open>Channels\<close>

datatype kind = DocumentUpdate | AwarenessUpdate

abbreviation documentChannelPrefix :: string where
  "documentChannelPrefix \<equiv> ''doc:''"

abbreviation awarenessChannelPrefix :: string where
  "awarenessChannelPrefix \<equiv> ''awareness:''"

definition channelFor :: "document_id \<Rightarrow> kind \<Rightarrow> string" where
  "channelFor did k = (if k = AwarenessUpdate then awarenessChannelPrefix @ did else documentChannelPrefix @ did)"

definition kindOf :: "string \<Rightarrow> kind" where
  "kindOf channel =
     (if length channel \<ge> length awarenessChannelPrefix \<and>
         take (length awarenessChannelPrefix) channel = awarenessChannelPrefix
      then AwarenessUpdate else DocumentUpdate)"

lemma kindOf_channelFor [simp]: "kindOf (channelFor did k) = k"
  by (cases k) (simp_all add: kindOf_def channelFor_def)

section \<open>Subscribers and pumps\<close>

type_synonym sub_id = nat

record hub =
  instanceID :: bytes
  hubClosed :: bool
  hubNextID :: sub_id
  subs :: "document_id \<Rightarrow> (sub_id \<times> bytes) list"
  pumps :: "document_id \<rightharpoonup> int"

datatype hub_error = ErrHubContext | ErrInvalidMessage | ErrHubClosed | ErrPump | ErrRedisPublish | ErrHandler nat

definition newHub :: "bytes \<Rightarrow> bytes \<Rightarrow> hub" where
  "newHub inst generated =
     \<lparr>instanceID = (if inst = [] then generated else inst), hubClosed = False, hubNextID = 0,
      subs = (\<lambda>_. []), pumps = Map.empty\<rparr>"

text \<open>
  The first locked section of \<^verbatim>\<open>Subscribe\<close>: the new subscriber, and whether the caller must start a
  pump.
\<close>

definition subscribe_begin ::
  "bool \<Rightarrow> document_id \<Rightarrow> bool \<Rightarrow> bytes \<Rightarrow> hub \<Rightarrow> (hub_error + sub_id \<times> bool) \<times> hub" where
  "subscribe_begin ctxEnded did hasHandler source h =
     (if ctxEnded then (Inl ErrHubContext, h)
      else if did = '''' \<or> \<not> hasHandler then (Inl ErrInvalidMessage, h)
      else if hubClosed h then (Inl ErrHubClosed, h)
      else let i = Suc (hubNextID h);
               h1 = h\<lparr>hubNextID := i, subs := (subs h)(did := AList.update i source (subs h did))\<rparr>
           in case pumps h did of
                Some refs \<Rightarrow> (Inr (i, False), h1\<lparr>pumps := (pumps h1)(did \<mapsto> refs + 1)\<rparr>)
              | None \<Rightarrow> (Inr (i, True), h1))"

text \<open>\<^verbatim>\<open>removeSubscriber\<close> reports whether it stopped the document's pump.\<close>

definition removeSubscriber :: "document_id \<Rightarrow> sub_id \<Rightarrow> hub \<Rightarrow> bool \<times> hub" where
  "removeSubscriber did i h =
     (if map_of (subs h did) i = None then (False, h)
      else let h1 = h\<lparr>subs := (subs h)(did := AList.delete i (subs h did))\<rparr>
           in case pumps h did of
                None \<Rightarrow> (False, h1)
              | Some refs \<Rightarrow>
                  if refs - 1 \<le> 0 then (True, h1\<lparr>pumps := (pumps h1)(did := None)\<rparr>)
                  else (False, h1\<lparr>pumps := (pumps h1)(did \<mapsto> refs - 1)\<rparr>))"

text \<open>
  The second locked section, once Redis has confirmed the new pump: the error of \<^verbatim>\<open>Subscribe\<close> if any,
  whether the started pump is stopped again, and whether another one was.
\<close>

definition subscribe_install ::
  "document_id \<Rightarrow> sub_id \<Rightarrow> hub \<Rightarrow> (hub_error option \<times> bool \<times> bool) \<times> hub" where
  "subscribe_install did i h =
     (if hubClosed h then ((Some ErrHubClosed, True, False), h)
      else let live = int (length (subs h did))
           in case pumps h did of
                Some _ \<Rightarrow>
                  (let h1 = h\<lparr>pumps := (pumps h)(did \<mapsto> live)\<rparr>
                   in if live = 0 then (case removeSubscriber did i h1 of (stopped, h2) \<Rightarrow> ((None, True, stopped), h2))
                      else ((None, True, False), h1))
              | None \<Rightarrow>
                  if live = 0 then ((None, True, False), h)
                  else ((None, False, False), h\<lparr>pumps := (pumps h)(did \<mapsto> live)\<rparr>))"

definition hub_Close :: "hub \<Rightarrow> hub" where
  "hub_Close h = (if hubClosed h then h else h\<lparr>hubClosed := True, pumps := Map.empty, subs := (\<lambda>_. [])\<rparr>)"

section \<open>Waiting for the confirmations\<close>

datatype 'm received = RSubscription | RMessage 'm | RPong | ROther | RFailed

text \<open>
  \<^verbatim>\<open>awaitSubscribed\<close> on what the connection yields; \<open>None\<close> when it is still waiting at the end of the
  list. With the messages that arrived early it returns what is left on the connection.
\<close>

fun awaitSubscribed :: "nat \<Rightarrow> 'm list \<Rightarrow> 'm received list \<Rightarrow> (hub_error + 'm list \<times> 'm received list) option" where
  "awaitSubscribed 0 early xs = Some (Inr (early, xs))"
| "awaitSubscribed (Suc want) early [] = None"
| "awaitSubscribed (Suc want) early (x # xs) =
     (case x of
        RFailed \<Rightarrow> Some (Inl ErrPump)
      | RSubscription \<Rightarrow> awaitSubscribed want early xs
      | RMessage m \<Rightarrow> awaitSubscribed (Suc want) (early @ [m]) xs
      | RPong \<Rightarrow> awaitSubscribed (Suc want) early xs
      | ROther \<Rightarrow> Some (Inl ErrPump))"

section \<open>Delivery\<close>

record message =
  msgDocument :: document_id
  msgSource :: bytes
  msgKind :: kind
  msgPayload :: bytes

definition targets :: "document_id \<Rightarrow> bytes \<Rightarrow> hub \<Rightarrow> sub_id list" where
  "targets did source h = map fst (filter (\<lambda>(i, s). s \<noteq> source) (subs h did))"

text \<open>\<open>failing\<close> are the subscribers whose handler returns an error; each target is called once, and the
  first error is kept.\<close>

fun deliver :: "(sub_id \<Rightarrow> bool) \<Rightarrow> sub_id list \<Rightarrow> message \<Rightarrow> (sub_id \<times> message) list \<times> hub_error option" where
  "deliver failing [] m = ([], None)"
| "deliver failing (i # is) m =
     (case deliver failing is m of
        (calls, err) \<Rightarrow> ((i, m) # calls, if failing i then Some (ErrHandler i) else err))"

definition hub_Publish ::
  "(sub_id \<Rightarrow> bool) \<Rightarrow> bool \<Rightarrow> bool \<Rightarrow> message \<Rightarrow> hub \<Rightarrow>
     (sub_id \<times> message) list \<times> (string \<times> bytes) option \<times> hub_error option" where
  "hub_Publish failing redisOK ctxEnded m h =
     (if ctxEnded then ([], None, Some ErrHubContext)
      else if msgDocument m = '''' then ([], None, Some ErrInvalidMessage)
      else if hubClosed h then ([], None, Some ErrHubClosed)
      else case deliver failing (targets (msgDocument m) (msgSource m) h) m of
        (calls, localErr) \<Rightarrow>
          (calls, Some (channelFor (msgDocument m) (msgKind m), hub_encode (instanceID h) (msgSource m) (msgPayload m)),
           if redisOK then localErr else if localErr \<noteq> None then localErr else Some ErrRedisPublish))"

definition dispatchRemote ::
  "(sub_id \<Rightarrow> bool) \<Rightarrow> document_id \<Rightarrow> string \<times> bytes \<Rightarrow> hub \<Rightarrow> (sub_id \<times> message) list" where
  "dispatchRemote failing did cm h =
     (case hub_decode (snd cm) of
        None \<Rightarrow> []
      | Some (inst, source, payload) \<Rightarrow>
          if inst = instanceID h then []
          else fst (deliver failing (targets did source h)
            \<lparr>msgDocument = did, msgSource = source, msgKind = kindOf (fst cm), msgPayload = payload\<rparr>))"

section \<open>The pump of a document\<close>

definition pump_channels :: "document_id \<Rightarrow> string list" where
  "pump_channels did = [documentChannelPrefix @ did, awarenessChannelPrefix @ did]"

fun message_of :: "'m received \<Rightarrow> 'm list" where
  "message_of (RMessage m) = [m]"
| "message_of _ = []"

text \<open>
  \<^verbatim>\<open>startPump\<close> over what the connection yields: the error, or the messages its goroutine hands to
  \<^verbatim>\<open>dispatchRemote\<close>, in order. The messages read while waiting come first; of the rest the go-redis
  channel passes on the messages only.
\<close>

definition startPump :: "document_id \<Rightarrow> 'm received list \<Rightarrow> (hub_error + 'm list) option" where
  "startPump did xs =
     (case awaitSubscribed (length (pump_channels did)) [] xs of
        None \<Rightarrow> None
      | Some (Inl err) \<Rightarrow> Some (Inl err)
      | Some (Inr (early, rest)) \<Rightarrow> Some (Inr (early @ concat (map message_of rest))))"

section \<open>Subscriptions as threads\<close>

text \<open>
  \<open>starting\<close> are the calls of \<^verbatim>\<open>Subscribe\<close> that wait for Redis (subscriber and document), \<open>running\<close>
  counts the confirmed Redis subscriptions that were not stopped. A subscription can be closed once
  \<^verbatim>\<open>Subscribe\<close> has returned it.
\<close>

record hub_sys =
  the_hub :: hub
  starting :: "(sub_id \<times> document_id) list"
  running :: int

inductive hub_step :: "hub_sys \<Rightarrow> hub_sys \<Rightarrow> bool" for s where
  hs_refused: "subscribe_begin ctx did hf source (the_hub s) = (Inl err, h') \<Longrightarrow> hub_step s (s\<lparr>the_hub := h'\<rparr>)"
| hs_joined: "subscribe_begin ctx did hf source (the_hub s) = (Inr (i, False), h') \<Longrightarrow> hub_step s (s\<lparr>the_hub := h'\<rparr>)"
| hs_starting: "subscribe_begin ctx did hf source (the_hub s) = (Inr (i, True), h') \<Longrightarrow>
    hub_step s (s\<lparr>the_hub := h', starting := (i, did) # starting s\<rparr>)"
| hs_failed: "(i, did) \<in> set (starting s) \<Longrightarrow> removeSubscriber did i (the_hub s) = (stopped, h') \<Longrightarrow>
    hub_step s (s\<lparr>the_hub := h', starting := removeAll (i, did) (starting s), running := running s - (if stopped then 1 else 0)\<rparr>)"
| hs_installed: "(i, did) \<in> set (starting s) \<Longrightarrow> subscribe_install did i (the_hub s) = ((err, discarded, stopped), h') \<Longrightarrow>
    hub_step s (s\<lparr>the_hub := h', starting := removeAll (i, did) (starting s),
      running := running s + 1 - (if discarded then 1 else 0) - (if stopped then 1 else 0)\<rparr>)"
| hs_closed: "(i, did) \<notin> set (starting s) \<Longrightarrow> removeSubscriber did i (the_hub s) = (stopped, h') \<Longrightarrow>
    hub_step s (s\<lparr>the_hub := h', running := running s - (if stopped then 1 else 0)\<rparr>)"
| hs_shutdown: "hub_step s (s\<lparr>the_hub := hub_Close (the_hub s),
      running := running s - int (card (dom (pumps (the_hub s))))\<rparr>)"

inductive hub_reach :: "hub_sys \<Rightarrow> bool" where
  hr_new: "hub_reach \<lparr>the_hub = newHub inst generated, starting = [], running = 0\<rparr>"
| hr_step: "hub_reach s \<Longrightarrow> hub_step s s' \<Longrightarrow> hub_reach s'"

end
