(* ===== verification/HubProperties.thy ===== *)
theory HubProperties
  imports Hub
begin

text \<open>
  What the Redis hub promises: a message reaches every other subscriber exactly once, in this
  process and in the others, with its payload, source and kind intact; no message that arrives
  while a subscription is being confirmed is lost; and the pumps match the subscribers, so none
  outlives its last subscriber and none is missing.
\<close>

section \<open>Delivery\<close>

lemma deliver_calls: "fst (deliver failing is m) = map (\<lambda>i. (i, m)) is"
  by (induction "is") (auto split: prod.splits)

lemma deliver_error:
  "snd (deliver failing is m) = (case filter failing is of [] \<Rightarrow> None | i # _ \<Rightarrow> Some (ErrHandler i))"
  by (induction "is") (auto split: prod.splits)

lemma awaitSubscribed_keeps:
  assumes "awaitSubscribed want early xs = Some (Inr (msgs, rest))"
  shows "\<exists>used. xs = used @ rest \<and> msgs = early @ concat (map message_of used) \<and>
    length (filter (\<lambda>x. x = RSubscription) used) = want \<and> ROther \<notin> set used \<and> RFailed \<notin> set used"
  using assms
proof (induction want early xs rule: awaitSubscribed.induct)
  case (1 early xs)
  then show ?case by (intro exI [of _ "[]"]) auto
next
  case (3 want early x xs)
  show ?case
  proof (cases x)
    case RSubscription
    then obtain used where "xs = used @ rest" "msgs = early @ concat (map message_of used)"
        "length (filter (\<lambda>x. x = RSubscription) used) = want" "ROther \<notin> set used" "RFailed \<notin> set used"
      using 3 by auto
    then show ?thesis using RSubscription by (intro exI [of _ "x # used"]) auto
  next
    case (RMessage m)
    then obtain used where "xs = used @ rest" "msgs = (early @ [m]) @ concat (map message_of used)"
        "length (filter (\<lambda>x. x = RSubscription) used) = Suc want" "ROther \<notin> set used" "RFailed \<notin> set used"
      using 3 by auto
    then show ?thesis using RMessage by (intro exI [of _ "x # used"]) auto
  next
    case RPong
    then obtain used where "xs = used @ rest" "msgs = early @ concat (map message_of used)"
        "length (filter (\<lambda>x. x = RSubscription) used) = Suc want" "ROther \<notin> set used" "RFailed \<notin> set used"
      using 3 by auto
    then show ?thesis using RPong by (intro exI [of _ "x # used"]) auto
  qed (use 3 in auto)
qed simp

lemma awaitSubscribed_confirmed:
  assumes "RFailed \<notin> set xs" "ROther \<notin> set xs" "want \<le> length (filter (\<lambda>x. x = RSubscription) xs)"
  shows "\<exists>out. awaitSubscribed want early xs = Some (Inr out)"
  using assms by (induction want early xs rule: awaitSubscribed.induct) (auto split: received.splits if_splits)

text \<open>
  A started pump loses nothing: once Redis has confirmed both channels, the pump dispatches every
  message the connection yielded since the SUBSCRIBE, those between the confirmations included, in
  the order they arrived; and it starts whenever both confirmations arrive and nothing fails.
\<close>

theorem pump_dispatches_everything:
  "startPump did xs = Some (Inr msgs) \<Longrightarrow> msgs = concat (map message_of xs)"
  "RFailed \<notin> set xs \<Longrightarrow> ROther \<notin> set xs \<Longrightarrow> 2 \<le> length (filter (\<lambda>x. x = RSubscription) xs) \<Longrightarrow>
     startPump did xs = Some (Inr (concat (map message_of xs)))"
proof -
  have all: "early @ concat (map message_of rest) = concat (map message_of xs)"
    if "awaitSubscribed (length (pump_channels did)) [] xs = Some (Inr (early, rest))" for early rest
    using awaitSubscribed_keeps [OF that] by auto
  then show "startPump did xs = Some (Inr msgs) \<Longrightarrow> msgs = concat (map message_of xs)"
    by (auto simp: startPump_def split: option.splits sum.splits prod.splits)
  assume "RFailed \<notin> set xs" "ROther \<notin> set xs" "2 \<le> length (filter (\<lambda>x. x = RSubscription) xs)"
  then obtain out where "awaitSubscribed (length (pump_channels did)) [] xs = Some (Inr out)"
    using awaitSubscribed_confirmed [of xs "length (pump_channels did)" "[]"] by (auto simp: pump_channels_def numeral_2_eq_2)
  with all show "startPump did xs = Some (Inr (concat (map message_of xs)))"
    by (cases out) (simp add: startPump_def)
qed

section \<open>Pumps and subscribers\<close>

definition subs_ok :: "hub \<Rightarrow> bool" where
  "subs_ok h \<longleftrightarrow> (\<forall>did. distinct (keys (subs h did)) \<and> (\<forall>i\<in>set (keys (subs h did)). i \<le> hubNextID h))"

definition refs_ok :: "hub \<Rightarrow> bool" where
  "refs_ok h \<longleftrightarrow> (\<forall>did refs. pumps h did = Some refs \<longrightarrow> refs = int (length (subs h did)) \<and> refs > 0)"

definition covered :: "hub \<Rightarrow> (sub_id \<times> document_id) list \<Rightarrow> bool" where
  "covered h st \<longleftrightarrow> (\<forall>did. pumps h did = None \<longrightarrow> (\<forall>i\<in>set (keys (subs h did)). (i, did) \<in> set st))"

definition closed_ok :: "hub \<Rightarrow> bool" where
  "closed_ok h \<longleftrightarrow> (hubClosed h \<longrightarrow> pumps h = Map.empty \<and> subs h = (\<lambda>_. []))"

definition counted :: "hub \<Rightarrow> int \<Rightarrow> bool" where
  "counted h n \<longleftrightarrow> finite (dom (pumps h)) \<and> n = int (card (dom (pumps h)))"

definition hub_inv :: "hub_sys \<Rightarrow> bool" where
  "hub_inv s \<longleftrightarrow> subs_ok (the_hub s) \<and> refs_ok (the_hub s) \<and> covered (the_hub s) (starting s) \<and> closed_ok (the_hub s) \<and>
     counted (the_hub s) (running s)"

lemma length_delete_present:
  assumes "distinct (keys xs)" "map_of xs k \<noteq> None"
  shows "int (length (AList.delete k xs)) = int (length xs) - 1"
proof -
  obtain v where "map_of xs k = Some v" using assms(2) by auto
  from filter_delete_count [OF assms(1) this, of "\<lambda>_. True"] show ?thesis by simp
qed

lemma counted_remove: "counted h n \<Longrightarrow> pumps h k \<noteq> None \<Longrightarrow> counted (h\<lparr>subs := x, pumps := (pumps h)(k := None)\<rparr>) (n - 1)"
proof -
  assume c: "counted h n" and k: "pumps h k \<noteq> None"
  have "k \<in> dom (pumps h)" "finite (dom (pumps h))" using c k by (auto simp: counted_def)
  then have "int (card (dom (pumps h) - {k})) = int (card (dom (pumps h))) - 1"
    by (metis card_Suc_Diff1 add_diff_cancel_left' of_nat_Suc)
  then show ?thesis using c by (simp add: counted_def)
qed

text \<open>Dropping a subscriber; \<open>st'\<close> may forget it as well.\<close>

lemma removeSubscriber_inv:
  assumes "hub_inv s" "removeSubscriber did i (the_hub s) = (stopped, h')"
    "\<And>j d. (j, d) \<in> set (starting s) \<Longrightarrow> (j, d) \<noteq> (i, did) \<Longrightarrow> (j, d) \<in> set st'"
  shows "hub_inv (s\<lparr>the_hub := h', starting := st', running := running s - (if stopped then 1 else 0)\<rparr>)"
proof -
  let ?h = "the_hub s" and ?rest = "AList.delete i (subs (the_hub s) did)"
  have inv: "subs_ok ?h" "refs_ok ?h" "covered ?h (starting s)" "closed_ok ?h" "counted ?h (running s)"
    using assms(1) by (auto simp: hub_inv_def)
  have d: "distinct (keys (subs ?h did))" using inv(1) by (simp add: subs_ok_def)
  show ?thesis
  proof (cases "map_of (subs ?h did) i")
    case None
    then have h': "h' = ?h" "\<not> stopped" using assms(2) by (auto simp: removeSubscriber_def)
    have "covered ?h st'" using inv(3) None assms(3) unfolding covered_def map_of_None_keys by blast
    then show ?thesis using inv h' by (simp add: hub_inv_def)
  next
    case (Some source)
    then have len: "int (length ?rest) = int (length (subs ?h did)) - 1" using length_delete_present [OF d] by simp
    have open_hub: "\<not> hubClosed ?h" using inv(4) Some by (auto simp: closed_ok_def)
    have subs': "subs_ok (?h\<lparr>subs := (subs ?h)(did := ?rest), pumps := p\<rparr>)" for p
      using inv(1) by (auto simp: subs_ok_def distinct_keys_delete simp del: set_map)
    have cov: "covered (?h\<lparr>subs := (subs ?h)(did := ?rest), pumps := p\<rparr>) st'"
      if "\<And>d. d \<noteq> did \<Longrightarrow> p d = pumps ?h d" "p did = None \<Longrightarrow> pumps ?h did = None \<or> ?rest = []" for p
      unfolding covered_def
    proof (intro allI impI ballI)
      fix d j assume d: "pumps (?h\<lparr>subs := (subs ?h)(did := ?rest), pumps := p\<rparr>) d = None"
        and j: "j \<in> set (keys (subs (?h\<lparr>subs := (subs ?h)(did := ?rest), pumps := p\<rparr>) d))"
      then have "pumps ?h d = None" "j \<in> set (keys (subs ?h d))" "(j, d) \<noteq> (i, did)"
        using that by (cases "d = did"; simp del: set_map; auto)+
      then show "(j, d) \<in> set st'" using inv(3) assms(3) unfolding covered_def by blast
    qed
    show ?thesis
    proof (cases "pumps ?h did")
      case None
      then have h': "h' = ?h\<lparr>subs := (subs ?h)(did := ?rest), pumps := pumps ?h\<rparr>" "\<not> stopped"
        using assms(2) Some by (auto simp: removeSubscriber_def Let_def)
      then show ?thesis
        using subs' [of "pumps ?h"] cov [of "pumps ?h"] None inv(2,5) open_hub
        by (auto simp: hub_inv_def refs_ok_def closed_ok_def counted_def)
    next
      case (Some refs)
      then have r: "refs = int (length (subs ?h did))" "refs > 0" using inv(2) by (auto simp: refs_ok_def)
      show ?thesis
      proof (cases "refs - 1 \<le> 0")
        case True
        then have h': "h' = ?h\<lparr>subs := (subs ?h)(did := ?rest), pumps := (pumps ?h)(did := None)\<rparr>" "stopped"
          using assms(2) Some \<open>map_of (subs ?h did) i = Some source\<close> by (auto simp: removeSubscriber_def Let_def)
        moreover have "int (length ?rest) \<le> 0" using True r len by linarith
        then have "?rest = []" by simp
        ultimately show ?thesis
          using subs' [of "(pumps ?h)(did := None)"] cov [of "(pumps ?h)(did := None)"] counted_remove [OF inv(5), of did] Some inv(2) open_hub
          by (auto simp: hub_inv_def refs_ok_def closed_ok_def)
      next
        case False
        then have h': "h' = ?h\<lparr>subs := (subs ?h)(did := ?rest), pumps := (pumps ?h)(did \<mapsto> refs - 1)\<rparr>" "\<not> stopped"
          using assms(2) Some \<open>map_of (subs ?h did) i = Some source\<close> by (auto simp: removeSubscriber_def Let_def)
        moreover have "counted h' (running s)" using inv(5) Some h' by (auto simp: counted_def insert_absorb domI)
        ultimately show ?thesis
          using subs' [of "(pumps ?h)(did \<mapsto> refs - 1)"] cov [of "(pumps ?h)(did \<mapsto> refs - 1)"] inv(2) open_hub r len False
          by (auto simp: hub_inv_def refs_ok_def closed_ok_def)
      qed
    qed
  qed
qed

lemma subscribe_begin_inv:
  assumes "hub_inv s" "subscribe_begin ctx did hf source (the_hub s) = (Inr (i, need), h')"
  shows "hub_inv (s\<lparr>the_hub := h', starting := (if need then (i, did) # starting s else starting s)\<rparr>)"
proof -
  let ?h = "the_hub s" and ?new = "Suc (hubNextID (the_hub s))"
  let ?subs = "(subs ?h)(did := subs ?h did @ [(?new, source)])"
  have inv: "subs_ok ?h" "refs_ok ?h" "covered ?h (starting s)" "closed_ok ?h" "counted ?h (running s)"
    using assms(1) by (auto simp: hub_inv_def)
  have "?new \<notin> set (keys (subs ?h did))" using inv(1) unfolding subs_ok_def by (meson Suc_n_not_le_n)
  then have new: "AList.update ?new source (subs ?h did) = subs ?h did @ [(?new, source)]"
    by (intro update_absent) (simp add: map_of_None_keys)
  have open_hub: "\<not> hubClosed ?h" "i = ?new" using assms(2) by (auto simp: subscribe_begin_def Let_def split: if_splits option.splits)
  have subs': "subs_ok (?h\<lparr>hubNextID := ?new, subs := ?subs, pumps := p\<rparr>)" for p
    using inv(1) \<open>?new \<notin> _\<close> by (fastforce simp: subs_ok_def le_SucI)
  show ?thesis
  proof (cases "pumps ?h did")
    case None
    then have "need" "h' = ?h\<lparr>hubNextID := ?new, subs := ?subs, pumps := pumps ?h\<rparr>"
      using assms(2) new by (auto simp: subscribe_begin_def Let_def split: if_splits)
    then show ?thesis
      using subs' [of "pumps ?h"] inv(2,3,5) open_hub None
      by (auto simp: hub_inv_def refs_ok_def covered_def closed_ok_def counted_def split: if_splits)
  next
    case (Some refs)
    then have h': "\<not> need" "h' = ?h\<lparr>hubNextID := ?new, subs := ?subs, pumps := (pumps ?h)(did \<mapsto> refs + 1)\<rparr>"
      using assms(2) new by (auto simp: subscribe_begin_def Let_def split: if_splits)
    moreover have "counted h' (running s)" using inv(5) Some h' by (auto simp: counted_def insert_absorb domI)
    moreover have "refs = int (length (subs ?h did))" "refs > 0" using inv(2) Some unfolding refs_ok_def by blast+
    then have "refs_ok h'" using inv(2) h'(2) unfolding refs_ok_def by (simp only: hub.simps fun_upd_apply) (simp split: if_splits)
    ultimately show ?thesis
      using subs' [of "(pumps ?h)(did \<mapsto> refs + 1)"] inv(3) open_hub Some
      by (auto simp: hub_inv_def covered_def closed_ok_def split: if_splits)
  qed
qed

lemma subscribe_install_inv:
  assumes "hub_inv s" "subscribe_install did i (the_hub s) = ((err, discarded, stopped), h')"
  shows "hub_inv (s\<lparr>the_hub := h', starting := removeAll (i, did) (starting s),
    running := running s + 1 - (if discarded then 1 else 0) - (if stopped then 1 else 0)\<rparr>)"
proof -
  let ?h = "the_hub s" and ?live = "int (length (subs (the_hub s) did))"
  have inv: "subs_ok ?h" "refs_ok ?h" "covered ?h (starting s)" "closed_ok ?h" "counted ?h (running s)"
    using assms(1) by (auto simp: hub_inv_def)
  show ?thesis
  proof (cases "hubClosed ?h")
    case True
    then show ?thesis using assms(2) inv by (auto simp: subscribe_install_def hub_inv_def covered_def closed_ok_def)
  next
    case open_hub: False
    show ?thesis
    proof (cases "pumps ?h did")
      case (Some refs)
      then have "refs = ?live" "?live > 0" using inv(2) by (auto simp: refs_ok_def)
      moreover have "(pumps ?h)(did \<mapsto> refs) = pumps ?h" using Some by (auto simp: fun_eq_iff)
      ultimately have "h' = ?h" "discarded" "\<not> stopped"
        using assms(2) open_hub Some by (auto simp: subscribe_install_def Let_def)
      then show ?thesis using inv Some by (auto simp: hub_inv_def covered_def)
    next
      case None
      show ?thesis
      proof (cases "?live = 0")
        case True
        then have "h' = ?h" "discarded" "\<not> stopped" using assms(2) open_hub None by (auto simp: subscribe_install_def Let_def)
        then show ?thesis using inv True by (auto simp: hub_inv_def covered_def)
      next
        case False
        then have h': "h' = ?h\<lparr>pumps := (pumps ?h)(did \<mapsto> ?live)\<rparr>" "\<not> discarded" "\<not> stopped"
          using assms(2) open_hub None by (auto simp: subscribe_install_def Let_def)
        moreover have "counted h' (running s + 1)" using inv(5) None h' by (auto simp: counted_def domIff)
        ultimately show ?thesis using inv(1-4) False open_hub
          by (auto simp: hub_inv_def subs_ok_def refs_ok_def covered_def closed_ok_def split: if_splits)
      qed
    qed
  qed
qed

lemma hub_inv_step:
  assumes "hub_inv s" "hub_step s s'"
  shows "hub_inv s'"
  using assms(2)
proof cases
  case (hs_refused ctx did hf source err h')
  then have "h' = the_hub s" by (auto simp: subscribe_begin_def Let_def split: if_splits option.splits)
  then show ?thesis using hs_refused assms(1) by simp
next
  case (hs_joined ctx did hf source i h')
  then show ?thesis using subscribe_begin_inv [OF assms(1) hs_joined(2)] by simp
next
  case (hs_starting ctx did hf source i h')
  then show ?thesis using subscribe_begin_inv [OF assms(1) hs_starting(2)] by simp
next
  case (hs_failed i did stopped h')
  then show ?thesis using removeSubscriber_inv [OF assms(1) hs_failed(3)] by auto
next
  case (hs_installed i did err discarded stopped h')
  then show ?thesis using subscribe_install_inv [OF assms(1) hs_installed(3)] by simp
next
  case (hs_closed i did stopped h')
  then show ?thesis using removeSubscriber_inv [OF assms(1) hs_closed(3), of "starting s"] by simp
next
  case hs_shutdown
  then show ?thesis using assms(1)
    by (auto simp: hub_inv_def hub_Close_def subs_ok_def refs_ok_def covered_def closed_ok_def counted_def)
qed

lemma hub_reach_inv: "hub_reach s \<Longrightarrow> hub_inv s"
proof (induction rule: hub_reach.induct)
  case (hr_new inst generated)
  then show ?case by (simp add: hub_inv_def newHub_def subs_ok_def refs_ok_def covered_def closed_ok_def counted_def)
qed (rule hub_inv_step)

section \<open>The guarantees of the hub\<close>

text \<open>
  C26: pumps match subscribers. In every interleaving of subscribe, unsubscribe, failures of Redis and
  shutdown, an installed pump counts exactly the subscribers of its document and has at least one,
  the Redis subscriptions running are exactly the installed ones, none survives a close, and when no
  call waits for Redis a document has a pump if and only if it has a subscriber.
\<close>

theorem pumps_match_subscribers:
  assumes "hub_reach s"
  shows "(\<forall>did refs. pumps (the_hub s) did = Some refs \<longrightarrow> refs = int (length (subs (the_hub s) did)) \<and> 0 < refs) \<and>
    running s = int (card (dom (pumps (the_hub s)))) \<and> (hubClosed (the_hub s) \<longrightarrow> running s = 0) \<and>
    (starting s = [] \<longrightarrow> (pumps (the_hub s) did \<noteq> None \<longleftrightarrow> subs (the_hub s) did \<noteq> []))"
proof -
  have inv: "hub_inv s" by (rule hub_reach_inv [OF assms])
  have "pumps (the_hub s) did \<noteq> None \<longleftrightarrow> subs (the_hub s) did \<noteq> []" if "starting s = []"
  proof (cases "pumps (the_hub s) did")
    case None
    then show ?thesis using inv that by (auto simp: hub_inv_def covered_def)
  next
    case (Some refs)
    then have "0 < int (length (subs (the_hub s) did))" using inv unfolding hub_inv_def refs_ok_def by metis
    then show ?thesis using Some by auto
  qed
  then show ?thesis using inv by (auto simp: hub_inv_def refs_ok_def closed_ok_def counted_def)
qed

text \<open>Two subscribers race for the same document; the second pump is stopped again.\<close>

definition sample_race :: hub_sys where
  "sample_race =
     (let h0 = newHub [1] [9]; h1 = snd (subscribe_begin False ''d'' True [5] h0);
          h2 = snd (subscribe_begin False ''d'' True [6] h1);
          h3 = snd (subscribe_install ''d'' 1 h2); h4 = snd (subscribe_install ''d'' 2 h3)
      in \<lparr>the_hub = h4, starting = [], running = 1\<rparr>)"

lemma sample_race_reach: "hub_reach sample_race"
proof -
  let ?s0 = "\<lparr>the_hub = newHub [1] [9], starting = [], running = 0\<rparr>"
  let ?h1 = "snd (subscribe_begin False ''d'' True [5] (newHub [1] [9]))"
  let ?h2 = "snd (subscribe_begin False ''d'' True [6] ?h1)"
  let ?h3 = "snd (subscribe_install ''d'' 1 ?h2)"
  let ?h4 = "snd (subscribe_install ''d'' 2 ?h3)"
  have "hub_reach ?s0" by (rule hr_new)
  then have "hub_reach (?s0\<lparr>the_hub := ?h1, starting := [(1, ''d'')]\<rparr>)"
    by (rule hr_step) (use hs_starting [of False "''d''" True "[5]" ?s0 1 ?h1] in \<open>simp add: subscribe_begin_def newHub_def Let_def\<close>)
  then have "hub_reach (?s0\<lparr>the_hub := ?h2, starting := [(2, ''d''), (1, ''d'')]\<rparr>)"
    by (rule hr_step) (use hs_starting [of False "''d''" True "[6]" "?s0\<lparr>the_hub := ?h1, starting := [(1, ''d'')]\<rparr>" 2 ?h2] in
        \<open>simp add: subscribe_begin_def newHub_def Let_def numeral_2_eq_2\<close>)
  then have "hub_reach (?s0\<lparr>the_hub := ?h3, starting := [(2, ''d'')], running := 1\<rparr>)"
    by (rule hr_step) (use hs_installed [of 1 "''d''" "?s0\<lparr>the_hub := ?h2, starting := [(2, ''d''), (1, ''d'')]\<rparr>" None False False ?h3] in
        \<open>simp add: subscribe_begin_def subscribe_install_def newHub_def Let_def\<close>)
  then have "hub_reach (?s0\<lparr>the_hub := ?h4, starting := [], running := 1\<rparr>)"
    by (rule hr_step) (use hs_installed [of 2 "''d''" "?s0\<lparr>the_hub := ?h3, starting := [(2, ''d'')], running := 1\<rparr>" None True False ?h4] in
        \<open>simp add: subscribe_begin_def subscribe_install_def newHub_def Let_def\<close>)
  then show ?thesis by (simp add: sample_race_def Let_def)
qed

theorem pumps_match_subscribers_witness:
  "pumps (the_hub sample_race) ''d'' = Some 2 \<and> length (subs (the_hub sample_race) ''d'') = 2 \<and> running sample_race = 1"
proof -
  have p: "pumps (the_hub sample_race) ''d'' = Some 2 \<and> running sample_race = 1" by code_simp
  then show ?thesis using pumps_match_subscribers [OF sample_race_reach] by force
qed

text \<open>
  C27: fan-out reaches everyone else once. A published message is handed once to every local
  subscriber with another source and to nobody else; the frame put on Redis, received by a hub of
  another instance, is handed once to each of its subscribers with another source, with the same
  document, source, kind and payload; and the publisher's own instance drops its loopback.
\<close>

theorem fanout_reaches_others_once:
  assumes "hub_Publish failing True False m h = (calls, Some (channel, frame), err)"
    and "length (instanceID h) \<le> maxIDLen" and "length (msgSource m) \<le> maxIDLen" and "instanceID h' \<noteq> instanceID h"
  shows "calls = map (\<lambda>i. (i, m)) (targets (msgDocument m) (msgSource m) h) \<and>
    dispatchRemote failing' (msgDocument m) (channel, frame) h' = map (\<lambda>i. (i, m)) (targets (msgDocument m) (msgSource m) h') \<and>
    dispatchRemote failing' (msgDocument m) (channel, frame) h = [] \<and>
    (err = None \<longleftrightarrow> (\<forall>i\<in>set (targets (msgDocument m) (msgSource m) h). \<not> failing i))"
proof -
  let ?ts = "targets (msgDocument m) (msgSource m) h"
  have c: "channel = channelFor (msgDocument m) (msgKind m)" "frame = hub_encode (instanceID h) (msgSource m) (msgPayload m)"
      "calls = fst (deliver failing ?ts m)" "err = snd (deliver failing ?ts m)"
    using assms(1) by (auto simp: hub_Publish_def split: if_splits prod.splits)
  have "m = \<lparr>msgDocument = msgDocument m, msgSource = msgSource m, msgKind = msgKind m, msgPayload = msgPayload m\<rparr>" by simp
  then have "dispatchRemote failing' (msgDocument m) (channel, frame) h' = map (\<lambda>i. (i, m)) (targets (msgDocument m) (msgSource m) h')"
    using hub_decode_encode [OF assms(2,3)] assms(4) c(1,2) by (auto simp: dispatchRemote_def deliver_calls)
  moreover have "err = None \<longleftrightarrow> (\<forall>i\<in>set ?ts. \<not> failing i)"
    unfolding c(4) deliver_error by (auto simp: filter_empty_conv split: list.splits) (metis filter_empty_conv list.distinct(1))
  ultimately show ?thesis
    using hub_decode_encode [OF assms(2,3)] c by (auto simp: dispatchRemote_def deliver_calls)
qed

theorem fanout_reaches_others_once_witness:
  "let m = \<lparr>msgDocument = ''d'', msgSource = [5], msgKind = AwarenessUpdate, msgPayload = [7, 8]\<rparr>
   in dispatchRemote (\<lambda>_. False) ''d'' (''awareness:d'', hub_encode [1] [5] [7, 8]) ((the_hub sample_race)\<lparr>instanceID := [2]\<rparr>) = [(2, m)]"
proof -
  let ?m = "\<lparr>msgDocument = ''d'', msgSource = [5], msgKind = AwarenessUpdate, msgPayload = [7, 8]\<rparr>"
  let ?p = "hub_Publish (\<lambda>_. False) True False ?m (the_hub sample_race)"
  have i: "instanceID (the_hub sample_race) = [1]" "\<not> hubClosed (the_hub sample_race)" "targets ''d'' [5] (the_hub sample_race) = [2]"
    "targets ''d'' [5] ((the_hub sample_race)\<lparr>instanceID := [2]\<rparr>) = [2]" by code_simp+
  then have p: "?p = ([(2, ?m)], Some (''awareness:d'', hub_encode [1] [5] [7, 8]), None)"
    by (simp add: hub_Publish_def channelFor_def)
  from fanout_reaches_others_once [OF p, of "(the_hub sample_race)\<lparr>instanceID := [2]\<rparr>" "\<lambda>_. False"] i
  show ?thesis by (simp add: maxIDLen_def)
qed

end
