(* ===== verification/RpcProperties.thy ===== *)
theory RpcProperties
  imports RpcClient
begin

text \<open>
  Every RPC call of the metadata store is answered. The invariant of the reachable states ties the
  registered calls to the session the supervisor consumes, so that no interleaving of calls, replies,
  dropped sessions, re-attachments and \<^verbatim>\<open>Close\<close> leaves a call waiting where no reply can arrive.
\<close>

interpretation rpc: attachable rpc_adopt rpc_snap False
  by unfold_locales (simp_all add: rpc_adopt_def rpc_snap_def)

section \<open>The invariant\<close>

definition serving :: "rpc_sys \<Rightarrow> nat \<Rightarrow> bool" where
  "serving s n \<longleftrightarrow> phase (sup s) = Consuming n \<and> \<not> streamEnded s"

definition link_inv :: "rpc_sys \<Rightarrow> bool" where
  "link_inv s \<longleftrightarrow> sup_inv (sup s) \<and> replyQ (the_client s) = attCh (the_client s) \<and>
     ((\<exists>n. serving s n) \<or> detached (the_client s) \<and> pending (the_client s) = [])"

text \<open>\<open>ps\<close> are the registered calls, \<open>ks\<close> those a reply is being sent to.\<close>

definition waiting :: "call_id list \<Rightarrow> call_id list \<Rightarrow> (call_id \<rightharpoonup> call) \<Rightarrow> bool" where
  "waiting ps ks cs \<longleftrightarrow> distinct (ps @ ks) \<and> (\<forall>i\<in>set ps. map_option callWaiter (cs i) = Some []) \<and>
     (\<forall>i\<in>set ks. map_option callWaiter (cs i) = Some []) \<and>
     (\<forall>i k. cs i = Some k \<and> callState k \<in> {Publishing, Awaiting} \<longrightarrow> i \<in> set ps \<union> set ks \<or> callWaiter k \<noteq> [])"

abbreviation waiting_inv :: "rpc_sys \<Rightarrow> bool" where
  "waiting_inv s \<equiv> waiting (pending (the_client s)) (keys (sends s)) (calls s)"

text \<open>A registered call has named the queue the supervisor reads.\<close>

fun routed :: "nat \<Rightarrow> call option \<Rightarrow> bool" where
  "routed n None = False"
| "routed n (Some k) = (callCh k = n \<and> callReplyQ k = n)"

definition routed_inv :: "rpc_sys \<Rightarrow> bool" where
  "routed_inv s \<longleftrightarrow> (\<forall>n. phase (sup s) = Consuming n \<longrightarrow> (\<forall>i\<in>set (pending (the_client s)). routed n (calls s i)))"

text \<open>Replies travel on the queue the call has named, or are the client's own error.\<close>

definition answered_by :: "(nat \<times> call_id \<times> nestReply) list \<Rightarrow> call_id \<Rightarrow> call \<Rightarrow> nestReply \<Rightarrow> bool" where
  "answered_by rs i k r \<longleftrightarrow> r = channelClosedReply \<or> (callReplyQ k, i, r) \<in> set rs"

definition call_origin :: "(nat \<times> call_id \<times> nestReply) list \<Rightarrow> (call_id \<times> nestReply) list \<Rightarrow> call_id \<Rightarrow> call \<Rightarrow> bool" where
  "call_origin rs out i k \<longleftrightarrow> (\<forall>r\<in>set (callWaiter k). answered_by rs i k r) \<and> (\<forall>r. (i, r) \<in> set out \<longrightarrow> answered_by rs i k r) \<and>
     (\<forall>v. callState k = Leaving (Inr v) \<or> callState k = Returned (Inr v) \<longrightarrow>
        (\<exists>r. (callReplyQ k, i, r) \<in> set rs \<and> call_result r = Inr v))"

definition origin_inv :: "rpc_sys \<Rightarrow> bool" where
  "origin_inv s \<longleftrightarrow> (\<forall>i k. calls s i = Some k \<longrightarrow> call_origin (received s) (sends s) i k)"

definition rpc_inv :: "rpc_sys \<Rightarrow> bool" where
  "rpc_inv s \<longleftrightarrow> link_inv s \<and> waiting_inv s \<and> routed_inv s \<and> origin_inv s"

lemma channelClosed_fails: "call_result channelClosedReply \<noteq> Inr v"
  by (simp add: call_result_def channelClosedReply_def json_string_def json_null_def)

lemmas rpc_ops = call_register_def call_forget_def rpc_deliver_def failAllPending_def set_client_def put_call_def

lemma serving_simps [simp]:
  "serving (put_call i k s) n = serving s n" "serving (set_client c s) n = serving s n"
  by (simp_all add: serving_def put_call_def set_client_def)

lemma put_call_simps [simp]:
  "sup (put_call i k s) = sup s" "sends (put_call i k s) = sends s" "received (put_call i k s) = received s"
  "streamEnded (put_call i k s) = streamEnded s" "calls (put_call i k s) = (calls s)(i \<mapsto> k)"
  "sends (set_client c s) = sends s" "received (set_client c s) = received s" "calls (set_client c s) = calls s"
  "sup (set_client c s) = (sup s)\<lparr>client := c\<rparr>" "streamEnded (set_client c s) = streamEnded s"
  by (simp_all add: put_call_def set_client_def)

lemma link_client:
  "link_inv s \<Longrightarrow> attConn c = attConn (the_client s) \<Longrightarrow> attCh c = attCh (the_client s) \<Longrightarrow> shutdown c = shutdown (the_client s) \<Longrightarrow>
     replyQ c = replyQ (the_client s) \<Longrightarrow> (\<exists>n. serving s n) \<or> detached c \<and> pending c = [] \<Longrightarrow> link_inv (set_client c s)"
  unfolding link_inv_def by (auto simp: set_client_def serving_def intro: sup_inv_frame)

lemma link_other: "link_inv s \<Longrightarrow> link_inv (put_call i k s)"
  by (auto simp: link_inv_def)

lemma link_serving: "link_inv s \<Longrightarrow> \<not> detached (the_client s) \<Longrightarrow> \<exists>n. serving s n \<and> attCh (the_client s) = n \<and> replyQ (the_client s) = n"
  by (auto simp: link_inv_def serving_def dest: sup_inv_live)

lemma link_alive: "link_inv s \<Longrightarrow> (\<exists>n. serving s n) \<or> detached (the_client s) \<and> pending (the_client s) = []"
  by (simp add: link_inv_def)

definition consuming :: "phase \<Rightarrow> bool" where
  "consuming p \<longleftrightarrow> (\<exists>n. p = Consuming n)"

lemma consuming_simps [simp]:
  "consuming (Consuming n)" "\<not> consuming (Releasing n)" "\<not> consuming Pausing" "\<not> consuming Dialling" "\<not> consuming (Holding n)"
  "\<not> consuming (Refusing n)" "\<not> consuming Stopped"
  by (simp_all add: consuming_def)

text \<open>What a step of the supervisor or of \<^verbatim>\<open>Close\<close> means for the calls.\<close>

lemma sup_step_effect:
  assumes "sup_step rpc_adopt rpc_snap False u t"
  shows "pending (client t) = pending (client u)"
    and "replyQ (client u) = attCh (client u) \<Longrightarrow> replyQ (client t) = attCh (client t)"
    and "phase t = phase u \<or> \<not> consuming (phase t) \<and> client t = client u \<or> \<not> consuming (phase u) \<and> consuming (phase t)"
    and "detached (client u) \<Longrightarrow> \<not> consuming (phase t) \<Longrightarrow> detached (client t)"
    and "phase t = phase u \<Longrightarrow> attCh (client t) = attCh (client u) \<and> (detached (client u) \<longrightarrow> detached (client t))"
  using assms by (cases rule: sup_step.cases; auto simp: rpc_adopt_def rpc_snap_def split: if_splits)+

lemma link_supervised:
  assumes "link_inv s" and "sup_step rpc_adopt rpc_snap False (sup s) t"
    and "consuming (phase (sup s)) \<Longrightarrow> phase t \<noteq> phase (sup s) \<Longrightarrow> streamEnded s"
  shows "link_inv (s\<lparr>sup := t, streamEnded := (streamEnded s \<and> phase t = phase (sup s))\<rparr>)"
proof -
  note eff = sup_step_effect [OF assms(2)]
  have "sup_inv t" "replyQ (client t) = attCh (client t)"
    using assms(1) rpc.sup_inv_step [OF _ assms(2)] eff(2) by (auto simp: link_inv_def)
  moreover have "(\<exists>n. phase t = Consuming n \<and> \<not> (streamEnded s \<and> phase t = phase (sup s))) \<or>
      detached (client t) \<and> pending (client t) = []"
  proof (cases "consuming (phase t)")
    case True
    then show ?thesis using link_alive [OF assms(1)] eff(1,3,5) by (auto simp: serving_def consuming_def)
  next
    case False
    then show ?thesis using link_alive [OF assms(1)] eff assms(3) by (auto simp: serving_def consuming_def)
  qed
  ultimately show ?thesis by (simp add: link_inv_def serving_def)
qed

lemma link_inv_step:
  assumes "link_inv s" and "rpc_step s s'"
  shows "link_inv s'"
  using assms(2)
proof (cases rule: rpc_step.cases)
  case (call_registered i ch q c)
  then show ?thesis
    using assms(1) link_serving [OF assms(1)] by (auto simp: call_register_def intro!: link_other link_client split: if_splits)
next
  case (call_left i k res)
  then show ?thesis using assms(1) link_alive [OF assms(1)] by (auto simp: call_forget_def intro!: link_other link_client)
next
  case (reply_received n i r out c)
  then have "link_inv (set_client c s)"
    using assms(1) by (auto simp: rpc_deliver_def call_forget_def serving_def intro!: link_client split: if_splits)
  then show ?thesis using reply_received by (simp add: link_inv_def serving_def)
next
  case (stream_ended n out c)
  then have "link_inv (set_client c s)"
    using assms(1) by (auto simp: failAllPending_def serving_def intro!: link_client)
  then show ?thesis using stream_ended by (auto simp: link_inv_def serving_def failAllPending_def)
next
  case (supervised t)
  then show ?thesis using link_supervised [OF assms(1) supervised(2)] by (simp add: consuming_def)
qed (use assms(1) in \<open>auto simp: link_inv_def serving_def put_call_def\<close>)

lemma waiting_new:
  assumes "waiting ps ks cs" and "cs i = None"
  shows "callWaiter k = [] \<Longrightarrow> waiting (i # ps) ks (cs(i \<mapsto> k))"
    and "callState k \<notin> {Publishing, Awaiting} \<Longrightarrow> waiting ps ks (cs(i \<mapsto> k))"
proof -
  have new: "i \<notin> set ps" "i \<notin> set ks" using assms by (auto simp: waiting_def)
  show "waiting (i # ps) ks (cs(i \<mapsto> k))" if "callWaiter k = []"
    using assms new that by (auto simp: waiting_def)
  show "waiting ps ks (cs(i \<mapsto> k))" if "callState k \<notin> {Publishing, Awaiting}"
    using assms new that by (auto simp: waiting_def)
qed

lemma waiting_moves:
  assumes "waiting ps ks cs" and "cs i = Some k" and "callWaiter k' = callWaiter k"
    and "callState k' \<in> {Publishing, Awaiting} \<Longrightarrow> callState k \<in> {Publishing, Awaiting}"
  shows "waiting ps ks (cs(i \<mapsto> k'))"
  using assms by (auto simp: waiting_def)

lemma waiting_forget: "waiting ps ks cs \<Longrightarrow> cs i = Some k \<Longrightarrow> callState k \<notin> {Publishing, Awaiting} \<Longrightarrow> waiting (removeAll i ps) ks cs"
  by (auto simp: waiting_def distinct_removeAll)

lemma waiting_received:
  "waiting ps ks cs \<Longrightarrow> cs i = Some k \<Longrightarrow> callWaiter k \<noteq> [] \<Longrightarrow> callState k' \<notin> {Publishing, Awaiting} \<Longrightarrow> waiting ps ks (cs(i \<mapsto> k'))"
  by (auto simp: waiting_def)

lemma waiting_matched: "waiting ps [] cs \<Longrightarrow> i \<in> set ps \<Longrightarrow> waiting (removeAll i ps) [i] cs"
  by (auto simp: waiting_def distinct_removeAll)

lemma waiting_failed: "waiting ps [] cs \<Longrightarrow> waiting [] ps cs"
  by (auto simp: waiting_def)

lemma waiting_sent: "waiting ps (i # ks) cs \<Longrightarrow> callWaiter k \<noteq> [] \<Longrightarrow> waiting ps ks (cs(i \<mapsto> k))"
  by (auto simp: waiting_def)

lemma waiting_inv_step:
  assumes "waiting_inv s" and "rpc_step s s'"
  shows "waiting_inv s'"
  using assms(2)
proof (cases rule: rpc_step.cases)
  case (call_left i k res)
  then have "waiting_inv (put_call i (k\<lparr>callState := Returned res\<rparr>) s)"
    using waiting_moves [OF assms(1) call_left(2), of "k\<lparr>callState := Returned res\<rparr>"] by simp
  then show ?thesis using call_left waiting_forget [of _ _ _ i] by (simp add: call_forget_def)
next
  case (reply_received n i r out c)
  then show ?thesis using assms(1) waiting_matched by (auto simp: rpc_deliver_def call_forget_def split: if_splits)
next
  case (stream_ended n out c)
  then show ?thesis using assms(1) waiting_failed by (auto simp: failAllPending_def comp_def)
next
  case (supervised t)
  then show ?thesis using assms(1) sup_step_effect(1) [OF supervised(2)] by simp
next
  case (reply_sent i r rest k)
  then show ?thesis using assms(1) waiting_sent by simp
qed (use assms(1) in \<open>auto simp: call_register_def intro: waiting_new waiting_moves waiting_received split: if_splits\<close>)

lemma routed_call:
  assumes "routed_inv s" and "calls s i = None \<or> (\<exists>k'. calls s i = Some k' \<and> callCh k = callCh k' \<and> callReplyQ k = callReplyQ k')"
  shows "routed_inv (put_call i k s)"
  unfolding routed_inv_def
proof (intro allI impI ballI)
  fix n j
  assume n: "phase (sup (put_call i k s)) = Consuming n" and j: "j \<in> set (pending (the_client (put_call i k s)))"
  then have "routed n (calls s j)" using assms(1) by (simp add: routed_inv_def)
  then show "routed n (calls (put_call i k s) j)" using assms(2) by auto
qed

lemma routed_client: "routed_inv s \<Longrightarrow> set (pending c) \<subseteq> set (pending (the_client s)) \<Longrightarrow> routed_inv (set_client c s)"
  by (auto simp: routed_inv_def)

lemma routed_inv_step:
  assumes "link_inv s" and "routed_inv s" and "rpc_step s s'"
  shows "routed_inv s'"
  using assms(3)
proof (cases rule: rpc_step.cases)
  case (call_registered i ch q c)
  then show ?thesis using assms(2) link_serving [OF assms(1)]
    by (auto simp: routed_inv_def serving_def call_register_def split: if_splits)
next
  case (supervised t)
  have "pending (client t) = []" if "phase t \<noteq> phase (sup s)" "phase t = Consuming n" for n
    using link_alive [OF assms(1)] sup_step_effect(1,3) [OF supervised(2)] that by (auto simp: serving_def consuming_def)
  then show ?thesis using supervised assms(2) sup_step_effect(1) [OF supervised(2)]
    by (cases "phase t = phase (sup s)") (auto simp: routed_inv_def)
next
  case (call_left i k res)
  then show ?thesis using assms(2) by (auto simp: call_forget_def intro!: routed_call routed_client)
next
  case (reply_received n i r out c)
  then have "routed_inv (set_client c s)"
    using assms(2) by (auto simp: rpc_deliver_def call_forget_def intro!: routed_client split: if_splits)
  then show ?thesis using reply_received by (simp add: routed_inv_def)
next
  case (stream_ended n out c)
  then show ?thesis by (auto simp: failAllPending_def routed_inv_def)
next
  case (reply_sent i r rest k)
  then have "routed_inv (put_call i (k\<lparr>callWaiter := [r]\<rparr>) s)" using assms(2) by (auto intro!: routed_call)
  then show ?thesis using reply_sent by (simp add: routed_inv_def)
qed (use assms(2) in \<open>auto intro!: routed_call\<close>)

lemma origin_inv_step:
  assumes "routed_inv s" and "origin_inv s" and "rpc_step s s'" and "waiting_inv s"
  shows "origin_inv s'"
  using assms(3)
proof (cases rule: rpc_step.cases)
  case (reply_received n i r out c)
  then show ?thesis using assms(1,2)
    by (auto simp: origin_inv_def call_origin_def answered_by_def rpc_deliver_def routed_inv_def split: if_splits) metis+
next
  case (stream_ended n out c)
  then show ?thesis using assms(2)
    by (auto simp: origin_inv_def call_origin_def answered_by_def failAllPending_def)
next
  case (call_receives i k r rs)
  have "call_origin (received s) (sends s) i k" using assms(2) call_receives(2) by (simp add: origin_inv_def)
  then have "call_origin (received s) (sends s) i (k\<lparr>callWaiter := rs, callState := Leaving (call_result r)\<rparr>)"
    using call_receives(4) channelClosed_fails by (auto simp: call_origin_def answered_by_def)
  then show ?thesis using call_receives(1) assms(2) by (simp add: origin_inv_def)
next
  case (call_registered i ch q c)
  have "i \<notin> set (keys (sends s))" using assms(4) call_registered(2) by (auto simp: waiting_def)
  then have "(i, r) \<notin> set (sends s)" for r by force
  then show ?thesis using call_registered assms(2) by (auto simp: origin_inv_def call_origin_def)
next
  case (call_refused i err c)
  have "i \<notin> set (keys (sends s))" using assms(4) call_refused(2) by (auto simp: waiting_def)
  then have "(i, r) \<notin> set (sends s)" for r by force
  then show ?thesis using call_refused assms(2) by (auto simp: origin_inv_def call_origin_def)
qed (use assms(2) in \<open>auto simp: origin_inv_def call_origin_def answered_by_def\<close>)

lemma rpc_inv_start: "rpc_inv rpc_start"
  by (auto simp: rpc_inv_def rpc_start_def link_inv_def waiting_def routed_inv_def origin_inv_def serving_def supervise_def
      rpc_connect_def sup_inv_def closers_ok_def)

lemma rpc_reach_inv: "rpc_reach s \<Longrightarrow> rpc_inv s"
proof (induction rule: rpc_reach.induct)
  case (rpc_next s s')
  then show ?case using link_inv_step waiting_inv_step routed_inv_step origin_inv_step by (auto simp: rpc_inv_def)
qed (rule rpc_inv_start)

section \<open>No call is stranded\<close>

text \<open>
  C9: no call is stranded. In every interleaving of calls, replies, dropped sessions, re-attachments
  and \<^verbatim>\<open>Close\<close>, a call that waits with an empty channel is registered with the session the supervisor is
  reading, on the channel and the reply queue it named, or its reply is being sent; sending a reply
  never blocks the reader; a call that returns a response returns that of a reply which arrived under
  its own correlation id on the queue it named; and after a \<^verbatim>\<open>Close\<close> has returned, every connection ever
  dialled is closed or about to be closed by the supervisor.
\<close>

theorem rpc_calls_never_stranded:
  assumes "rpc_reach s" and "calls s i = Some k"
  shows "(callState k = Awaiting \<and> callWaiter k = [] \<longrightarrow> i \<in> set (keys (sends s)) \<or>
      i \<in> set (pending (the_client s)) \<and> phase (sup s) = Consuming (callReplyQ k) \<and> \<not> streamEnded s \<and> callCh k = callReplyQ k) \<and>
    (i \<in> set (keys (sends s)) \<longrightarrow> callWaiter k = []) \<and>
    (\<forall>v. callState k = Returned (Inr v) \<longrightarrow> (\<exists>r. (callReplyQ k, i, r) \<in> set (received s) \<and> call_result r = Inr v)) \<and>
    (\<forall>t n. closers (sup s) t = Some ClosedAll \<and> n < dialled (sup s) \<longrightarrow>
       n \<in> set (closedConns (sup s)) \<or> phase (sup s) \<in> {Releasing n, Holding n, Refusing n})"
proof -
  have inv: "link_inv s" "waiting_inv s" "routed_inv s" "origin_inv s"
    using rpc_reach_inv [OF assms(1)] by (simp_all add: rpc_inv_def)
  have "phase (sup s) = Consuming (callReplyQ k) \<and> \<not> streamEnded s \<and> callCh k = callReplyQ k" if "i \<in> set (pending (the_client s))"
    using link_alive [OF inv(1)] inv(3) assms(2) that by (fastforce simp: serving_def routed_inv_def)
  moreover have "callWaiter k = []" if "i \<in> set (keys (sends s))" using inv(2) that assms(2) by (auto simp: waiting_def)
  moreover have "i \<in> set (keys (sends s)) \<or> i \<in> set (pending (the_client s))" if "callState k = Awaiting" "callWaiter k = []"
    using inv(2) that assms(2) by (auto simp: waiting_def)
  moreover have "\<exists>r. (callReplyQ k, i, r) \<in> set (received s) \<and> call_result r = Inr v" if "callState k = Returned (Inr v)" for v
    using inv(4) that assms(2) by (auto simp: origin_inv_def call_origin_def)
  moreover have "n \<in> set (closedConns (sup s)) \<or> phase (sup s) \<in> {Releasing n, Holding n, Refusing n}"
    if "closers (sup s) t = Some ClosedAll" "n < dialled (sup s)" for t n
    using rpc.closed_all_sessions [OF _ that] inv(1) by (simp add: link_inv_def)
  ultimately show ?thesis by blast
qed

text \<open>One call is answered and returns; a second one has been published and waits.\<close>

definition sample_call :: "nestReply list \<Rightarrow> call_state \<Rightarrow> call" where
  "sample_call w st = \<lparr>callCh = 0, callReplyQ = 0, callWaiter = w, callState = st\<rparr>"

definition sample_reply :: nestReply where
  "sample_reply = \<lparr>replyResponse = [123, 125], replyErr = []\<rparr>"

definition sample_registered :: "call_id list \<Rightarrow> rpc_sys \<Rightarrow> rpc_sys" where
  "sample_registered ps s = set_client ((the_client s)\<lparr>pending := ps\<rparr>) s"

definition sample_rpc :: rpc_sys where
  "sample_rpc = \<lparr>sup = supervise (rpc_connect\<lparr>pending := [1]\<rparr>),
     calls = [0 \<mapsto> sample_call [] (Returned (Inr (Some [123, 125]))), 1 \<mapsto> sample_call [] Awaiting],
     sends = [], streamEnded = False, received = [(0, 0, sample_reply)]\<rparr>"

lemma sample_rpc_reach: "rpc_reach sample_rpc"
proof -
  note defs = sample_registered_def sample_call_def set_client_def put_call_def rpc_start_def supervise_def rpc_connect_def
  let ?s1 = "put_call 0 (sample_call [] Publishing) (sample_registered [0] rpc_start)"
  let ?s2 = "put_call 0 (sample_call [] Awaiting) ?s1"
  let ?s3 = "put_call 1 (sample_call [] Publishing) (sample_registered [1, 0] ?s2)"
  let ?s4 = "put_call 1 (sample_call [] Awaiting) ?s3"
  let ?s5 = "(sample_registered [1] ?s4)\<lparr>sends := [(0, sample_reply)], received := [(0, 0, sample_reply)]\<rparr>"
  let ?s6 = "(put_call 0 (sample_call [sample_reply] Awaiting) ?s5)\<lparr>sends := []\<rparr>"
  let ?s7 = "put_call 0 (sample_call [] (Leaving (Inr (Some [123, 125])))) ?s6"
  have 1: "rpc_reach ?s1" by (rule rpc_next [OF rpc_new], rule call_registered [where i = 0, THEN back_subst [of "rpc_step _"]]) (auto simp: defs call_register_def)
  have 2: "rpc_reach ?s2" by (rule rpc_next [OF 1], rule call_published [where i = 0, THEN back_subst [of "rpc_step _"]]) (auto simp: defs)
  have 3: "rpc_reach ?s3" by (rule rpc_next [OF 2], rule call_registered [where i = 1, THEN back_subst [of "rpc_step _"]]) (auto simp: defs call_register_def)
  have 4: "rpc_reach ?s4" by (rule rpc_next [OF 3], rule call_published [where i = 1, THEN back_subst [of "rpc_step _"]]) (auto simp: defs)
  have 5: "rpc_reach ?s5" by (rule rpc_next [OF 4], rule reply_received [where i = 0, THEN back_subst [of "rpc_step _"]]) (auto simp: defs rpc_deliver_def call_forget_def)
  have 6: "rpc_reach ?s6" by (rule rpc_next [OF 5], rule reply_sent [THEN back_subst [of "rpc_step _"]]) (auto simp: defs)
  have 7: "rpc_reach ?s7"
    by (rule rpc_next [OF 6], rule call_receives [where i = 0, THEN back_subst [of "rpc_step _"]]) (auto simp: defs call_result_def sample_reply_def json_null_def)
  show ?thesis by (rule rpc_next [OF 7], rule call_left [where i = 0, THEN back_subst [of "rpc_step _"]]) (auto simp: defs sample_rpc_def call_forget_def)
qed

theorem rpc_calls_never_stranded_witness:
  "1 \<in> set (pending (the_client sample_rpc)) \<and> phase (sup sample_rpc) = Consuming 0 \<and>
   (\<exists>r. (0, 0, r) \<in> set (received sample_rpc) \<and> call_result r = Inr (Some [123, 125]))"
  using rpc_calls_never_stranded [OF sample_rpc_reach, of 1 "sample_call [] Awaiting"]
    rpc_calls_never_stranded [OF sample_rpc_reach, of 0 "sample_call [] (Returned (Inr (Some [123, 125])))"]
  by (auto simp: sample_rpc_def sample_call_def)

end
