(* ===== verification/WsConn.thy ===== *)
theory WsConn
  imports Control "HOL-Library.Sublist"
begin

text \<open>
  \<^verbatim>\<open>internal/adapter/inbound/ws/conn.go\<close> (and the close mapping of \<^verbatim>\<open>handler.go\<close>): the WebSocket side of a
  connection. The outbound channel is a bounded list; every operation that runs under the \<^verbatim>\<open>admit\<close>
  lock is one step. \<^verbatim>\<open>closed\<close> is read outside the lock order, so \<open>offer_obs\<close> takes the value that
  was observed, which may be stale in one direction only.
\<close>

section \<open>State and operations\<close>

datatype outgoing = Frame frame | End SessionEnd

record wsConn =
  send_q :: "outgoing list"
  capacity :: nat
  ending :: bool
  closed :: bool
  space :: bool
  writing :: bool
  written :: "frame list"
  closed_with :: "SessionEnd option"

definition newWSConn :: "int \<Rightarrow> wsConn" where
  "newWSConn buffer = \<lparr>send_q = [], capacity = (if buffer \<le> 0 then 64 else nat buffer), ending = False,
     closed = False, space = False, writing = True, written = [], closed_with = None\<rparr>"

datatype admission = admitted | refusedTerminal | refusedFull

definition enqueue_item :: "outgoing \<Rightarrow> wsConn \<Rightarrow> admission \<times> wsConn" where
  "enqueue_item item c =
     (if length (send_q c) < capacity c then (admitted, c\<lparr>send_q := send_q c @ [item]\<rparr>)
      else (refusedFull, c))"

definition offer_obs :: "bool \<Rightarrow> outgoing \<Rightarrow> wsConn \<Rightarrow> admission \<times> wsConn" where
  "offer_obs seen_closed item c =
     (if ending c \<or> seen_closed then (refusedTerminal, c) else enqueue_item item c)"

definition offer :: "outgoing \<Rightarrow> wsConn \<Rightarrow> admission \<times> wsConn" where
  "offer item c = offer_obs (closed c) item c"

definition admitEnd_obs :: "bool \<Rightarrow> SessionEnd \<Rightarrow> wsConn \<Rightarrow> admission \<times> wsConn" where
  "admitEnd_obs seen_closed e c =
     (if ending c \<or> seen_closed then (refusedTerminal, c)
      else enqueue_item (End e) (c\<lparr>ending := True\<rparr>))"

definition ws_close :: "wsConn \<Rightarrow> wsConn" where
  "ws_close c = c\<lparr>closed := True\<rparr>"

definition ws_send_obs :: "bool \<Rightarrow> frame \<Rightarrow> wsConn \<Rightarrow> bool \<times> wsConn" where
  "ws_send_obs seen f c =
     (case offer_obs seen (Frame f) c of
        (admitted, c') \<Rightarrow> (True, c')
      | (refusedFull, c') \<Rightarrow> (False, ws_close c')
      | (refusedTerminal, c') \<Rightarrow> (False, c'))"

definition ws_send :: "frame \<Rightarrow> wsConn \<Rightarrow> bool \<times> wsConn" where
  "ws_send f c = ws_send_obs (closed c) f c"

definition closeAfterDrain_obs :: "bool \<Rightarrow> SessionEnd \<Rightarrow> wsConn \<Rightarrow> wsConn" where
  "closeAfterDrain_obs seen e c =
     (case admitEnd_obs seen e c of
        (refusedFull, c') \<Rightarrow> ws_close c'
      | (_, c') \<Rightarrow> c')"

definition closeAfterDrain :: "SessionEnd \<Rightarrow> wsConn \<Rightarrow> wsConn" where
  "closeAfterDrain e c = closeAfterDrain_obs (closed c) e c"

text \<open>
  One round of \<^verbatim>\<open>sendInitial\<close>: \<open>Some ok\<close> when the loop returns, \<open>None\<close> when it parks for space. A parked
  round ends by the space token, by \<^verbatim>\<open>closed\<close>, or by the handshake timeout, which closes.
\<close>

definition sendInitial_round :: "bool \<Rightarrow> frame \<Rightarrow> wsConn \<Rightarrow> bool option \<times> wsConn" where
  "sendInitial_round seen f c =
     (case offer_obs seen (Frame f) c of
        (admitted, c') \<Rightarrow> (Some True, c')
      | (refusedTerminal, c') \<Rightarrow> (Some False, c')
      | (refusedFull, c') \<Rightarrow> (None, c'))"

datatype wake = SpaceFreed | ConnClosed | HandshakeTimeout

definition sendInitial_wake :: "wake \<Rightarrow> wsConn \<Rightarrow> bool option \<times> wsConn" where
  "sendInitial_wake w c =
     (case w of
        SpaceFreed \<Rightarrow> (None, c\<lparr>space := False\<rparr>)
      | ConnClosed \<Rightarrow> (Some False, c)
      | HandshakeTimeout \<Rightarrow> (Some False, ws_close c))"

definition releaseSpace :: "wsConn \<Rightarrow> wsConn" where
  "releaseSpace c = c\<lparr>space := True\<rparr>"

definition closeWith :: "SessionEnd \<Rightarrow> wsConn \<Rightarrow> wsConn" where
  "closeWith e c = c\<lparr>closed_with := Some e, closed := True\<rparr>"

text \<open>One turn of the writer goroutine's loop on a queued item; \<open>write_ok\<close> is the socket's answer.\<close>

definition writer_take :: "bool \<Rightarrow> wsConn \<Rightarrow> wsConn" where
  "writer_take write_ok c =
     (case send_q c of
        [] \<Rightarrow> c
      | End e # rest \<Rightarrow> (closeWith e (releaseSpace (c\<lparr>send_q := rest\<rparr>)))\<lparr>writing := False\<rparr>
      | Frame f # rest \<Rightarrow>
          (let c1 = releaseSpace (c\<lparr>send_q := rest\<rparr>)
           in if write_ok then c1\<lparr>written := written c1 @ [f]\<rparr>
              else (ws_close c1)\<lparr>writing := False\<rparr>))"

datatype status = StatusGoingAway | StatusTryAgainLater | StatusPolicyViolation | StatusInternalError

definition closeStatusFor :: "SessionEnd \<Rightarrow> status \<times> string" where
  "closeStatusFor e =
     (if endCode e = code_literal CodeServerShutdown then (StatusGoingAway, endCode e)
      else if endCode e \<in> {code_literal CodeUpdateRateExceeded, code_literal CodeUpdateNotAccepted}
      then (StatusTryAgainLater, endCode e)
      else if endCode e \<in> {code_literal CodeDocumentSizeLimitExceeded, code_literal CodeDocumentDeleted,
          code_literal CodeEditsNotSaved, code_literal CodeContentRefused, code_literal CodeForbidden}
      then (StatusPolicyViolation, endCode e)
      else if endDisposition e = DispositionTransient then (StatusGoingAway, endCode e)
      else (StatusPolicyViolation, endCode e))"

section \<open>The connection as concurrent steps\<close>

text \<open>\<open>accepted\<close> is a ghost: every item an operation reported as queued, in order.\<close>

record ws_sys = wsConn +
  accepted :: "outgoing list"

definition ws_init :: "int \<Rightarrow> ws_sys" where
  "ws_init b = wsConn.extend (newWSConn b) \<lparr>accepted = []\<rparr>"

definition lift_op :: "ws_sys \<Rightarrow> wsConn \<Rightarrow> outgoing list \<Rightarrow> ws_sys" where
  "lift_op s c items = wsConn.extend c \<lparr>accepted = accepted s @ items\<rparr>"

abbreviation base :: "ws_sys \<Rightarrow> wsConn" where
  "base s \<equiv> wsConn.truncate s"

inductive ws_step :: "ws_sys \<Rightarrow> ws_sys \<Rightarrow> bool" where
  step_send: "(seen \<longrightarrow> closed s) \<Longrightarrow> ws_send_obs seen f (base s) = (ok, c) \<Longrightarrow>
     ws_step s (lift_op s c (if ok then [Frame f] else []))"
| step_initial: "(seen \<longrightarrow> closed s) \<Longrightarrow> sendInitial_round seen f (base s) = (r, c) \<Longrightarrow>
     ws_step s (lift_op s c (if r = Some True then [Frame f] else []))"
| step_wake: "(w = SpaceFreed \<longrightarrow> space s) \<Longrightarrow> (w = ConnClosed \<longrightarrow> closed s) \<Longrightarrow>
     sendInitial_wake w (base s) = (r, c) \<Longrightarrow> ws_step s (lift_op s c [])"
| step_end: "(seen \<longrightarrow> closed s) \<Longrightarrow> closeAfterDrain_obs seen e (base s) = c \<Longrightarrow>
     ws_step s (lift_op s c (if length (send_q s) < length (send_q c) then [End e] else []))"
| step_close: "ws_step s (lift_op s (ws_close (base s)) [])"
| step_write: "writing s \<Longrightarrow> send_q s \<noteq> [] \<Longrightarrow> ws_step s (lift_op s (writer_take ok (base s)) [])"
| step_stop: "writing s \<Longrightarrow> closed s \<Longrightarrow> ws_step s (s\<lparr>writing := False\<rparr>)"

inductive ws_reachable :: "int \<Rightarrow> ws_sys \<Rightarrow> bool" for b where
  ws_start: "ws_reachable b (ws_init b)"
| ws_next: "ws_reachable b s \<Longrightarrow> ws_step s s' \<Longrightarrow> ws_reachable b s'"

section \<open>The queue invariant\<close>

definition is_frame :: "outgoing \<Rightarrow> bool" where
  "is_frame x \<longleftrightarrow> (\<exists>f. x = Frame f)"

lemma is_frame_simps [simp]: "is_frame (Frame f)" "\<not> is_frame (End e)"
  by (simp_all add: is_frame_def)

text \<open>
  While the writer runs, what was accepted is what was written followed by what is queued; an end
  intent is only ever the last thing accepted, and nothing is accepted after the boundary closed.
\<close>

definition ws_inv :: "ws_sys \<Rightarrow> bool" where
  "ws_inv s \<longleftrightarrow>
     (writing s \<longrightarrow> accepted s = map Frame (written s) @ send_q s) \<and>
     prefix (map Frame (written s)) (accepted s) \<and>
     list_all is_frame (butlast (accepted s)) \<and>
     (\<not> ending s \<longrightarrow> list_all is_frame (accepted s)) \<and>
     (\<forall>e. closed_with s = Some e \<longrightarrow>
        \<not> writing s \<and> ending s \<and> accepted s = map Frame (written s) @ [End e]) \<and>
     length (send_q s) \<le> capacity s"

lemmas ws_defs = lift_op_def wsConn.defs ws_close_def releaseSpace_def closeWith_def

lemma ws_inv_init: "ws_inv (ws_init b)"
  by (simp add: ws_inv_def ws_init_def newWSConn_def wsConn.defs)

lemma list_all_frames [simp]: "list_all is_frame (map Frame xs)"
  by (simp add: list_all_iff)

lemma butlast_frames: "list_all is_frame xs \<Longrightarrow> list_all is_frame (butlast xs)"
  by (auto simp: list_all_iff dest: in_set_butlastD)

lemma ws_inv_accept:
  assumes "ws_inv s" "\<not> ending s" "length (send_q s) < capacity s" "is_frame item \<or> en"
  shows "ws_inv (s\<lparr>send_q := send_q s @ [item], ending := en, accepted := accepted s @ [item]\<rparr>)"
  using assms by (auto simp: ws_inv_def butlast_frames)

lemma ws_inv_irrelevant [simp]:
  "ws_inv (s\<lparr>closed := b\<rparr>) = ws_inv s"
  "ws_inv (s\<lparr>space := b\<rparr>) = ws_inv s"
  by (simp_all add: ws_inv_def)

lemma ws_inv_stop: "ws_inv s \<Longrightarrow> ws_inv (s\<lparr>writing := False\<rparr>)"
  by (simp add: ws_inv_def)

lemma ws_inv_ending: "ws_inv s \<Longrightarrow> ws_inv (s\<lparr>ending := True\<rparr>)"
  by (auto simp: ws_inv_def)

section \<open>Every step keeps it\<close>

lemmas op_defs = ws_send_obs_def sendInitial_round_def sendInitial_wake_def closeAfterDrain_obs_def
  offer_obs_def admitEnd_obs_def enqueue_item_def

lemma lift_send:
  assumes "ws_send_obs seen f (base s) = (ok, c)"
  shows "ok \<longleftrightarrow> \<not> ending s \<and> \<not> seen \<and> length (send_q s) < capacity s"
    and "ok \<Longrightarrow> lift_op s c [Frame f] = s\<lparr>send_q := send_q s @ [Frame f], accepted := accepted s @ [Frame f]\<rparr>"
    and "\<not> ok \<Longrightarrow> lift_op s c [] = s \<or> lift_op s c [] = s\<lparr>closed := True\<rparr>"
  using assms by (cases s; auto simp: op_defs ws_defs split: if_splits)+

lemma lift_initial:
  assumes "sendInitial_round seen f (base s) = (r, c)"
  shows "r = Some True \<longleftrightarrow> \<not> ending s \<and> \<not> seen \<and> length (send_q s) < capacity s"
    and "r = Some True \<Longrightarrow> lift_op s c [Frame f] = s\<lparr>send_q := send_q s @ [Frame f], accepted := accepted s @ [Frame f]\<rparr>"
    and "r \<noteq> Some True \<Longrightarrow> lift_op s c [] = s"
  using assms by (cases s; auto simp: op_defs ws_defs split: if_splits)+

lemma lift_end:
  assumes "closeAfterDrain_obs seen e (base s) = c"
  shows "lift_op s c (if length (send_q s) < length (send_q c) then [End e] else []) =
     (if ending s \<or> seen then s
      else if length (send_q s) < capacity s
           then s\<lparr>send_q := send_q s @ [End e], ending := True, accepted := accepted s @ [End e]\<rparr>
           else s\<lparr>ending := True, closed := True\<rparr>)"
  unfolding assms [symmetric]
  by (cases s; cases "ending s \<or> seen"; cases "length (send_q s) < capacity s")
    (auto simp: op_defs ws_defs)

lemma lift_close: "lift_op s (ws_close (base s)) [] = s\<lparr>closed := True\<rparr>"
  by (cases s) (simp add: ws_defs)

lemma lift_id: "lift_op s (base s) [] = s"
  by (cases s) (simp add: ws_defs)

lemma lift_space: "lift_op s ((base s)\<lparr>space := False\<rparr>) [] = s\<lparr>space := False\<rparr>"
  by (cases s) (simp add: ws_defs)

lemma lift_wake:
  assumes "sendInitial_wake w (base s) = (r, c)"
  shows "lift_op s c [] = s \<or> lift_op s c [] = s\<lparr>space := False\<rparr> \<or> lift_op s c [] = s\<lparr>closed := True\<rparr>"
proof (cases w)
  case SpaceFreed
  with assms have "c = (base s)\<lparr>space := False\<rparr>" by (simp add: sendInitial_wake_def)
  then show ?thesis by (simp only: lift_space) simp
next
  case ConnClosed
  with assms have "c = base s" by (simp add: sendInitial_wake_def)
  then show ?thesis by (simp only: lift_id) simp
next
  case HandshakeTimeout
  with assms have "c = ws_close (base s)" by (simp add: sendInitial_wake_def)
  then show ?thesis by (simp only: lift_close) simp
qed

lemma lift_write:
  assumes "send_q s = x # rest"
  shows "lift_op s (writer_take ok (base s)) [] =
     (case x of
        End e \<Rightarrow> s\<lparr>send_q := rest, space := True, closed_with := Some e, closed := True, writing := False\<rparr>
      | Frame f \<Rightarrow> if ok then s\<lparr>send_q := rest, space := True, written := written s @ [f]\<rparr>
                   else s\<lparr>send_q := rest, space := True, closed := True, writing := False\<rparr>)"
  using assms by (cases s; cases x) (auto simp: writer_take_def ws_defs Let_def)

lemma ws_inv_accept_frame:
  "ws_inv s \<Longrightarrow> \<not> ending s \<Longrightarrow> length (send_q s) < capacity s \<Longrightarrow>
     ws_inv (s\<lparr>send_q := send_q s @ [Frame f], accepted := accepted s @ [Frame f]\<rparr>)"
  using ws_inv_accept [of s "Frame f" False] by (cases s) simp

lemma ws_inv_write:
  assumes inv: "ws_inv s" and w: "writing s" and q: "send_q s = x # rest"
  shows "ws_inv (lift_op s (writer_take ok (base s)) [])"
proof -
  have acc: "accepted s = map Frame (written s) @ x # rest" using inv w q by (simp add: ws_inv_def)
  show ?thesis
  proof (cases x)
    case (Frame f)
    with acc inv q w show ?thesis
      by (auto simp: lift_write [OF q] ws_inv_def)
  next
    case (End e)
    have "rest = []"
    proof (rule ccontr)
      assume "rest \<noteq> []"
      then have "x \<in> set (butlast (accepted s))" by (simp add: acc butlast_append)
      with inv End show False by (auto simp: ws_inv_def list_all_iff)
    qed
    moreover have "ending s"
      using inv End by (auto simp: ws_inv_def acc list_all_iff)
    ultimately show ?thesis
      using End acc inv q by (auto simp: lift_write [OF q] ws_inv_def)
  qed
qed

lemma ws_step_inv: "ws_step s s' \<Longrightarrow> ws_inv s \<Longrightarrow> ws_inv s'"
proof (induction rule: ws_step.induct)
  case (step_send seen s f ok c)
  then show ?case
    using lift_send [OF step_send(2)] by (cases ok) (auto simp: ws_inv_accept_frame)
next
  case (step_initial seen s f r c)
  then show ?case
    using lift_initial [OF step_initial(2)] by (cases "r = Some True") (auto simp: ws_inv_accept_frame)
next
  case (step_wake w s r c)
  then show ?case using lift_wake [OF step_wake(3)] by auto
next
  case (step_end seen s e c)
  then show ?case
    by (simp add: lift_end [OF step_end(2)] ws_inv_accept ws_inv_ending)
next
  case (step_close s)
  then show ?case by (simp add: lift_close)
next
  case (step_write s ok)
  then show ?case by (cases "send_q s") (auto intro: ws_inv_write)
next
  case (step_stop s)
  then show ?case by (simp add: ws_inv_stop)
qed

lemma ws_reachable_inv: "ws_reachable b s \<Longrightarrow> ws_inv s"
  by (induction rule: ws_reachable.induct) (auto intro: ws_inv_init ws_step_inv)

section \<open>The port the room sees\<close>

text \<open>
  \<^verbatim>\<open>service.Conn\<close> as an interface: what a send that reports success has done, and that an admitted
  close makes every later send fail. The client lemmas are about sequences of port calls.
\<close>

datatype port_call = CallSend frame | CallEnd SessionEnd

locale conn_port =
  fixes send :: "frame \<Rightarrow> 'c \<Rightarrow> bool \<times> 'c"
    and close_after_drain :: "SessionEnd \<Rightarrow> 'c \<Rightarrow> 'c"
    and queued :: "'c \<Rightarrow> outgoing list"
    and ended :: "'c \<Rightarrow> bool"
  assumes send_ok: "send f c = (True, c') \<Longrightarrow> \<not> ended c \<and> queued c' = queued c @ [Frame f] \<and> \<not> ended c'"
    and send_fail: "send f c = (False, c') \<Longrightarrow> ended c' \<and> queued c' = queued c"
    and end_ends: "ended (close_after_drain e c)"
    and end_queued: "\<not> ended c \<Longrightarrow> queued (close_after_drain e c) \<in> {queued c, queued c @ [End e]}"
    and end_ended: "ended c \<Longrightarrow> queued (close_after_drain e c) = queued c"
begin

primrec call :: "port_call \<Rightarrow> 'c \<Rightarrow> 'c" where
  "call (CallSend f) c = snd (send f c)"
| "call (CallEnd e) c = close_after_drain e c"

lemma ended_send: "ended c \<Longrightarrow> \<not> fst (send f c) \<and> queued (snd (send f c)) = queued c \<and> ended (snd (send f c))"
  using send_ok [of f c] send_fail [of f c] by (cases "send f c"; cases "fst (send f c)") auto

lemma ended_call: "ended c \<Longrightarrow> ended (call x c) \<and> queued (call x c) = queued c"
  by (cases x) (auto simp: ended_send end_ends end_ended)

lemma ended_calls: "ended c \<Longrightarrow> ended (fold call xs c) \<and> queued (fold call xs c) = queued c"
  by (induction xs arbitrary: c) (auto simp: ended_call)

lemma queued_grows: "prefix (queued c) (queued (call x c))"
proof (cases x)
  case (CallSend f)
  then show ?thesis
    using send_ok [of f c] send_fail [of f c] by (cases "send f c"; cases "fst (send f c)") auto
next
  case (CallEnd e)
  then show ?thesis
    using end_queued [of c e] end_ended [of c e] by (cases "ended c") auto
qed

text \<open>
  Announce and close: whenever the close intent made it onto the queue, the control frame that
  says why is queued immediately ahead of it, and nothing any later call does changes the queue.
\<close>

lemma announce_then_end:
  assumes "End e \<notin> set (queued c)"
    and "End e \<in> set (queued (fold call (CallSend f # CallEnd e # xs) c))"
  shows "queued (fold call (CallSend f # CallEnd e # xs) c) = queued c @ [Frame f, End e]"
proof -
  let ?c1 = "snd (send f c)" and ?c2 = "close_after_drain e (snd (send f c))"
  have final: "queued (fold call (CallSend f # CallEnd e # xs) c) = queued ?c2"
    using ended_calls [OF end_ends [of e ?c1], of xs] by simp
  have "fst (send f c)"
  proof (rule ccontr)
    assume "\<not> fst (send f c)"
    then have "ended ?c1 \<and> queued ?c1 = queued c"
      using send_fail [of f c "snd (send f c)"] by (cases "send f c") auto
    with assms final end_ended [of ?c1 e] show False by simp
  qed
  then have "queued ?c1 = queued c @ [Frame f]" "\<not> ended ?c1"
    using send_ok [of f c "snd (send f c)"] by (cases "send f c"; simp)+
  with assms final end_queued [of ?c1 e] show ?thesis by auto
qed

end

definition ws_ended :: "wsConn \<Rightarrow> bool" where
  "ws_ended c \<longleftrightarrow> ending c \<or> closed c"

lemmas port_defs = ws_send_def closeAfterDrain_def op_defs ws_ended_def ws_close_def

interpretation ws: conn_port ws_send closeAfterDrain send_q ws_ended
  by unfold_locales (auto simp: port_defs split: if_splits prod.splits admission.splits)

primrec ws_call :: "port_call \<Rightarrow> wsConn \<Rightarrow> wsConn" where
  "ws_call (CallSend f) c = snd (ws_send f c)"
| "ws_call (CallEnd e) c = closeAfterDrain e c"

lemma ws_call_eq: "ws.call = ws_call"
proof (intro ext)
  show "ws.call x c = ws_call x c" for x c by (cases x) simp_all
qed

section \<open>Properties\<close>

text \<open>
  C20: what a peer sees before its connection is closed with a session end. In every interleaving of
  senders, closers, the initial-state writer and the write loop: when the socket was closed with
  end \<open>e\<close>, every frame that any sender was told had been queued was written to the socket first, in
  the order it was queued, and the intent for \<open>e\<close> is the last thing that was ever queued. Before
  that, the written frames are always a prefix of the queued ones.
\<close>

theorem close_after_everything_queued:
  assumes "ws_reachable b s"
  shows "(closed_with s = Some e \<longrightarrow> accepted s = map Frame (written s) @ [End e] \<and> \<not> writing s) \<and>
    prefix (map Frame (written s)) (accepted s) \<and>
    list_all is_frame (butlast (accepted s)) \<and>
    length (send_q s) \<le> capacity s"
  using ws_reachable_inv [OF assms] by (auto simp: ws_inv_def)

definition close_example :: ws_sys where
  "close_example = lift_op (lift_op (lift_op (lift_op (ws_init 2)
        (snd (ws_send_obs False (FRaw [1]) (base (ws_init 2)))) [Frame (FRaw [1])])
        ((newWSConn 2)\<lparr>send_q := [Frame (FRaw [1]), End (session_end CodeForbidden)], ending := True\<rparr>)
        [End (session_end CodeForbidden)])
        ((newWSConn 2)\<lparr>send_q := [End (session_end CodeForbidden)], ending := True, space := True, written := [FRaw [1]]\<rparr>) [])
        ((newWSConn 2)\<lparr>ending := True, space := True, written := [FRaw [1]], closed := True, writing := False,
           closed_with := Some (session_end CodeForbidden)\<rparr>) []"

lemma close_example_reachable: "ws_reachable 2 close_example"
proof -
  note defs = ws_init_def newWSConn_def op_defs ws_defs writer_take_def
  let ?f = "FRaw [1]" and ?e = "session_end CodeForbidden"
  let ?s1 = "lift_op (ws_init 2) (snd (ws_send_obs False ?f (base (ws_init 2)))) [Frame ?f]"
  have "ws_reachable 2 ?s1"
    using ws_next [OF ws_start step_send [of False "ws_init 2" ?f True]] by (simp add: defs)
  then have "ws_reachable 2 (lift_op ?s1 ((newWSConn 2)\<lparr>send_q := [Frame ?f, End ?e], ending := True\<rparr>) [End ?e])"
    (is "ws_reachable 2 ?s2") using ws_next [OF _ step_end [of False ?s1 ?e, OF _ refl]] by (simp add: defs)
  then have "ws_reachable 2 (lift_op ?s2
      ((newWSConn 2)\<lparr>send_q := [End ?e], ending := True, space := True, written := [?f]\<rparr>) [])"
    (is "ws_reachable 2 ?s3") using ws_next [OF _ step_write [of ?s2 True]] by (simp add: defs)
  then show ?thesis
    using ws_next [OF _ step_write [of ?s3 True]] by (simp add: defs close_example_def)
qed

theorem close_after_everything_queued_witness:
  "closed_with close_example = Some (session_end CodeForbidden) \<and>
     accepted close_example = map Frame (written close_example) @ [End (session_end CodeForbidden)] \<and>
     written close_example = [FRaw [1]]"
proof -
  have "closed_with close_example = Some (session_end CodeForbidden)" "written close_example = [FRaw [1]]"
    by (simp_all add: close_example_def ws_defs)
  then show ?thesis
    using close_after_everything_queued [OF close_example_reachable] by simp
qed

text \<open>
  The reason reaches the queue ahead of the close. When the room announces a session end with a
  control frame and then asks the connection to close after draining, then whatever calls follow:
  if the close intent was queued at all, the announcement is queued immediately in front of it and
  nothing is queued after it; and every later send is refused.
\<close>

theorem announcement_precedes_close:
  assumes "End e \<notin> set (send_q c)"
  shows "(End e \<in> set (send_q (fold ws_call (CallSend f # CallEnd e # xs) c)) \<longrightarrow>
      send_q (fold ws_call (CallSend f # CallEnd e # xs) c) = send_q c @ [Frame f, End e]) \<and>
    \<not> fst (ws_send g (fold ws_call (CallSend f # CallEnd e # xs) c))"
proof (intro conjI impI)
  let ?c = "fold ws_call (CallSend f # CallEnd e # xs) c"
  show "End e \<in> set (send_q ?c) \<Longrightarrow> send_q ?c = send_q c @ [Frame f, End e]"
    using ws.announce_then_end [OF assms] by (simp only: ws_call_eq)
  have "ws_ended (fold ws_call xs (closeAfterDrain e (ws_call (CallSend f) c)))"
    using ws.ended_calls [OF ws.end_ends] unfolding ws_call_eq by blast
  then show "\<not> fst (ws_send g ?c)" using ws.ended_send by auto
qed

theorem announcement_precedes_close_witness:
  "send_q (fold ws_call [CallSend (FRaw [7]), CallEnd (session_end CodeForbidden), CallSend (FRaw [8])] (newWSConn 4))
     = [Frame (FRaw [7]), End (session_end CodeForbidden)]"
  using announcement_precedes_close [of "session_end CodeForbidden" "newWSConn 4" "FRaw [7]" "[CallSend (FRaw [8])]"]
  by (simp add: newWSConn_def port_defs)

text \<open>
  How a session end is presented. Every declared code has its row in the table, so
  \<^verbatim>\<open>NewSessionEnd\<close> does not panic; the document-wide ends are exactly deletion, lost edits and
  shutdown; the close status is "going away" exactly for a shutdown, "try again later" exactly for
  the other transient ends, and a policy violation for everything a client must not retry by
  itself; and the close text is the code the control frame carried.
\<close>

theorem session_end_presentation:
  "NewSessionEnd (code_literal c) = Some (session_end c) \<and>
   (endScope (session_end c) = ScopeDocument \<longleftrightarrow> c \<in> {CodeDocumentDeleted, CodeEditsNotSaved, CodeServerShutdown}) \<and>
   (fst (closeStatusFor (session_end c)) = StatusGoingAway \<longleftrightarrow> c = CodeServerShutdown) \<and>
   (fst (closeStatusFor (session_end c)) = StatusTryAgainLater \<longleftrightarrow>
     c \<noteq> CodeServerShutdown \<and> endDisposition (session_end c) = DispositionTransient) \<and>
   (fst (closeStatusFor (session_end c)) = StatusPolicyViolation \<longleftrightarrow>
     endDisposition (session_end c) \<noteq> DispositionTransient) \<and>
   snd (closeStatusFor (session_end c)) = Code (end_control (session_end c))"
  by (cases c; simp add: session_end_total session_end_defs closeStatusFor_def end_control_def)+

end
