(* ===== verification/Access.thy ===== *)
theory Access
  imports Manager WsConn RmqStore
begin

text \<open>
  The way in: handshake authentication (\<^verbatim>\<open>internal/adapter/outbound/auth/header\<close> and \<^verbatim>\<open>open\<close>),
  per-document authorization (\<^verbatim>\<open>internal/adapter/outbound/auth/authzeval\<close>) over the metadata index
  (\<^verbatim>\<open>policyResolver\<close> of \<^verbatim>\<open>internal/app/app.go\<close>), the WebSocket handler
  (\<^verbatim>\<open>internal/adapter/inbound/ws/handler.go\<close>) and the create endpoint
  (\<^verbatim>\<open>internal/adapter/inbound/http/collab_api.go\<close>). Parameters stand for what lies outside: the parser of
  UUIDs, the authorization service behind HTTP, the circuit breaker (whether it lets a request
  through), JSON decoding and the WebSocket library.
\<close>

section \<open>Authentication\<close>

definition IdentityFromActorID :: "(string \<Rightarrow> actor_id option) \<Rightarrow> string \<Rightarrow> identity option" where
  "IdentityFromActorID parse raw = (case parse raw of None \<Rightarrow> None | Some a \<Rightarrow> Some (Some a))"

definition ActorIDString :: "(actor_id \<Rightarrow> string) \<Rightarrow> identity \<Rightarrow> string" where
  "ActorIDString print i = (case i of None \<Rightarrow> '''' | Some a \<Rightarrow> print a)"

definition header_Authenticate :: "(string \<Rightarrow> actor_id option) \<Rightarrow> string \<Rightarrow> identity option" where
  "header_Authenticate parse credential = (if credential = '''' then None else IdentityFromActorID parse credential)"

definition open_Authenticate :: "string \<Rightarrow> identity option" where
  "open_Authenticate credential = Some None"

section \<open>Authorization\<close>

record AuthDecision =
  decAllowed :: bool
  decReason :: string

record evaluateRequest =
  evActorID :: string
  evPrivilege :: string
  evPolicyID :: string

record evaluateResponse =
  erAllowed :: bool
  erReason :: string
  erErrorCode :: "string option"

text \<open>What the authorization service answered: nothing, a body that broke off, or a status and a body.\<close>

datatype http_answer = NoAnswer | BrokenBody nat | Answer nat bytes

datatype auth_error =
    NoResolver | PolicyUnresolved load_error | NoPolicy | BreakerRefused | RequestFailed | ReadFailed
  | ServiceDegraded string | ServiceUnavailable | ServiceError nat | BadAnswer

fun privilege_literal :: "privilege \<Rightarrow> string" where
  "privilege_literal PrivilegeRead = ''read''"
| "privilege_literal PrivilegeUpdateContent = ''update-content''"

definition maxAuthBody :: nat where
  "maxAuthBody = 65536"

definition doEvaluate ::
  "(evaluateRequest \<Rightarrow> http_answer) \<Rightarrow> (bytes \<Rightarrow> evaluateResponse option) \<Rightarrow> evaluateRequest \<Rightarrow> auth_error + AuthDecision" where
  "doEvaluate post decode req =
     (case post req of
        NoAnswer \<Rightarrow> Inl RequestFailed
      | BrokenBody status \<Rightarrow> Inl ReadFailed
      | Answer status full \<Rightarrow>
          (let body = take maxAuthBody full
           in if status = 503
              then (case decode body of
                      Some er \<Rightarrow> (case erErrorCode er of Some code \<Rightarrow> Inl (ServiceDegraded code) | None \<Rightarrow> Inl ServiceUnavailable)
                    | None \<Rightarrow> Inl ServiceUnavailable)
              else if status \<noteq> 200 then Inl (ServiceError status)
              else (case decode body of
                      None \<Rightarrow> Inl BadAnswer
                    | Some er \<Rightarrow> Inr \<lparr>decAllowed = erAllowed er, decReason = erReason er\<rparr>)))"

definition PolicyID :: "(document_id \<Rightarrow> load_error + Metadata) \<Rightarrow> document_id \<Rightarrow> load_error + string" where
  "PolicyID load did = (case load did of Inl err \<Rightarrow> Inl err | Inr meta \<Rightarrow> Inr (metaAuthorizationPolicyID meta))"

text \<open>\<open>admits\<close> is whether the circuit breaker runs the request.\<close>

definition authz_Evaluate ::
  "(document_id \<Rightarrow> load_error + string) option \<Rightarrow> bool \<Rightarrow> (evaluateRequest \<Rightarrow> http_answer) \<Rightarrow> (bytes \<Rightarrow> evaluateResponse option) \<Rightarrow>
     (actor_id \<Rightarrow> string) \<Rightarrow> identity \<Rightarrow> document_id \<Rightarrow> privilege \<Rightarrow> auth_error + AuthDecision" where
  "authz_Evaluate policies admits post decode print ident did priv =
     (case policies of
        None \<Rightarrow> Inl NoResolver
      | Some resolve \<Rightarrow>
          (case resolve did of
             Inl err \<Rightarrow> if err = ErrNotFound then Inr \<lparr>decAllowed = False, decReason = ''''\<rparr> else Inl (PolicyUnresolved err)
           | Inr policy \<Rightarrow>
               if policy = '''' then Inl NoPolicy
               else if \<not> admits then Inl BreakerRefused
               else doEvaluate post decode
                 \<lparr>evActorID = ActorIDString print ident, evPrivilege = privilege_literal priv, evPolicyID = policy\<rparr>))"

definition open_Evaluate :: "identity \<Rightarrow> document_id \<Rightarrow> privilege \<Rightarrow> auth_error + AuthDecision" where
  "open_Evaluate ident did priv = Inr \<lparr>decAllowed = True, decReason = ''open mode''\<rparr>"

text \<open>How the manager reads an evaluation: an error is no answer.\<close>

definition decision :: "auth_error + AuthDecision \<Rightarrow> bool option" where
  "decision r = (case r of Inl _ \<Rightarrow> None | Inr d \<Rightarrow> Some (decAllowed d))"

section \<open>The handshake\<close>

text \<open>The value of an \<^verbatim>\<open>int64\<close> expression: arithmetic wraps.\<close>

definition int64 :: "int \<Rightarrow> int" where
  "int64 n = (n + 2 ^ 63) mod 2 ^ 64 - 2 ^ 63"

definition readHeadroomBytes :: int where
  "readHeadroomBytes = 4194304"

definition ReadLimitFor :: "int \<Rightarrow> int" where
  "ReadLimitFor maxDoc = int64 (maxDoc + readHeadroomBytes)"

definition credential :: "string \<Rightarrow> (string \<Rightarrow> string) \<Rightarrow> string" where
  "credential actorIDHeader header = (if actorIDHeader = '''' then '''' else header actorIDHeader)"

definition contentTypeFromRequest :: "string \<Rightarrow> string option" where
  "contentTypeFromRequest t =
     (if t = '''' \<or> t = ContentTypeMemo then Some ContentTypeMemo
      else if t = ContentTypeWhiteboard then Some ContentTypeWhiteboard
      else None)"

fun joinCloseStatus :: "mgr_error \<Rightarrow> status \<times> string" where
  "joinCloseStatus (RoomRefused ErrRoomFull) = (StatusTryAgainLater, ReasonRoomCapacityReached)"
| "joinCloseStatus ErrForbidden = (StatusPolicyViolation, ''forbidden'')"
| "joinCloseStatus ErrDocumentUnknown = (StatusPolicyViolation, ''forbidden'')"
| "joinCloseStatus ErrShuttingDown = (StatusGoingAway, code_literal CodeServerShutdown)"
| "joinCloseStatus _ = (StatusInternalError, ''join failed'')"

record upgrade_request =
  urDocument :: document_id
  urHeader :: "string \<Rightarrow> string"
  urType :: string

datatype handshake = HttpError nat string | UpgradeFailed | Upgraded document_id string identity "int option"

definition ServeHTTP ::
  "(string \<Rightarrow> identity option) \<Rightarrow> string \<Rightarrow> int \<Rightarrow> bool \<Rightarrow> upgrade_request \<Rightarrow> handshake" where
  "ServeHTTP authenticate actorIDHeader readLimit upgraded r =
     (if urDocument r = '''' then HttpError 400 ''missing document id''
      else case authenticate (credential actorIDHeader (urHeader r)) of
        None \<Rightarrow> HttpError 401 ''unauthorized''
      | Some ident \<Rightarrow>
          (case contentTypeFromRequest (urType r) of
             None \<Rightarrow> HttpError 400 ''type must be one of memo, whiteboard''
           | Some ct \<Rightarrow>
               if \<not> upgraded then UpgradeFailed
               else Upgraded (urDocument r) ct ident (if readLimit > 0 then Some readLimit else None)))"

section \<open>One connection\<close>

text \<open>
  \<^verbatim>\<open>serve\<close> and \<^verbatim>\<open>readLoop\<close> as the calls they make, deferred calls included. \<open>sent\<close> says which initial frames
  \<^verbatim>\<open>sendInitial\<close> accepts; \<open>reads\<close> is what the socket yields until a read fails.
\<close>

datatype ws_read = ReadBinary bytes | ReadText bytes

datatype conn_call =
    CStartWriter | CJoin | CSocketClose status string | CSendInitial frame | CActivate | CForward bytes | CLeave | CCloseConn

fun readLoop :: "ws_read list \<Rightarrow> conn_call list" where
  "readLoop [] = []"
| "readLoop (ReadBinary data # rs) = CForward data # readLoop rs"
| "readLoop (ReadText data # rs) = readLoop rs"

fun sendAll :: "(frame \<Rightarrow> bool) \<Rightarrow> frame list \<Rightarrow> conn_call list \<times> bool" where
  "sendAll sent [] = ([], True)"
| "sendAll sent (f # fs) =
     (if sent f then (case sendAll sent fs of (cs, ok) \<Rightarrow> (CSendInitial f # cs, ok)) else ([CSendInitial f], False))"

definition serve ::
  "mgr_error + frame list \<Rightarrow> (frame \<Rightarrow> bool) \<Rightarrow> bool \<Rightarrow> ws_read list \<Rightarrow> conn_call list" where
  "serve joined sent activated reads =
     [CStartWriter, CJoin] @
     (case joined of
        Inl err \<Rightarrow> [CSocketClose (fst (joinCloseStatus err)) (snd (joinCloseStatus err))]
      | Inr initial \<Rightarrow>
          (case sendAll sent initial of
             (cs, False) \<Rightarrow> cs
           | (cs, True) \<Rightarrow> cs @ [CActivate] @ (if activated then readLoop reads else [])) @ [CLeave]) @
     [CCloseConn]"

section \<open>The create endpoint\<close>

definition resolveContentType :: "string \<Rightarrow> string option" where
  "resolveContentType v =
     (if v = '''' then Some ContentTypeMemo
      else if v = ContentTypeMemo then Some ContentTypeMemo
      else if v = ContentTypeWhiteboard then Some ContentTypeWhiteboard
      else None)"

record CreateDocumentRequest =
  crContentType :: string
  crOwnerRef :: string
  crAuthorizationPolicyID :: string
  crStorageBucketID :: string

datatype create_response = Created document_id string | CreateError nat string

text \<open>\<open>body\<close> is the decoded request body, if it decodes.\<close>

definition Create ::
  "(Metadata \<Rightarrow> 'm \<Rightarrow> load_error option \<times> 'm) \<Rightarrow> bool \<Rightarrow> document_id \<Rightarrow> CreateDocumentRequest option \<Rightarrow> 'm \<Rightarrow> create_response \<times> 'm" where
  "Create save requirePolicy did body m =
     (if did = '''' then (CreateError 400 ''missing document id'', m)
      else case body of
        None \<Rightarrow> (CreateError 400 ''malformed request body'', m)
      | Some req \<Rightarrow>
          (case resolveContentType (crContentType req) of
             None \<Rightarrow> (CreateError 400 ''contentType must be one of memo, whiteboard'', m)
           | Some ct \<Rightarrow>
               if requirePolicy \<and> crAuthorizationPolicyID req = ''''
               then (CreateError 400 ''authorizationPolicyId is required in authzeval mode'', m)
               else (case PreRegister save (emptyMetadata\<lparr>metaID := did, metaContentType := ct, metaOwnerRef := crOwnerRef req,
                        metaAuthorizationPolicyID := crAuthorizationPolicyID req, metaStorageBucketID := crStorageBucketID req,
                        metaMigrated := True\<rparr>) m of
                       (Some _, m') \<Rightarrow> (CreateError 500 ''failed to register document'', m')
                     | (None, m') \<Rightarrow> (Created did ct, m'))))"

end
