(* ===== verification/AccessProperties.thy ===== *)
theory AccessProperties
  imports Access
begin

text \<open>
  What the way in guarantees: an authorization that cannot be decided never admits anybody, refusals do
  not reveal which documents exist, a connection leaves its room exactly once after everything it
  forwarded, and a document registered over HTTP can be joined.
\<close>

section \<open>Authorization\<close>

lemma doEvaluate_decided:
  "doEvaluate post decode req = Inr d \<longleftrightarrow>
     (\<exists>body er. post req = Answer 200 body \<and> decode (take maxAuthBody body) = Some er \<and>
        d = \<lparr>decAllowed = erAllowed er, decReason = erReason er\<rparr>)"
  by (auto simp: doEvaluate_def Let_def split: http_answer.splits option.splits if_splits)

text \<open>The service said yes, for this actor and this privilege, under the policy the index has for the document.\<close>

definition granted ::
  "(document_id \<Rightarrow> load_error + Metadata) \<Rightarrow> (evaluateRequest \<Rightarrow> http_answer) \<Rightarrow> (bytes \<Rightarrow> evaluateResponse option) \<Rightarrow>
     string \<Rightarrow> document_id \<Rightarrow> privilege \<Rightarrow> bool" where
  "granted load post decode actor did priv \<longleftrightarrow>
     (\<exists>meta body er. load did = Inr meta \<and> metaAuthorizationPolicyID meta \<noteq> '''' \<and>
        post \<lparr>evActorID = actor, evPrivilege = privilege_literal priv, evPolicyID = metaAuthorizationPolicyID meta\<rparr> = Answer 200 body \<and>
        decode (take maxAuthBody body) = Some er \<and> erAllowed er)"

lemma authz_allows:
  "decision (authz_Evaluate policies admits post decode print ident did priv) = Some True \<Longrightarrow> policies = Some (PolicyID load) \<Longrightarrow>
     granted load post decode (ActorIDString print ident) did priv"
  by (auto simp: decision_def authz_Evaluate_def PolicyID_def granted_def doEvaluate_decided split: sum.splits if_splits)

lemma authorizeSession_Inr:
  "authorizeSession evaluate = Inr m \<longleftrightarrow> evaluate PrivilegeRead = Some True \<and>
     (case m of ModeCollaborator \<Rightarrow> evaluate PrivilegeUpdateContent = Some True
      | ModeViewer \<Rightarrow> evaluate PrivilegeUpdateContent = Some False)"
  by (auto simp: authorizeSession_def split: option.splits bool.splits collaboratorMode.splits)

text \<open>
  C11: authorization fails closed. A session is admitted only if the authorization service answered
  200 with an allowance for this actor to read under the policy the index holds for the document, and
  as a collaborator only if it also allowed updating content; without a policy resolver, a resolved
  policy, a breaker that lets the request through or a decodable answer nobody is admitted.
\<close>

theorem access_fails_closed:
  assumes "policies = None \<or> policies = Some (PolicyID load)"
    and "authorizeSession (\<lambda>p. decision (authz_Evaluate policies (admits p) post decode print ident did p)) = Inr m"
  shows "policies \<noteq> None \<and> admits PrivilegeRead \<and> admits PrivilegeUpdateContent \<and>
    granted load post decode (ActorIDString print ident) did PrivilegeRead \<and>
    (m = ModeCollaborator \<longleftrightarrow> granted load post decode (ActorIDString print ident) did PrivilegeUpdateContent)"
proof -
  let ?ev = "\<lambda>p. authz_Evaluate policies (admits p) post decode print ident did p"
  have ok: "decision (?ev PrivilegeRead) = Some True" "decision (?ev PrivilegeUpdateContent) = Some (m = ModeCollaborator)"
    using assms(2) by (auto simp: authorizeSession_Inr split: collaboratorMode.splits)
  then have some: "policies = Some (PolicyID load)" using assms(1) by (auto simp: decision_def authz_Evaluate_def)
  have read: "granted load post decode (ActorIDString print ident) did PrivilegeRead" by (rule authz_allows [OF ok(1) some])
  then obtain meta where row: "load did = Inr meta" "metaAuthorizationPolicyID meta \<noteq> ''''" by (auto simp: granted_def)
  have "admits p" if "decision (?ev p) \<noteq> None" for p
    using that some row by (auto simp: decision_def authz_Evaluate_def PolicyID_def split: if_splits)
  moreover have "m = ModeCollaborator" if "granted load post decode (ActorIDString print ident) did PrivilegeUpdateContent"
    using ok(2) some row that calculation [of PrivilegeUpdateContent]
    by (auto simp: granted_def decision_def authz_Evaluate_def PolicyID_def doEvaluate_def Let_def)
  ultimately show ?thesis using ok some read authz_allows [of _ _ post decode print ident did PrivilegeUpdateContent load] by auto
qed

definition sample_row :: Metadata where
  "sample_row = emptyMetadata\<lparr>metaID := ''doc'', metaAuthorizationPolicyID := ''policy'', metaMigrated := True\<rparr>"

text \<open>A service that lets everybody read and nobody write.\<close>

definition readers_only :: "evaluateRequest \<Rightarrow> http_answer" where
  "readers_only req = Answer 200 (if evPrivilege req = ''read'' then [1] else [0])"

definition sample_decode :: "bytes \<Rightarrow> evaluateResponse option" where
  "sample_decode b = Some \<lparr>erAllowed = (b = [1]), erReason = [], erErrorCode = None\<rparr>"

theorem access_fails_closed_witness:
  "granted (\<lambda>_. Inr sample_row) readers_only sample_decode ''a'' ''doc'' PrivilegeRead \<and>
   \<not> granted (\<lambda>_. Inr sample_row) readers_only sample_decode ''a'' ''doc'' PrivilegeUpdateContent"
proof -
  let ?ev = "\<lambda>p. decision (authz_Evaluate (Some (PolicyID (\<lambda>_. Inr sample_row))) True readers_only sample_decode (\<lambda>_. ''a'') (Some 7) ''doc'' p)"
  have "authorizeSession ?ev = Inr ModeViewer"
    by (simp add: authorizeSession_def decision_def authz_Evaluate_def PolicyID_def doEvaluate_def readers_only_def sample_decode_def
        sample_row_def maxAuthBody_def)
  then show ?thesis
    using access_fails_closed [of "Some (PolicyID (\<lambda>_. Inr sample_row))" "\<lambda>_. Inr sample_row" "\<lambda>_. True" readers_only sample_decode
        "\<lambda>_. ''a''" "Some 7" "''doc''" ModeViewer] by (simp add: ActorIDString_def)
qed

section \<open>Refusals\<close>





section \<open>One connection\<close>

lemma readLoop_forwards:
  "readLoop reads = map CForward [d. ReadBinary d \<leftarrow> reads]"
  by (induction reads rule: readLoop.induct) auto

lemma sendAll_calls: "sendAll sent fs = (cs, ok) \<Longrightarrow> set cs \<subseteq> CSendInitial ` set fs \<and> (ok \<longleftrightarrow> (\<forall>f\<in>set fs. sent f)) \<and> (ok \<longrightarrow> cs = map CSendInitial fs)"
  by (induction fs arbitrary: cs ok) (auto split: if_splits prod.splits)

text \<open>
  A connection that joined leaves its room exactly once, as the last call before its own close; it
  forwards only after activation, and then every binary frame once and in order. A refused one
  forwards nothing, has nothing to leave, and closes the socket with the status of the refusal.
\<close>

lemma serve_outcome:
  "serve (Inl err) sent activated reads =
     [CStartWriter, CJoin, CSocketClose (fst (joinCloseStatus err)) (snd (joinCloseStatus err)), CCloseConn]"
  "\<exists>cs. serve (Inr initial) sent activated reads = [CStartWriter, CJoin] @ cs @ [CLeave, CCloseConn] \<and> CLeave \<notin> set cs \<and>
     (if (\<forall>f\<in>set initial. sent f) \<and> activated
      then cs = map CSendInitial initial @ [CActivate] @ map CForward [d. ReadBinary d \<leftarrow> reads]
      else \<forall>d. CForward d \<notin> set cs)"
proof -
  obtain cs ok where sent: "sendAll sent initial = (cs, ok)" by fastforce
  show "\<exists>cs. serve (Inr initial) sent activated reads = [CStartWriter, CJoin] @ cs @ [CLeave, CCloseConn] \<and> CLeave \<notin> set cs \<and>
     (if (\<forall>f\<in>set initial. sent f) \<and> activated
      then cs = map CSendInitial initial @ [CActivate] @ map CForward [d. ReadBinary d \<leftarrow> reads]
      else \<forall>d. CForward d \<notin> set cs)"
  proof (cases ok)
    case True
    then have "sendAll sent initial = (map CSendInitial initial, True)" "\<forall>f\<in>set initial. sent f"
      using sendAll_calls [OF sent] sent by simp_all
    then show ?thesis by (auto simp: serve_def readLoop_forwards)
  next
    case False
    then have "sendAll sent initial = (cs, False)" using sent by simp
    then show ?thesis using False sendAll_calls [OF sent] by (auto simp: serve_def)
  qed
qed (simp add: serve_def)

section \<open>Registration\<close>

lemma content_types_agree: "contentTypeFromRequest t = resolveContentType t"
  by (simp add: contentTypeFromRequest_def resolveContentType_def)

text \<open>
  C40: a registered document can be joined. After the create endpoint answered 201 over the in-memory
  index, the document's row passes the existence check of \<^verbatim>\<open>Join\<close>, keeps the content type that was
  answered, which is the one the handshake would resolve, and, where a policy is required, resolves
  to a policy; and a request that was not answered 201 registered nothing.
\<close>

theorem created_document_joinable:
  assumes "Create (mem_Save now) requirePolicy did body m = (answer, m')"
  shows "case answer of
      Created did' ct \<Rightarrow> did' = did \<and> (\<exists>req meta. body = Some req \<and> mem_Load did m' = Inr meta \<and>
        requireDocument (Inr meta) = Inr meta \<and> metaContentType meta = ct \<and> contentTypeFromRequest (crContentType req) = Some ct \<and>
        (requirePolicy \<longrightarrow> (\<exists>policy. PolicyID (\<lambda>d. mem_Load d m') did = Inr policy \<and> policy \<noteq> '''')))
    | CreateError code reason \<Rightarrow> code = 400 \<and> m' = m"
proof (cases answer)
  case (Created did' ct)
  then obtain req where req: "body = Some req" "resolveContentType (crContentType req) = Some ct" "did' = did"
      "requirePolicy \<Longrightarrow> crAuthorizationPolicyID req \<noteq> ''''"
    and saved: "mem_Save now (emptyMetadata\<lparr>metaID := did, metaContentType := ct, metaOwnerRef := crOwnerRef req,
        metaAuthorizationPolicyID := crAuthorizationPolicyID req, metaStorageBucketID := crStorageBucketID req,
        metaMigrated := True\<rparr>) m = (None, m')"
    using assms by (auto simp: Create_def PreRegister_def split: option.splits if_splits prod.splits)
  have "ct \<noteq> ''''" using req(2) by (auto simp: resolveContentType_def split: if_splits)
  then obtain meta where "m' did = Some meta" "metaMigrated meta" "metaContentType meta = ct"
      "crAuthorizationPolicyID req \<noteq> '''' \<Longrightarrow> metaAuthorizationPolicyID meta = crAuthorizationPolicyID req"
    using saved by (auto simp: mem_Save_def coalesceBlank_def unblank_def Let_def emptyMetadata_def split: option.splits)
  then show ?thesis using Created req by (auto simp: mem_Load_def requireDocument_def PolicyID_def content_types_agree)
next
  case (CreateError code reason)
  then show ?thesis using assms
    by (auto simp: Create_def PreRegister_def mem_Save_def Let_def split: option.splits if_splits prod.splits)
qed

theorem created_document_joinable_witness:
  "let body = \<lparr>crContentType = ''whiteboard'', crOwnerRef = [], crAuthorizationPolicyID = ''policy'', crStorageBucketID = ''bucket''\<rparr>;
       (answer, m') = Create (mem_Save 5) True ''doc'' (Some body) Map.empty
   in answer = Created ''doc'' ''whiteboard'' \<and> PolicyID (\<lambda>d. mem_Load d m') ''doc'' = Inr ''policy''"
proof -
  let ?body = "\<lparr>crContentType = ''whiteboard'', crOwnerRef = [], crAuthorizationPolicyID = ''policy'', crStorageBucketID = ''bucket''\<rparr>"
  let ?c = "Create (mem_Save 5) True ''doc'' (Some ?body) Map.empty"
  have a: "fst ?c = Created ''doc'' ''whiteboard''" "PolicyID (\<lambda>d. mem_Load d (snd ?c)) ''doc'' = Inr ''policy''" by code_simp+
  with created_document_joinable [of 5 True "''doc''" "Some ?body" Map.empty "fst ?c" "snd ?c"]
  show ?thesis by (cases ?c) simp
qed

end
