(* ===== verification/Config.thy ===== *)
theory Config
  imports Access
begin

text \<open>
  Configuration and composition (\<^verbatim>\<open>internal/config/config.go\<close>, \<^verbatim>\<open>internal/app/app.go\<close>): parsing the environment,
  the refused topologies, the room configuration derived from it, and which adapters are opened and
  closed. The environment is a function from names to values, empty when unset, as \<^verbatim>\<open>os.Getenv\<close> reads it;
  whether a backend can be reached is a parameter.
\<close>

section \<open>Integers\<close>

text \<open>\<^verbatim>\<open>strconv.Atoi\<close> and \<^verbatim>\<open>ParseInt\<close> in base ten: an optional sign, at least one digit, the range of \<^verbatim>\<open>int64\<close>.\<close>

definition digit :: "char \<Rightarrow> int option" where
  "digit c = (let n = int (of_char c :: nat) in if 48 \<le> n \<and> n \<le> 57 then Some (n - 48) else None)"

fun digits :: "int \<Rightarrow> string \<Rightarrow> int option" where
  "digits acc [] = Some acc"
| "digits acc (c # cs) = (case digit c of None \<Rightarrow> None | Some d \<Rightarrow> digits (10 * acc + d) cs)"

definition in_int64 :: "int \<Rightarrow> bool" where
  "in_int64 n \<longleftrightarrow> - (2 ^ 63) \<le> n \<and> n < 2 ^ 63"

definition parseInt :: "string \<Rightarrow> int option" where
  "parseInt v =
     (let (neg, ds) = (case v of [] \<Rightarrow> (False, []) | c # cs \<Rightarrow>
            if c = CHR ''-'' then (True, cs) else if c = CHR ''+'' then (False, cs) else (False, v))
      in if ds = [] then None
         else case digits 0 ds of
           None \<Rightarrow> None
         | Some n \<Rightarrow> (let m = (if neg then - n else n) in if in_int64 m then Some m else None))"

section \<open>The configuration\<close>

datatype HubMode = HubInMemory | HubRedis
datatype MetadataStoreMode = MetadataStoreInMemory | MetadataStoreRabbitMQ
datatype CheckpointStoreMode = CheckpointStoreInline | CheckpointStoreFileService
datatype AuthMode = AuthModeHeader | AuthModeOpen
datatype AuthZMode = AuthZModeEval | AuthZModeOpen

record LimitsConfig =
  lcMaxDocBytes :: int
  lcMaxConnsPerRoom :: int
  lcUpdateRatePerSec :: int
  lcUpdateBurst :: int
  lcContributionWindowSeconds :: int
  lcIdleReleaseSeconds :: int
  lcSaveDebounceMillis :: int
  lcFlushFailureThreshold :: int

record AuthZEvalConfig =
  zeServiceURL :: string
  zeBreakerFailureThreshold :: int
  zeBreakerTimeoutSeconds :: int
  zeBreakerHalfOpenMaxReqs :: int

record Config =
  cfgPort :: int
  cfgHub :: HubMode
  cfgMetadata :: MetadataStoreMode
  cfgCheckpoint :: CheckpointStoreMode
  cfgAuth :: AuthMode
  cfgAuthZ :: AuthZMode
  cfgActorIDHeader :: string
  cfgRedisURL :: string
  cfgRabbitURL :: string
  cfgRabbitQueue :: string
  cfgLifecycleQueue :: string
  cfgFileServiceURL :: string
  cfgMaxUploadSize :: int
  cfgAuthZEval :: AuthZEvalConfig
  cfgLimitsConfig :: LimitsConfig

datatype config_error =
    NotAnInteger string | BadPort | MustBeSet string | BadChoice string | Negative string | Requires string
  | SharedQueue | ClientControlledHeader | UnsupportedRedisDurable | UnsupportedEphemeralIndex

type_synonym environment = "string \<Rightarrow> string"

definition getenv :: "environment \<Rightarrow> string \<Rightarrow> string \<Rightarrow> string" where
  "getenv env key fallback = (if env key \<noteq> '''' then env key else fallback)"

definition getenvInt :: "environment \<Rightarrow> string \<Rightarrow> int \<Rightarrow> config_error + int" where
  "getenvInt env key fallback =
     (if env key = '''' then Inr fallback
      else case parseInt (env key) of None \<Rightarrow> Inl (NotAnInteger key) | Some n \<Rightarrow> Inr n)"

definition getenvPort :: "environment \<Rightarrow> string \<Rightarrow> int \<Rightarrow> config_error + int" where
  "getenvPort env key fallback =
     (if env key = '''' then Inr fallback
      else case parseInt (env key) of
        None \<Rightarrow> Inl (NotAnInteger key)
      | Some n \<Rightarrow> if n < 1 \<or> n > 65535 then Inl BadPort else Inr n)"

definition parseHubMode :: "string \<Rightarrow> config_error + HubMode" where
  "parseHubMode v =
     (if v = ''inmemory'' then Inr HubInMemory else if v = ''redis'' then Inr HubRedis
      else if v = '''' then Inl (MustBeSet ''HUB_MODE'') else Inl (BadChoice ''HUB_MODE''))"

definition parseMetadataStore :: "string \<Rightarrow> config_error + MetadataStoreMode" where
  "parseMetadataStore v =
     (if v = ''inmemory'' then Inr MetadataStoreInMemory else if v = ''rabbitmq'' then Inr MetadataStoreRabbitMQ
      else Inl (BadChoice ''METADATA_STORE''))"

definition parseCheckpointStore :: "string \<Rightarrow> config_error + CheckpointStoreMode" where
  "parseCheckpointStore v =
     (if v = ''inline'' then Inr CheckpointStoreInline else if v = ''file-service'' then Inr CheckpointStoreFileService
      else if v = '''' then Inl (MustBeSet ''CHECKPOINT_STORE'') else Inl (BadChoice ''CHECKPOINT_STORE''))"

fun deriveAuthZMode :: "AuthMode \<Rightarrow> AuthZMode" where
  "deriveAuthZMode AuthModeOpen = AuthZModeOpen"
| "deriveAuthZMode AuthModeHeader = AuthZModeEval"

definition parseAuthModes :: "string \<Rightarrow> string \<Rightarrow> config_error + AuthMode \<times> AuthZMode" where
  "parseAuthModes authRaw authZRaw =
     (case (if authRaw = ''header'' then Some AuthModeHeader else if authRaw = ''open'' then Some AuthModeOpen else None) of
        None \<Rightarrow> Inl (BadChoice ''AUTH_MODE'')
      | Some authN \<Rightarrow>
          if authZRaw = '''' then Inr (authN, deriveAuthZMode authN)
          else if authZRaw = ''authzeval'' then Inr (authN, AuthZModeEval)
          else if authZRaw = ''open'' then Inr (authN, AuthZModeOpen)
          else Inl (BadChoice ''AUTHZ_MODE''))"

section \<open>Limits\<close>

text \<open>
  The code reads the eight values in the order of its table and stops at the first that is not an
  integer; then it looks for a negative one in the order of a Go map, so which negative value the
  error names is not determined. \<open>order\<close> is that order.
\<close>

definition limit_fields :: "(string \<times> int) list" where
  "limit_fields =
     [(''MAX_DOC_BYTES'', 31457280), (''MAX_CONNS_PER_ROOM'', 50), (''UPDATE_RATE_PER_SEC'', 0), (''UPDATE_BURST'', 0),
      (''CONTRIBUTION_WINDOW_SECONDS'', 600), (''IDLE_RELEASE_SECONDS'', 30), (''SAVE_DEBOUNCE_MILLIS'', 2000),
      (''FLUSH_FAILURE_THRESHOLD'', 5)]"

fun read_fields :: "environment \<Rightarrow> (string \<times> int) list \<Rightarrow> config_error + int list" where
  "read_fields env [] = Inr []"
| "read_fields env ((key, def) # fs) =
     (case getenvInt env key def of
        Inl err \<Rightarrow> Inl err
      | Inr v \<Rightarrow> (case read_fields env fs of Inl err \<Rightarrow> Inl err | Inr vs \<Rightarrow> Inr (v # vs)))"

definition loadLimitsConfig :: "(string \<times> int \<Rightarrow> nat) \<Rightarrow> environment \<Rightarrow> config_error + LimitsConfig" where
  "loadLimitsConfig order env =
     (case read_fields env limit_fields of
        Inl err \<Rightarrow> Inl err
      | Inr vs \<Rightarrow>
          (case filter (\<lambda>(k, v). v < 0) (sort_key order (zip (map fst limit_fields) vs)) of
             (k, v) # _ \<Rightarrow> Inl (Negative k)
           | [] \<Rightarrow> Inr \<lparr>lcMaxDocBytes = vs ! 0, lcMaxConnsPerRoom = vs ! 1, lcUpdateRatePerSec = vs ! 2, lcUpdateBurst = vs ! 3,
                lcContributionWindowSeconds = vs ! 4, lcIdleReleaseSeconds = vs ! 5, lcSaveDebounceMillis = vs ! 6,
                lcFlushFailureThreshold = vs ! 7\<rparr>))"

section \<open>Adapter settings\<close>

definition rejectUnsupportedTopology :: "Config \<Rightarrow> config_error option" where
  "rejectUnsupportedTopology conf =
     (if cfgHub conf = HubRedis \<and> cfgCheckpoint conf = CheckpointStoreFileService then Some UnsupportedRedisDurable else None)"

definition rejectEphemeralIndexBehindDurableBlobs :: "Config \<Rightarrow> config_error option" where
  "rejectEphemeralIndexBehindDurableBlobs conf =
     (if cfgCheckpoint conf = CheckpointStoreFileService \<and> cfgMetadata conf = MetadataStoreInMemory
      then Some UnsupportedEphemeralIndex else None)"

definition loadHubConfig :: "environment \<Rightarrow> Config \<Rightarrow> config_error + Config" where
  "loadHubConfig env conf =
     (if cfgHub conf \<noteq> HubRedis then Inr conf
      else if env ''REDIS_URL'' = '''' then Inl (Requires ''REDIS_URL'')
      else Inr (conf\<lparr>cfgRedisURL := env ''REDIS_URL''\<rparr>))"

text \<open>\<^verbatim>\<open>net/url\<close> and \<^verbatim>\<open>net.JoinHostPort\<close>, as far as the RabbitMQ address uses them.\<close>

definition unreserved :: "char \<Rightarrow> bool" where
  "unreserved c = (let n = (of_char c :: nat) in
     48 \<le> n \<and> n \<le> 57 \<or> 65 \<le> n \<and> n \<le> 90 \<or> 97 \<le> n \<and> n \<le> 122 \<or> c \<in> set ''-_.~'')"

definition keeps_in_user :: "char \<Rightarrow> bool" where
  "keeps_in_user c \<longleftrightarrow> unreserved c \<or> c \<in> set ''$&+,;=''"

definition keeps_in_host :: "char \<Rightarrow> bool" where
  "keeps_in_host c \<longleftrightarrow> unreserved c \<or> c \<in> set ''!$&()*+,;=:[]<>'' \<or> c = CHR 0x22 \<or> c = CHR 0x27"

definition hex :: "nat \<Rightarrow> char" where
  "hex n = (if n < 10 then char_of (48 + n) else char_of (55 + n))"

definition escape :: "(char \<Rightarrow> bool) \<Rightarrow> string \<Rightarrow> string" where
  "escape keeps v = concat (map (\<lambda>c. if keeps c then [c] else [CHR ''%'', hex (of_char c div 16), hex (of_char c mod 16)]) v)"

definition JoinHostPort :: "string \<Rightarrow> string \<Rightarrow> string" where
  "JoinHostPort host port = (if CHR '':'' \<in> set host then ''['' @ host @ '']:'' @ port else host @ '':'' @ port)"

definition rabbitURL :: "environment \<Rightarrow> string" where
  "rabbitURL env =
     (if env ''RABBITMQ_URL'' \<noteq> '''' then env ''RABBITMQ_URL''
      else ''amqp://'' @ escape keeps_in_user (getenv env ''RABBITMQ_USER'' ''guest'') @ '':'' @
        escape keeps_in_user (getenv env ''RABBITMQ_PASSWORD'' ''guest'') @ ''@'' @
        escape keeps_in_host (JoinHostPort (getenv env ''RABBITMQ_HOST'' ''localhost'') (getenv env ''RABBITMQ_PORT'' ''5672'')) @ ''/'')"

definition DefaultLifecycleQueue :: string where
  "DefaultLifecycleQueue = ''alkemio-collaboration-lifecycle''"

definition loadMetadataStoreConfig :: "environment \<Rightarrow> Config \<Rightarrow> config_error + Config" where
  "loadMetadataStoreConfig env conf =
     (if cfgMetadata conf \<noteq> MetadataStoreRabbitMQ then Inr conf
      else if env ''RABBITMQ_QUEUE'' = '''' then Inl (Requires ''RABBITMQ_QUEUE'')
      else let lq = getenv env ''LIFECYCLE_QUEUE'' DefaultLifecycleQueue
           in if lq = env ''RABBITMQ_QUEUE'' then Inl SharedQueue
              else Inr (conf\<lparr>cfgRabbitURL := rabbitURL env, cfgRabbitQueue := env ''RABBITMQ_QUEUE'', cfgLifecycleQueue := lq\<rparr>))"

definition loadCheckpointStoreConfig :: "environment \<Rightarrow> Config \<Rightarrow> config_error + Config" where
  "loadCheckpointStoreConfig env conf =
     (if cfgCheckpoint conf \<noteq> CheckpointStoreFileService then Inr conf
      else case getenvInt env ''MAX_UPLOAD_SIZE'' 0 of
        Inl err \<Rightarrow> Inl err
      | Inr n \<Rightarrow>
          if n < 0 then Inl (Negative ''MAX_UPLOAD_SIZE'')
          else if env ''FILE_SERVICE_URL'' = '''' then Inl (Requires ''FILE_SERVICE_URL'')
          else Inr (conf\<lparr>cfgFileServiceURL := env ''FILE_SERVICE_URL'', cfgMaxUploadSize := n\<rparr>))"

text \<open>\<^verbatim>\<open>strings.EqualFold\<close> against an ASCII word whose letters have no other case folding.\<close>

definition fold_char :: "char \<Rightarrow> char" where
  "fold_char c = (let n = (of_char c :: nat) in if 65 \<le> n \<and> n \<le> 90 then char_of (n + 32) else c)"

definition EqualFold :: "string \<Rightarrow> string \<Rightarrow> bool" where
  "EqualFold a b \<longleftrightarrow> map fold_char a = map fold_char b"

definition loadHeaderAuthConfig :: "Config \<Rightarrow> config_error option" where
  "loadHeaderAuthConfig conf =
     (if cfgAuth conf \<noteq> AuthModeHeader then None
      else if cfgActorIDHeader conf = '''' then Some (Requires ''AUTH_TOKEN_HEADER'')
      else if EqualFold (cfgActorIDHeader conf) ''Authorization'' then Some ClientControlledHeader
      else None)"

definition loadAuthZEvalConfig :: "environment \<Rightarrow> Config \<Rightarrow> config_error + Config" where
  "loadAuthZEvalConfig env conf =
     (if cfgAuthZ conf \<noteq> AuthZModeEval then Inr conf
      else case getenvInt env ''AUTH_BREAKER_FAILURE_THRESHOLD'' 3 of
        Inl err \<Rightarrow> Inl err
      | Inr failures \<Rightarrow>
          (case getenvInt env ''AUTH_BREAKER_TIMEOUT_SECONDS'' 15 of
             Inl err \<Rightarrow> Inl err
           | Inr timeout \<Rightarrow>
               (case getenvInt env ''AUTH_BREAKER_HALF_OPEN_MAX_REQUESTS'' 2 of
                  Inl err \<Rightarrow> Inl err
                | Inr half \<Rightarrow>
                    if env ''AUTH_SERVICE_URL'' = '''' then Inl (Requires ''AUTH_SERVICE_URL'')
                    else Inr (conf\<lparr>cfgAuthZEval := \<lparr>zeServiceURL = env ''AUTH_SERVICE_URL'', zeBreakerFailureThreshold = failures,
                           zeBreakerTimeoutSeconds = timeout, zeBreakerHalfOpenMaxReqs = half\<rparr>\<rparr>))))"

definition first_error :: "config_error option \<Rightarrow> config_error + 'a \<Rightarrow> config_error + 'a" where
  "first_error e r = (case e of Some err \<Rightarrow> Inl err | None \<Rightarrow> r)"

definition and_then :: "config_error + 'a \<Rightarrow> ('a \<Rightarrow> config_error + 'b) \<Rightarrow> config_error + 'b" where
  "and_then r f = (case r of Inl err \<Rightarrow> Inl err | Inr v \<Rightarrow> f v)"

definition loadAuthConfig :: "environment \<Rightarrow> Config \<Rightarrow> config_error + Config" where
  "loadAuthConfig env conf = first_error (loadHeaderAuthConfig conf) (loadAuthZEvalConfig env conf)"

definition loadAdapterConfig :: "environment \<Rightarrow> Config \<Rightarrow> config_error + Config" where
  "loadAdapterConfig env conf =
     first_error (rejectUnsupportedTopology conf)
       (and_then (loadHubConfig env conf) (\<lambda>c1.
         and_then (loadMetadataStoreConfig env c1) (\<lambda>c2.
           and_then (loadCheckpointStoreConfig env c2) (\<lambda>c3.
             first_error (rejectEphemeralIndexBehindDurableBlobs c3) (loadAuthConfig env c3)))))"

definition zeroLimits :: LimitsConfig where
  "zeroLimits = \<lparr>lcMaxDocBytes = 0, lcMaxConnsPerRoom = 0, lcUpdateRatePerSec = 0, lcUpdateBurst = 0, lcContributionWindowSeconds = 0,
     lcIdleReleaseSeconds = 0, lcSaveDebounceMillis = 0, lcFlushFailureThreshold = 0\<rparr>"

definition Load :: "(string \<times> int \<Rightarrow> nat) \<Rightarrow> environment \<Rightarrow> config_error + Config" where
  "Load order env =
     and_then (getenvPort env ''PORT'' 4006) (\<lambda>port.
     and_then (parseHubMode (env ''HUB_MODE'')) (\<lambda>hub.
     and_then (parseMetadataStore (getenv env ''METADATA_STORE'' ''inmemory'')) (\<lambda>metadata.
     and_then (parseCheckpointStore (env ''CHECKPOINT_STORE'')) (\<lambda>checkpoint.
     and_then (parseAuthModes (getenv env ''AUTH_MODE'' ''open'') (env ''AUTHZ_MODE'')) (\<lambda>modes.
     and_then (loadAdapterConfig env
       \<lparr>cfgPort = port, cfgHub = hub, cfgMetadata = metadata, cfgCheckpoint = checkpoint, cfgAuth = fst modes, cfgAuthZ = snd modes,
        cfgActorIDHeader = env ''AUTH_TOKEN_HEADER'', cfgRedisURL = [], cfgRabbitURL = [], cfgRabbitQueue = [], cfgLifecycleQueue = [],
        cfgFileServiceURL = [], cfgMaxUploadSize = 0,
        cfgAuthZEval = \<lparr>zeServiceURL = [], zeBreakerFailureThreshold = 0, zeBreakerTimeoutSeconds = 0, zeBreakerHalfOpenMaxReqs = 0\<rparr>,
        cfgLimitsConfig = zeroLimits\<rparr>) (\<lambda>conf.
     and_then (loadLimitsConfig order env) (\<lambda>limits. Inr (conf\<lparr>cfgLimitsConfig := limits\<rparr>))))))))"

end
