(* ===== verification/Composition.thy ===== *)
theory Composition
  imports Config
begin

text \<open>
  The composition root (\<^verbatim>\<open>internal/app/app.go\<close>): the room configuration made from the limits, which
  adapters a configuration selects, the order in which backends are opened and closed, the HTTP server
  and the process around them (\<^verbatim>\<open>cmd/server\<close>). Whether a backend can be opened is the parameter \<open>reach\<close>.
\<close>

section \<open>The room configuration\<close>

definition duration :: "int \<Rightarrow> int \<Rightarrow> int" where
  "duration n unit = int64 (n * unit)"

definition room_config :: "Config \<Rightarrow> roomConfig" where
  "room_config conf =
     (let l = cfgLimitsConfig conf
      in DefaultRoomConfig\<lparr>cfgLimits := \<lparr>FlushFailureThreshold = lcFlushFailureThreshold l, MaxDocBytes = lcMaxDocBytes l,
             MaxConnsPerRoom = lcMaxConnsPerRoom l, UpdateRatePerSec = lcUpdateRatePerSec l, UpdateBurst = lcUpdateBurst l\<rparr>,
           ContributionWindow := duration (lcContributionWindowSeconds l) second,
           IdleTimeout := duration (lcIdleReleaseSeconds l) second,
           SaveDebounce := duration (lcSaveDebounceMillis l) 1000000\<rparr>)"

definition handler_read_limit :: "Config \<Rightarrow> int" where
  "handler_read_limit conf = ReadLimitFor (lcMaxDocBytes (cfgLimitsConfig conf))"

text \<open>The create endpoint is mounted without a bus only; it then requires a policy where one is evaluated.\<close>

definition create_endpoint :: "Config \<Rightarrow> bool option" where
  "create_endpoint conf =
     (if cfgMetadata conf \<noteq> MetadataStoreRabbitMQ then Some (cfgAuthZ conf = AuthZModeEval) else None)"

definition lifecycleQueue :: "Config \<Rightarrow> string" where
  "lifecycleQueue conf = (if cfgLifecycleQueue conf \<noteq> '''' then cfgLifecycleQueue conf else DefaultLifecycleQueue)"

section \<open>Adapters\<close>

definition buildAuthN :: "(string \<Rightarrow> actor_id option) \<Rightarrow> Config \<Rightarrow> string \<Rightarrow> identity option" where
  "buildAuthN parse conf = (if cfgAuth conf = AuthModeHeader then header_Authenticate parse else open_Authenticate)"

text \<open>The settings of the circuit breaker, with the defaults of the adapter for values that are not positive.\<close>

definition breaker_settings :: "AuthZEvalConfig \<Rightarrow> int \<times> int \<times> int" where
  "breaker_settings z =
     (let timeout = duration (zeBreakerTimeoutSeconds z) second
      in (if zeBreakerFailureThreshold z \<le> 0 then 3 else zeBreakerFailureThreshold z,
          if timeout \<le> 0 then 15 * second else timeout,
          if zeBreakerHalfOpenMaxReqs z \<le> 0 then 2 else zeBreakerHalfOpenMaxReqs z))"

definition buildAuthZ ::
  "Config \<Rightarrow> (document_id \<Rightarrow> load_error + Metadata) \<Rightarrow> bool \<Rightarrow> (evaluateRequest \<Rightarrow> http_answer) \<Rightarrow> (bytes \<Rightarrow> evaluateResponse option) \<Rightarrow>
     (actor_id \<Rightarrow> string) \<Rightarrow> identity \<Rightarrow> document_id \<Rightarrow> privilege \<Rightarrow> auth_error + AuthDecision" where
  "buildAuthZ conf load admits post decode print =
     (if cfgAuthZ conf \<noteq> AuthZModeEval then open_Evaluate
      else authz_Evaluate (Some (PolicyID load)) admits post decode print)"

section \<open>Opening and closing\<close>

datatype resource = ResHub | ResRpc | ResManager | ResLifecycle

datatype app_event = Opened resource | Closed resource

datatype app_error = HubError | MetadataStoreError | CheckpointStoreError | LifecycleError

definition close_all :: "resource list \<Rightarrow> app_event list" where
  "close_all held_open = map Closed (rev held_open)"

definition buildHub :: "(resource \<Rightarrow> bool) \<Rightarrow> Config \<Rightarrow> app_error + resource list" where
  "buildHub reach conf = (if cfgHub conf \<noteq> HubRedis then Inr [] else if reach ResHub then Inr [ResHub] else Inl HubError)"

definition buildMetadata :: "(resource \<Rightarrow> bool) \<Rightarrow> Config \<Rightarrow> app_error + resource list" where
  "buildMetadata reach conf =
     (case cfgMetadata conf of
        MetadataStoreRabbitMQ \<Rightarrow> if reach ResRpc then Inr [ResRpc] else Inl MetadataStoreError
      | MetadataStoreInMemory \<Rightarrow> Inr [])"

text \<open>\<^verbatim>\<open>strings.TrimSpace\<close> leaves nothing of an address (in ASCII).\<close>

definition blank :: "string \<Rightarrow> bool" where
  "blank v \<longleftrightarrow> list_all (\<lambda>c. (of_char c :: nat) \<in> {9, 10, 11, 12, 13, 32}) v"

definition buildCheckpoint :: "Config \<Rightarrow> app_error option" where
  "buildCheckpoint conf =
     (if cfgCheckpoint conf = CheckpointStoreFileService \<and> blank (cfgFileServiceURL conf) then Some CheckpointStoreError else None)"

definition buildDeps :: "(resource \<Rightarrow> bool) \<Rightarrow> Config \<Rightarrow> (app_error + resource list) \<times> app_event list" where
  "buildDeps reach conf =
     (case buildHub reach conf of
        Inl err \<Rightarrow> (Inl err, close_all [])
      | Inr hub \<Rightarrow>
          (case buildMetadata reach conf of
             Inl err \<Rightarrow> (Inl err, map Opened hub @ close_all hub)
           | Inr meta \<Rightarrow>
               (case buildCheckpoint conf of
                  Some err \<Rightarrow> (Inl err, map Opened (hub @ meta) @ close_all (hub @ meta))
                | None \<Rightarrow> (Inr (hub @ meta), map Opened (hub @ meta)))))"

definition startLifecycle :: "(resource \<Rightarrow> bool) \<Rightarrow> Config \<Rightarrow> app_error + resource list" where
  "startLifecycle reach conf =
     (if cfgMetadata conf \<noteq> MetadataStoreRabbitMQ then Inr []
      else if reach ResLifecycle then Inr [ResLifecycle] else Inl LifecycleError)"

definition app_New :: "(resource \<Rightarrow> bool) \<Rightarrow> Config \<Rightarrow> (app_error + resource list) \<times> app_event list" where
  "app_New reach conf =
     (case buildDeps reach conf of
        (Inl err, tr) \<Rightarrow> (Inl err, tr)
      | (Inr deps, tr) \<Rightarrow>
          (let held_open = deps @ [ResManager]
           in case startLifecycle reach conf of
                Inl err \<Rightarrow> (Inl err, tr @ [Opened ResManager] @ close_all held_open)
              | Inr life \<Rightarrow> (Inr (held_open @ life), tr @ [Opened ResManager] @ map Opened life)))"

definition app_Close :: "resource list \<Rightarrow> app_event list" where
  "app_Close held_open = close_all held_open"

section \<open>The HTTP server\<close>

text \<open>\<^verbatim>\<open>newHTTPServer\<close> and \<^verbatim>\<open>shutdownServer\<close> of \<^verbatim>\<open>cmd/server/app.go\<close>; \<open>decimal\<close> is the \<^verbatim>\<open>%d\<close> of a port.\<close>

fun decimal :: "nat \<Rightarrow> string" where
  "decimal n = (if n < 10 then [char_of (48 + n)] else decimal (n div 10) @ [char_of (48 + n mod 10)])"

declare decimal.simps [simp del]

definition signed_decimal :: "int \<Rightarrow> string" where
  "signed_decimal n = (if n < 0 then CHR ''-'' # decimal (nat (- n)) else decimal (nat n))"

record http_server =
  srvAddr :: string
  srvReadHeaderTimeout :: int
  srvMaxHeaderBytes :: int
  srvWriteTimeout :: int
  srvIdleTimeout :: int

definition newHTTPServer :: "int \<Rightarrow> http_server" where
  "newHTTPServer port = \<lparr>srvAddr = CHR '':'' # signed_decimal port, srvReadHeaderTimeout = 10 * second,
     srvMaxHeaderBytes = 2 ^ 20, srvWriteTimeout = 0, srvIdleTimeout = 0\<rparr>"

section \<open>The process\<close>

text \<open>
  \<^verbatim>\<open>run\<close> of \<^verbatim>\<open>cmd/server/main.go\<close>: the exit code and what it did. \<open>loggerOK\<close> is the outcome of the logger,
  \<open>cause\<close> what the final select received, \<open>drains\<close> whether the open requests end within the time given to
  \<^verbatim>\<open>Shutdown\<close>. The deferred \<^verbatim>\<open>application.Close\<close> runs when \<^verbatim>\<open>run\<close> returns.
\<close>

datatype stop_cause = Signalled | ServerFailed

datatype process_event = AppEvent app_event | ServerStarted http_server | ServerShutdown int | ShutdownError

definition shutdownServer :: "(int \<Rightarrow> bool) \<Rightarrow> process_event list" where
  "shutdownServer drains =
     (let grace = 10 * second in if drains grace then [ServerShutdown grace] else [ServerShutdown grace, ShutdownError])"

definition server_run ::
  "bool \<Rightarrow> config_error + Config \<Rightarrow> (resource \<Rightarrow> bool) \<Rightarrow> stop_cause \<Rightarrow> (int \<Rightarrow> bool) \<Rightarrow> int \<times> process_event list" where
  "server_run loggerOK loaded reach cause drains =
     (if \<not> loggerOK then (1, [])
      else case loaded of
        Inl _ \<Rightarrow> (1, [])
      | Inr conf \<Rightarrow>
          (case app_New reach conf of
             (Inl _, tr) \<Rightarrow> (1, map AppEvent tr)
           | (Inr application, tr) \<Rightarrow>
               (let exitCode = (case cause of Signalled \<Rightarrow> 0 | ServerFailed \<Rightarrow> 1)
                in (exitCode, map AppEvent tr @ [ServerStarted (newHTTPServer (cfgPort conf))] @ shutdownServer drains @
                      map AppEvent (app_Close application)))))"

end
