(* ===== verification/CompositionProperties.thy ===== *)
theory CompositionProperties
  imports Composition
begin

text \<open>
  What a configuration that \<^verbatim>\<open>Load\<close> accepts guarantees, that the documented defaults agree with the core's,
  that credentials survive in the broker's address, and that backends are closed in reverse order.
\<close>

named_theorems load_defs "the steps of Load"
lemmas [load_defs] = and_then_def first_error_def getenvInt_def getenvPort_def parseHubMode_def parseMetadataStore_def
  parseCheckpointStore_def parseAuthModes_def loadAdapterConfig_def loadHubConfig_def loadMetadataStoreConfig_def
  loadCheckpointStoreConfig_def loadAuthConfig_def loadHeaderAuthConfig_def loadAuthZEvalConfig_def
  rejectUnsupportedTopology_def rejectEphemeralIndexBehindDurableBlobs_def

lemma and_then_Inr: "and_then r f = Inr v \<longleftrightarrow> (\<exists>u. r = Inr u \<and> f u = Inr v)"
  by (simp add: and_then_def split: sum.split)

lemma first_error_Inr: "first_error e r = Inr v \<longleftrightarrow> e = None \<and> r = Inr v"
  by (simp add: first_error_def split: option.split)

section \<open>Accepted configurations\<close>

lemma getenvPort_range: "getenvPort env key d = Inr n \<Longrightarrow> 1 \<le> d \<Longrightarrow> d \<le> 65535 \<Longrightarrow> 1 \<le> n \<and> n \<le> 65535"
  by (auto simp: getenvPort_def split: if_splits option.splits)

text \<open>What the adapters rely on: each selected backend has its address, the pairs that lose or hide data are
  excluded, and identities come from a header a client cannot set.\<close>

definition adapters_ok :: "Config \<Rightarrow> bool" where
  "adapters_ok conf \<longleftrightarrow>
     (cfgHub conf = HubRedis \<longrightarrow> cfgRedisURL conf \<noteq> '''' \<and> cfgCheckpoint conf = CheckpointStoreInline) \<and>
     (cfgCheckpoint conf = CheckpointStoreFileService \<longrightarrow>
        cfgFileServiceURL conf \<noteq> '''' \<and> 0 \<le> cfgMaxUploadSize conf \<and> cfgMetadata conf = MetadataStoreRabbitMQ) \<and>
     (cfgMetadata conf = MetadataStoreRabbitMQ \<longrightarrow>
        cfgRabbitQueue conf \<noteq> '''' \<and> cfgLifecycleQueue conf \<noteq> '''' \<and> cfgLifecycleQueue conf \<noteq> cfgRabbitQueue conf) \<and>
     (cfgAuth conf = AuthModeHeader \<longrightarrow> cfgActorIDHeader conf \<noteq> '''' \<and> \<not> EqualFold (cfgActorIDHeader conf) ''Authorization'') \<and>
     (cfgAuthZ conf = AuthZModeEval \<longrightarrow> zeServiceURL (cfgAuthZEval conf) \<noteq> '''')"

definition limits_ok :: "LimitsConfig \<Rightarrow> bool" where
  "limits_ok l \<longleftrightarrow> 0 \<le> lcMaxDocBytes l \<and> 0 \<le> lcMaxConnsPerRoom l \<and> 0 \<le> lcUpdateRatePerSec l \<and> 0 \<le> lcUpdateBurst l \<and>
     0 \<le> lcContributionWindowSeconds l \<and> 0 \<le> lcIdleReleaseSeconds l \<and> 0 \<le> lcSaveDebounceMillis l \<and> 0 \<le> lcFlushFailureThreshold l"

text \<open>The loaders keep every selection and the settings of the ports before them.\<close>

definition selection :: "Config \<Rightarrow> int \<times> HubMode \<times> MetadataStoreMode \<times> CheckpointStoreMode \<times> AuthMode \<times> AuthZMode \<times> string" where
  "selection c = (cfgPort c, cfgHub c, cfgMetadata c, cfgCheckpoint c, cfgAuth c, cfgAuthZ c, cfgActorIDHeader c)"

lemma loadHubConfig_ok: "loadHubConfig env c = Inr c' \<Longrightarrow> selection c' = selection c \<and> (cfgHub c = HubRedis \<longrightarrow> cfgRedisURL c' \<noteq> '''')"
  by (auto simp: loadHubConfig_def selection_def split: if_splits)

lemma loadMetadataStoreConfig_ok:
  "loadMetadataStoreConfig env c = Inr c' \<Longrightarrow> selection c' = selection c \<and> cfgRedisURL c' = cfgRedisURL c \<and>
     (cfgMetadata c = MetadataStoreRabbitMQ \<longrightarrow>
        cfgRabbitQueue c' \<noteq> '''' \<and> cfgLifecycleQueue c' \<noteq> '''' \<and> cfgLifecycleQueue c' \<noteq> cfgRabbitQueue c')"
  by (auto simp: loadMetadataStoreConfig_def selection_def getenv_def DefaultLifecycleQueue_def Let_def split: if_splits)

lemma loadCheckpointStoreConfig_ok:
  "loadCheckpointStoreConfig env c = Inr c' \<Longrightarrow> selection c' = selection c \<and> cfgRedisURL c' = cfgRedisURL c \<and>
     cfgRabbitQueue c' = cfgRabbitQueue c \<and> cfgLifecycleQueue c' = cfgLifecycleQueue c \<and>
     (cfgCheckpoint c = CheckpointStoreFileService \<longrightarrow> cfgFileServiceURL c' \<noteq> '''' \<and> 0 \<le> cfgMaxUploadSize c')"
  by (auto simp: loadCheckpointStoreConfig_def selection_def split: if_splits sum.splits)

lemma loadAuthZEvalConfig_ok:
  "loadAuthZEvalConfig env c = Inr c' \<Longrightarrow> selection c' = selection c \<and> cfgRedisURL c' = cfgRedisURL c \<and>
     cfgRabbitQueue c' = cfgRabbitQueue c \<and> cfgLifecycleQueue c' = cfgLifecycleQueue c \<and> cfgFileServiceURL c' = cfgFileServiceURL c \<and>
     cfgMaxUploadSize c' = cfgMaxUploadSize c \<and> (cfgAuthZ c = AuthZModeEval \<longrightarrow> zeServiceURL (cfgAuthZEval c') \<noteq> '''')"
  by (auto simp: loadAuthZEvalConfig_def selection_def split: if_splits sum.splits)

lemma loadAdapterConfig_ok:
  assumes "loadAdapterConfig env conf = Inr conf'"
  shows "adapters_ok conf'" and "selection conf' = selection conf"
proof -
  obtain c1 c2 c3 where steps: "loadHubConfig env conf = Inr c1" "loadMetadataStoreConfig env c1 = Inr c2"
      "loadCheckpointStoreConfig env c2 = Inr c3" "loadAuthZEvalConfig env c3 = Inr conf'"
    and checks: "rejectUnsupportedTopology conf = None" "rejectEphemeralIndexBehindDurableBlobs c3 = None" "loadHeaderAuthConfig c3 = None"
    using assms by (auto simp: loadAdapterConfig_def loadAuthConfig_def and_then_Inr first_error_Inr)
  note ok = loadHubConfig_ok [OF steps(1)] loadMetadataStoreConfig_ok [OF steps(2)] loadCheckpointStoreConfig_ok [OF steps(3)]
    loadAuthZEvalConfig_ok [OF steps(4)]
  show "selection conf' = selection conf" using ok by simp
  have "cfgCheckpoint conf = CheckpointStoreInline" if "cfgHub conf = HubRedis"
    using checks(1) that by (cases "cfgCheckpoint conf") (auto simp: rejectUnsupportedTopology_def)
  moreover have "cfgMetadata c3 = MetadataStoreRabbitMQ" if "cfgCheckpoint c3 = CheckpointStoreFileService"
    using checks(2) that by (cases "cfgMetadata c3") (auto simp: rejectEphemeralIndexBehindDurableBlobs_def)
  moreover have "cfgActorIDHeader c3 \<noteq> '''' \<and> \<not> EqualFold (cfgActorIDHeader c3) ''Authorization''" if "cfgAuth c3 = AuthModeHeader"
    using checks(3) that by (auto simp: loadHeaderAuthConfig_def split: if_splits)
  ultimately show "adapters_ok conf'" using ok by (simp add: adapters_ok_def selection_def)
qed

lemma loadLimitsConfig_ok: "loadLimitsConfig order env = Inr l \<Longrightarrow> limits_ok l"
proof -
  assume l: "loadLimitsConfig order env = Inr l"
  then obtain vs where vs: "read_fields env limit_fields = Inr vs" by (auto simp: loadLimitsConfig_def split: sum.splits)
  have len: "length vs = 8" using vs by (auto simp: limit_fields_def split: sum.splits)
  have none: "filter (\<lambda>(k, v). v < 0) (sort_key order (zip (map fst limit_fields) vs)) = []"
    using l vs by (auto simp: loadLimitsConfig_def split: list.splits)
  have "0 \<le> vs ! i" if "i < 8" for i
  proof -
    have "(map fst limit_fields ! i, vs ! i) \<in> set (zip (map fst limit_fields) vs)"
      using that len by (auto simp: in_set_zip limit_fields_def)
    then show ?thesis using none by (force simp: filter_empty_conv)
  qed
  then show ?thesis using l vs none by (auto simp: loadLimitsConfig_def limits_ok_def)
qed

text \<open>
  C13: only sound configurations start. In every configuration \<^verbatim>\<open>Load\<close> accepts, the port is a port; several
  pods never share a durable store; durable documents always have the durable index; the delete
  consumer has a queue of its own; identities come from a named header that is not the client's
  \<^verbatim>\<open>Authorization\<close>; each selected backend has its address; no limit is negative; and authorization is
  evaluated by default wherever authentication is.
\<close>

theorem accepted_configuration_sound:
  assumes "Load order env = Inr conf"
  shows "1 \<le> cfgPort conf \<and> cfgPort conf \<le> 65535 \<and> adapters_ok conf \<and> limits_ok (cfgLimitsConfig conf) \<and>
    (env ''AUTHZ_MODE'' = '''' \<longrightarrow> cfgAuthZ conf = deriveAuthZMode (cfgAuth conf))"
proof -
  obtain c0 c l port modes where c: "loadAdapterConfig env c0 = Inr c" and l: "loadLimitsConfig order env = Inr l"
    and parts: "getenvPort env ''PORT'' 4006 = Inr port"
      "parseAuthModes (getenv env ''AUTH_MODE'' ''open'') (env ''AUTHZ_MODE'') = Inr modes"
    and conf: "conf = c\<lparr>cfgLimitsConfig := l\<rparr>" "cfgPort c0 = port" "cfgAuth c0 = fst modes" "cfgAuthZ c0 = snd modes"
    using assms unfolding Load_def and_then_Inr by (elim exE conjE) (rule that, assumption+, auto)
  have "adapters_ok conf" using loadAdapterConfig_ok(1) [OF c] conf(1) by (simp add: adapters_ok_def)
  moreover have "snd modes = deriveAuthZMode (fst modes)" if "env ''AUTHZ_MODE'' = ''''"
    using parts(2) that by (auto simp: parseAuthModes_def split: option.splits if_splits)
  ultimately show ?thesis
    using getenvPort_range [OF parts(1)] loadLimitsConfig_ok [OF l] loadAdapterConfig_ok(2) [OF c] conf by (simp add: selection_def)
qed

definition sample_environment :: environment where
  "sample_environment key = (case map_of
     [(''HUB_MODE'', ''inmemory''), (''CHECKPOINT_STORE'', ''file-service''), (''FILE_SERVICE_URL'', ''http://files''),
      (''METADATA_STORE'', ''rabbitmq''), (''RABBITMQ_QUEUE'', ''server''), (''AUTH_MODE'', ''header''),
      (''AUTH_TOKEN_HEADER'', ''X-Alkemio-Actor-Id''), (''AUTH_SERVICE_URL'', ''http://authz''), (''MAX_CONNS_PER_ROOM'', ''20'')] key
     of Some v \<Rightarrow> v | None \<Rightarrow> [])"

theorem accepted_configuration_sound_witness:
  "\<exists>conf. Load (\<lambda>_. 0) sample_environment = Inr conf \<and> adapters_ok conf \<and> limits_ok (cfgLimitsConfig conf)"
proof -
  have "\<not> isl (Load (\<lambda>_. 0) sample_environment)" by code_simp
  then obtain conf where "Load (\<lambda>_. 0) sample_environment = Inr conf" by (cases "Load (\<lambda>_. 0) sample_environment") auto
  with accepted_configuration_sound [OF this] show ?thesis by blast
qed

section \<open>Defaults\<close>

lemma int64_id: "in_int64 n \<Longrightarrow> int64 n = n"
  by (simp add: int64_def in_int64_def)

text \<open>
  The defaults agree. When no limit is set in the environment, the room configuration that the
  composition root builds is the default configuration of the core.
\<close>

theorem config_defaults_agree:
  assumes "Load order env = Inr conf" and "\<And>key. key \<in> fst ` set limit_fields \<Longrightarrow> env key = ''''"
  shows "room_config conf = DefaultRoomConfig"
proof -
  obtain c l where l: "loadLimitsConfig order env = Inr l" and conf: "conf = c\<lparr>cfgLimitsConfig := l\<rparr>"
    using assms(1) unfolding Load_def and_then_Inr by blast
  have "read_fields env fs = Inr (map snd fs)" if "\<And>key. key \<in> fst ` set fs \<Longrightarrow> env key = ''''" for fs
    using that by (induction fs) (auto simp: getenvInt_def)
  then have vs: "read_fields env limit_fields = Inr (map snd limit_fields)" using assms(2) by blast
  have "\<forall>(k, v)\<in>set limit_fields. 0 \<le> v" by (simp add: limit_fields_def)
  then have none: "filter (\<lambda>(k, v). v < 0) (sort_key order limit_fields) = []" by (force simp: filter_empty_conv)
  define vs0 where "vs0 = map snd limit_fields"
  have "l = \<lparr>lcMaxDocBytes = vs0 ! 0, lcMaxConnsPerRoom = vs0 ! 1, lcUpdateRatePerSec = vs0 ! 2, lcUpdateBurst = vs0 ! 3,
      lcContributionWindowSeconds = vs0 ! 4, lcIdleReleaseSeconds = vs0 ! 5, lcSaveDebounceMillis = vs0 ! 6, lcFlushFailureThreshold = vs0 ! 7\<rparr>"
    using l unfolding loadLimitsConfig_def vs vs0_def by (simp add: zip_map_fst_snd none)
  then have "l = \<lparr>lcMaxDocBytes = 31457280, lcMaxConnsPerRoom = 50, lcUpdateRatePerSec = 0, lcUpdateBurst = 0,
      lcContributionWindowSeconds = 600, lcIdleReleaseSeconds = 30, lcSaveDebounceMillis = 2000, lcFlushFailureThreshold = 5\<rparr>"
    by (simp add: vs0_def limit_fields_def)
  then show ?thesis
    using conf by (simp add: room_config_def duration_def int64_id in_int64_def DefaultRoomConfig_def DefaultLimits_def
        defaultFlushFailureThreshold_def)
qed

theorem config_defaults_agree_witness:
  "\<exists>conf. Load (\<lambda>_. 0) (\<lambda>key. if key = ''HUB_MODE'' then ''redis'' else if key = ''REDIS_URL'' then ''redis://r''
      else if key = ''CHECKPOINT_STORE'' then ''inline'' else []) = Inr conf \<and> room_config conf = DefaultRoomConfig"
proof -
  let ?env = "\<lambda>key. if key = ''HUB_MODE'' then ''redis'' else if key = ''REDIS_URL'' then ''redis://r''
      else if key = ''CHECKPOINT_STORE'' then ''inline'' else []"
  have "\<not> isl (Load (\<lambda>_. 0) ?env)" by code_simp
  then obtain conf where c: "Load (\<lambda>_. 0) ?env = Inr conf" by (cases "Load (\<lambda>_. 0) ?env") auto
  have "?env key = []" if "key \<in> fst ` set limit_fields" for key using that by (auto simp: limit_fields_def)
  with config_defaults_agree [OF c] c show ?thesis by blast
qed

section \<open>The read limit\<close>

text \<open>Every message a document within its bound can need fits the socket's read limit, unless the bound is
  within 4 MiB of the largest integer, where the sum wraps and the library's small default applies.\<close>

lemma read_limit_exceeds_document:
  "0 \<le> n \<Longrightarrow> n < 2 ^ 63 - readHeadroomBytes \<Longrightarrow> n < ReadLimitFor n"
  "2 ^ 63 - readHeadroomBytes \<le> n \<Longrightarrow> n < 2 ^ 63 \<Longrightarrow> ReadLimitFor n < 0"
proof -
  show "n < ReadLimitFor n" if "0 \<le> n" "n < 2 ^ 63 - readHeadroomBytes"
    using that by (simp add: ReadLimitFor_def readHeadroomBytes_def int64_def)
  show "ReadLimitFor n < 0" if n: "2 ^ 63 - readHeadroomBytes \<le> n" "n < 2 ^ 63"
  proof -
    have "n + readHeadroomBytes + 2 ^ 63 = (n + readHeadroomBytes - 2 ^ 63) + 2 ^ 64" by simp
    then have "(n + readHeadroomBytes + 2 ^ 63) mod 2 ^ 64 = (n + readHeadroomBytes - 2 ^ 63) mod 2 ^ 64"
      by (metis mod_add_self2)
    then show ?thesis using n by (simp add: ReadLimitFor_def readHeadroomBytes_def int64_def)
  qed
qed

section \<open>The broker's address\<close>

definition unhex :: "char \<Rightarrow> nat" where
  "unhex c = (let n = of_char c in if n < 65 then n - 48 else n - 55)"

fun unescape :: "string \<Rightarrow> string" where
  "unescape (c # h # l # cs) = (if c = CHR ''%'' then char_of (16 * unhex h + unhex l) # unescape cs else c # unescape (h # l # cs))"
| "unescape cs = cs"

lemma unhex_hex: "n < 16 \<Longrightarrow> unhex (hex n) = n"
  by (auto simp: unhex_def hex_def Let_def)

lemma unescape_kept: "c \<noteq> CHR ''%'' \<Longrightarrow> unescape (c # cs) = c # unescape cs"
  by (cases cs; cases "tl cs") auto

lemma unescape_escape:
  assumes "\<not> keeps (CHR ''%'')"
  shows "unescape (escape keeps v) = v"
proof (induction v)
  case (Cons c cs)
  have rest: "escape keeps (c # cs) = (if keeps c then [c] else [CHR ''%'', hex (of_char c div 16), hex (of_char c mod 16)]) @ escape keeps cs"
    by (simp add: escape_def)
  have "of_char c < (256 :: nat)" by simp
  then have "of_char c div 16 < (16 :: nat)" by linarith
  moreover have "c \<noteq> CHR ''%''" if "keeps c" using assms that by auto
  ultimately show ?case using Cons unescape_kept [of c] by (cases "keeps c") (auto simp: rest unhex_hex)
qed (simp add: escape_def)

lemma escape_chars: "set (escape keeps v) \<subseteq> {c. keeps c} \<union> {CHR ''%''} \<union> hex ` {..15}"
proof (induction v)
  case (Cons c cs)
  have "of_char c < (256 :: nat)" by simp
  then have "of_char c div 16 \<le> (15 :: nat)" by linarith
  then show ?case using Cons by (auto simp: escape_def)
qed (simp add: escape_def)

lemma escape_clean: "\<not> keeps c \<Longrightarrow> c \<in> set '':@/?'' \<Longrightarrow> c \<notin> set (escape keeps v)"
proof -
  assume "\<not> keeps c" "c \<in> set '':@/?''"
  moreover have "list_all (\<lambda>n. hex n \<notin> set '':@/?'') [0..<16]" by code_simp
  then have "hex ` {..15} \<inter> set '':@/?'' = {}" by (force simp: list_all_iff)
  ultimately show ?thesis using escape_chars [of keeps v] by auto
qed

text \<open>
  Credentials stay in their place. The address assembled for the broker carries user and password
  in a form that decodes to exactly the configured values and contains none of the characters that
  end the credentials of a URL, so no value can move into the host part.
\<close>

theorem broker_credentials_roundtrip:
  assumes "env ''RABBITMQ_URL'' = ''''"
  shows "\<exists>u p host. rabbitURL env = ''amqp://'' @ u @ '':'' @ p @ ''@'' @ host @ ''/'' \<and>
    unescape u = getenv env ''RABBITMQ_USER'' ''guest'' \<and> unescape p = getenv env ''RABBITMQ_PASSWORD'' ''guest'' \<and>
    set '':@/?'' \<inter> (set u \<union> set p) = {}"
proof -
  let ?u = "escape keeps_in_user (getenv env ''RABBITMQ_USER'' ''guest'')"
  let ?p = "escape keeps_in_user (getenv env ''RABBITMQ_PASSWORD'' ''guest'')"
  have "\<not> keeps_in_user (CHR ''%'')" by code_simp
  then have "unescape ?u = getenv env ''RABBITMQ_USER'' ''guest''" "unescape ?p = getenv env ''RABBITMQ_PASSWORD'' ''guest''"
    by (simp_all add: unescape_escape)
  moreover have "\<not> keeps_in_user c" if "c \<in> set '':@/?''" for c
  proof -
    have "list_all (\<lambda>c. \<not> keeps_in_user c) '':@/?''" by code_simp
    then show ?thesis using that by (auto simp: list_all_iff)
  qed
  then have "set '':@/?'' \<inter> (set ?u \<union> set ?p) = {}" using escape_clean [of keeps_in_user] by blast
  ultimately show ?thesis using assms unfolding rabbitURL_def by force
qed

theorem broker_credentials_roundtrip_witness:
  "\<exists>u p host. rabbitURL (\<lambda>k. if k = ''RABBITMQ_PASSWORD'' then ''p@h/x'' else []) = ''amqp://'' @ u @ '':'' @ p @ ''@'' @ host @ ''/'' \<and>
     unescape p = ''p@h/x'' \<and> CHR ''@'' \<notin> set p"
  using broker_credentials_roundtrip [of "\<lambda>k. if k = ''RABBITMQ_PASSWORD'' then ''p@h/x'' else []"] by (auto simp: getenv_def)

section \<open>Opening and closing\<close>

text \<open>A failed start closes everything it opened, in reverse order; a running service holds its backends in
  the order they were opened, the consumer after the rooms and the rooms after the stores they save to.\<close>

lemma buildDeps_orderly:
  "buildDeps reach conf = (Inl err, tr) \<Longrightarrow> \<exists>rs. tr = map Opened rs @ close_all rs"
  "buildDeps reach conf = (Inr rs, tr) \<Longrightarrow> tr = map Opened rs \<and> set rs \<subseteq> {ResHub, ResRpc}"
proof -
  show "\<exists>rs. tr = map Opened rs @ close_all rs" if "buildDeps reach conf = (Inl err, tr)"
  proof (cases "buildHub reach conf")
    case (Inl e)
    then show ?thesis using that by (intro exI [of _ "[]"]) (simp add: buildDeps_def)
  next
    case hub: (Inr hub)
    show ?thesis
    proof (cases "buildMetadata reach conf")
      case (Inl e)
      then show ?thesis using that hub by (auto simp: buildDeps_def)
    next
      case (Inr meta)
      then show ?thesis using that hub by (intro exI [of _ "hub @ meta"]) (auto simp: buildDeps_def split: option.splits)
    qed
  qed
  show "tr = map Opened rs \<and> set rs \<subseteq> {ResHub, ResRpc}" if "buildDeps reach conf = (Inr rs, tr)"
    using that by (auto simp: buildDeps_def buildHub_def buildMetadata_def
        split: sum.splits option.splits if_splits MetadataStoreMode.splits)
qed

lemma app_New_orderly:
  "app_New reach conf = (Inl err, tr) \<Longrightarrow> \<exists>rs. tr = map Opened rs @ close_all rs"
  "app_New reach conf = (Inr rs, tr) \<Longrightarrow> tr = map Opened rs \<and> app_Close rs = map Closed (rev rs) \<and>
     (\<exists>deps. set deps \<subseteq> {ResHub, ResRpc} \<and> rs = deps @ [ResManager] @ (if cfgMetadata conf = MetadataStoreRabbitMQ then [ResLifecycle] else []))"
proof -
  obtain built tr0 where deps: "buildDeps reach conf = (built, tr0)" by fastforce
  show "\<exists>rs. tr = map Opened rs @ close_all rs" if "app_New reach conf = (Inl err, tr)"
  proof (cases built)
    case (Inl e)
    then show ?thesis using that deps buildDeps_orderly(1) by (auto simp: app_New_def)
  next
    case (Inr ds)
    then show ?thesis using that deps buildDeps_orderly(2)
      by (intro exI [of _ "ds @ [ResManager]"]) (auto simp: app_New_def Let_def split: sum.splits)
  qed
  show "tr = map Opened rs \<and> app_Close rs = map Closed (rev rs) \<and>
     (\<exists>deps. set deps \<subseteq> {ResHub, ResRpc} \<and> rs = deps @ [ResManager] @ (if cfgMetadata conf = MetadataStoreRabbitMQ then [ResLifecycle] else []))"
    if "app_New reach conf = (Inr rs, tr)"
  proof (cases built)
    case (Inr ds)
    then show ?thesis using that deps buildDeps_orderly(2) [of reach conf ds tr0]
      by (auto simp: app_New_def Let_def startLifecycle_def app_Close_def close_all_def split: sum.splits if_splits)
  qed (use that deps in \<open>auto simp: app_New_def\<close>)
qed

text \<open>
  The process leaves nothing open: everything it opened it closes, once each and in reverse order,
  and the HTTP server, started on the configured port, is shut down before the first of it is closed,
  whether or not the requests end in time. It exits with 0 only after a signal.
\<close>

theorem server_run_orderly:
  assumes "server_run loggerOK loaded reach cause drains = (code, tr)"
  obtains (unstarted) rs where "code = 1" "tr = map AppEvent (map Opened rs @ close_all rs)"
  | (served) conf rs where "loaded = Inr conf" "code = (if cause = Signalled then 0 else 1)"
      "tr = map AppEvent (map Opened rs) @ ServerStarted (newHTTPServer (cfgPort conf)) # shutdownServer drains @
         map AppEvent (map Closed (rev rs))"
proof (cases "loggerOK \<and> (\<exists>conf. loaded = Inr conf)")
  case False
  then show thesis using assms unstarted [of "[]"] by (auto simp: server_run_def close_all_def split: sum.splits if_splits)
next
  case True
  then obtain conf where l: "loggerOK" "loaded = Inr conf" by blast
  obtain built tr0 where n: "app_New reach conf = (built, tr0)" by fastforce
  show thesis
  proof (cases built)
    case (Inl err)
    then show thesis using assms l n app_New_orderly(1) unstarted by (fastforce simp: server_run_def)
  next
    case (Inr rs)
    with n have "tr0 = map Opened rs" "app_Close rs = map Closed (rev rs)" using app_New_orderly(2) by blast+
    then show thesis
      using assms l n Inr by (intro served [of conf rs]) (auto simp: server_run_def Let_def split: stop_cause.splits)
  qed
qed

text \<open>The port a configuration was given is the port the address names: printing inverts parsing.\<close>

lemma digits_append: "digits acc (xs @ ys) = (case digits acc xs of None \<Rightarrow> None | Some n \<Rightarrow> digits n ys)"
  by (induction xs arbitrary: acc) (auto split: option.splits)

lemma digit_char: "n < 10 \<Longrightarrow> digit (char_of (48 + n)) = Some (int n)"
  by (simp add: digit_def Let_def)

lemma digits_decimal: "digits 0 (decimal n) = Some (int n)"
proof (induction n rule: decimal.induct)
  case (1 n)
  show ?case
  proof (cases "n < 10")
    case True
    then show ?thesis by (simp add: decimal.simps [of n] digit_char)
  next
    case False
    have "10 * int (n div 10) + int (n mod 10) = int n" by (metis mult_div_mod_eq of_nat_add of_nat_mult of_nat_numeral)
    with False 1 show ?thesis by (simp add: decimal.simps [of n] digits_append digit_char)
  qed
qed

lemma decimal_not_sign: "\<exists>c cs. decimal n = c # cs \<and> c \<noteq> CHR ''-'' \<and> c \<noteq> CHR ''+''"
proof (induction n rule: decimal.induct)
  case (1 n)
  have "char_of (48 + n) \<noteq> CHR ''-''" "char_of (48 + n) \<noteq> CHR ''+''" if "n < 10"
    using that by (auto dest!: arg_cong [where f = "of_char :: char \<Rightarrow> nat"])
  then show ?case using 1 by (cases "n < 10") (auto simp: decimal.simps [of n])
qed

lemma parse_decimal:
  assumes "0 \<le> n" "n < 2 ^ 63"
  shows "parseInt (signed_decimal n) = Some n"
proof -
  obtain c cs where "decimal (nat n) = c # cs" "c \<noteq> CHR ''-''" "c \<noteq> CHR ''+''" using decimal_not_sign by blast
  with digits_decimal [of "nat n"] assms show ?thesis
    by (simp add: parseInt_def signed_decimal_def in_int64_def)
qed

end
