(* ===== verification/Consumer.thy ===== *)
theory Consumer
  imports Attachment
begin

text \<open>
  The consumer of the server's lifecycle events
  (\<^verbatim>\<open>internal/adapter/inbound/lifecycle/consumer.go\<close>, \<^verbatim>\<open>conn.go\<close> and \<^verbatim>\<open>topology.go\<close>): decoding and routing of
  \<^verbatim>\<open>document.deleted\<close>, the acknowledgement of each delivery, the topology it declares and its supervisor.
  JSON decoding and the manager's \<^verbatim>\<open>CloseDeleted\<close> are parameters; RabbitMQ is modelled by what it documents
  of acknowledgements, redelivery, delivery limits and dead-letter routing.
\<close>

section \<open>Routing one event\<close>

abbreviation PatternDocumentDeleted :: string where
  "PatternDocumentDeleted \<equiv> ''document.deleted''"

record envelope =
  envPattern :: string
  envData :: bytes

record decoders =
  unmarshalEnvelope :: "bytes \<Rightarrow> envelope option"
  unmarshalDeleted :: "bytes \<Rightarrow> document_id option"

datatype ackAction = ackSuccess | requeue | rejectPoison

definition handleDeleted :: "decoders \<Rightarrow> (document_id \<Rightarrow> bool) \<Rightarrow> bytes \<Rightarrow> ackAction" where
  "handleDeleted dec closeDeleted data =
     (case unmarshalDeleted dec data of
        None \<Rightarrow> rejectPoison
      | Some did \<Rightarrow> if did = '''' then rejectPoison else if closeDeleted did then ackSuccess else requeue)"

definition handle :: "decoders \<Rightarrow> (document_id \<Rightarrow> bool) \<Rightarrow> bytes \<Rightarrow> ackAction" where
  "handle dec closeDeleted body =
     (case unmarshalEnvelope dec body of
        None \<Rightarrow> rejectPoison
      | Some env \<Rightarrow>
          if envPattern env = PatternDocumentDeleted then handleDeleted dec closeDeleted (envData env) else rejectPoison)"

text \<open>The document a well-formed \<^verbatim>\<open>document.deleted\<close> event names.\<close>

definition event_document :: "decoders \<Rightarrow> bytes \<Rightarrow> document_id option" where
  "event_document dec body =
     (case unmarshalEnvelope dec body of
        None \<Rightarrow> None
      | Some env \<Rightarrow>
          if envPattern env = PatternDocumentDeleted
          then (case unmarshalDeleted dec (envData env) of None \<Rightarrow> None | Some did \<Rightarrow> if did = '''' then None else Some did)
          else None)"

definition patternOf :: "decoders \<Rightarrow> bytes \<Rightarrow> string" where
  "patternOf dec body = (case unmarshalEnvelope dec body of None \<Rightarrow> ''<unparseable>'' | Some env \<Rightarrow> envPattern env)"

text \<open>What \<^verbatim>\<open>processOne\<close> tells the broker, and the pattern it reports to the observer when it rejects.\<close>

datatype verdict = Ack | Nack bool

definition processOne :: "decoders \<Rightarrow> (document_id \<Rightarrow> bool) \<Rightarrow> bytes \<Rightarrow> verdict \<times> string option" where
  "processOne dec closeDeleted body =
     (case handle dec closeDeleted body of
        ackSuccess \<Rightarrow> (Ack, None)
      | requeue \<Rightarrow> (Nack True, None)
      | rejectPoison \<Rightarrow> (Nack False, Some (patternOf dec body)))"

section \<open>The topology\<close>

record queueNames =
  qnMain :: string
  qnDlq :: string

definition namesFor :: "string \<Rightarrow> queueNames" where
  "namesFor main = \<lparr>qnMain = main, qnDlq = main @ ''.dlq''\<rparr>"

datatype arg = ArgString string | ArgInt int

record queueSpec =
  qsName :: string
  qsArgs :: "(string \<times> arg) list"

definition topologyFor :: "queueNames \<Rightarrow> queueSpec list" where
  "topologyFor n =
     [\<lparr>qsName = qnMain n,
       qsArgs = [(''x-queue-type'', ArgString ''quorum''), (''x-delivery-limit'', ArgInt (-1)),
         (''x-dead-letter-exchange'', ArgString ''''), (''x-dead-letter-routing-key'', ArgString (qnDlq n))]\<rparr>,
      \<lparr>qsName = qnDlq n, qsArgs = [(''x-queue-type'', ArgString ''quorum''), (''x-delivery-limit'', ArgInt (-1))]\<rparr>]"

text \<open>\<^verbatim>\<open>declareTopology\<close> declares in order and stops at the first refusal.\<close>

fun declareAll :: "(queueSpec \<Rightarrow> bool) \<Rightarrow> queueSpec list \<Rightarrow> queueSpec list \<times> bool" where
  "declareAll ok [] = ([], True)"
| "declareAll ok (q # qs) = (if ok q then (case declareAll ok qs of (ds, b) \<Rightarrow> (q # ds, b)) else ([], False))"

definition declareTopology :: "(queueSpec \<Rightarrow> bool) \<Rightarrow> queueNames \<Rightarrow> queueSpec list \<times> bool" where
  "declareTopology ok n = declareAll ok (topologyFor n)"

text \<open>One round of \<^verbatim>\<open>pollDepths\<close>: the depths reported before the first refusal.\<close>

fun poll_round :: "(queueSpec \<Rightarrow> int option) \<Rightarrow> queueSpec list \<Rightarrow> (string \<times> int) list" where
  "poll_round declare [] = []"
| "poll_round declare (q # qs) = (case declare q of None \<Rightarrow> [] | Some n \<Rightarrow> (qsName q, n) # poll_round declare qs)"

section \<open>Settings\<close>

definition DefaultPrefetch :: int where "DefaultPrefetch = 1"
definition DefaultHandlerTimeout :: int where "DefaultHandlerTimeout = 30 * 10 ^ 9"
definition DefaultReattachBackoff :: int where "DefaultReattachBackoff = 5 * 10 ^ 9"
definition DefaultDepthPollInterval :: int where "DefaultDepthPollInterval = 30 * 10 ^ 9"

definition resolvePrefetch :: "int \<Rightarrow> int" where
  "resolvePrefetch n = (if n \<le> 0 then DefaultPrefetch else n)"

definition resolveHandlerTimeout :: "int \<Rightarrow> int" where
  "resolveHandlerTimeout d = (if d \<le> 0 then DefaultHandlerTimeout else d)"

definition resolveReattachBackoff :: "int \<Rightarrow> int" where
  "resolveReattachBackoff d = (if d \<le> 0 then DefaultReattachBackoff else d)"

definition resolveDepthPollInterval :: "int \<Rightarrow> int" where
  "resolveDepthPollInterval d = (if d = 0 then DefaultDepthPollInterval else d)"

section \<open>The supervisor\<close>

definition lifecycle_connect :: attachment where
  "lifecycle_connect = \<lparr>attConn = 0, attCh = 0, shutdown = False\<rparr>"

text \<open>The calls that wire a session up: the topology, the prefetch before the first delivery, the consumer.\<close>

definition lifecycle_wiring :: "queueNames \<Rightarrow> int \<Rightarrow> broker_call list" where
  "lifecycle_wiring n prefetch = map (\<lambda>q. Declare (qsName q)) (topologyFor n) @ [SetQos (resolvePrefetch prefetch), Consume (qnMain n)]"

datatype consumer_error = ConsumerURLRequired | ConsumerQueueRequired | ConsumerOpenFailed

text \<open>\<^verbatim>\<open>Connect\<close>: the attachment, the handler's deadline, the backoff, and the poll interval if polling is on.\<close>

definition lifecycle_Connect ::
  "(broker_call \<Rightarrow> bool) \<Rightarrow> string \<Rightarrow> string \<Rightarrow> int \<Rightarrow> int \<Rightarrow> int \<Rightarrow> int \<Rightarrow> consumer_error + attachment \<times> int \<times> int \<times> int option" where
  "lifecycle_Connect ok url queue prefetch timeout backoff poll =
     (if url = '''' then Inl ConsumerURLRequired
      else if queue = '''' then Inl ConsumerQueueRequired
      else if \<not> fst (openSession ok (lifecycle_wiring (namesFor queue) prefetch)) then Inl ConsumerOpenFailed
      else Inr (lifecycle_connect, resolveHandlerTimeout timeout, resolveReattachBackoff backoff,
                (let every = resolveDepthPollInterval poll in if every > 0 then Some every else None)))"

definition lifecycle_adopt :: "nat \<Rightarrow> attachment \<Rightarrow> bool \<times> attachment" where
  "lifecycle_adopt n c = (if shutdown c then (False, c) else (True, c\<lparr>attConn := n, attCh := n\<rparr>))"

definition lifecycle_step :: "attachment supervised \<Rightarrow> attachment supervised \<Rightarrow> bool" where
  "lifecycle_step = sup_step lifecycle_adopt id True"

section \<open>Deliveries\<close>

text \<open>
  The broker's side. A message carries how often it has been delivered. A message that is returned
  (\<open>requeue\<close>, or its session ends while it is unacknowledged) goes back to the queue unless the queue's
  delivery limit (20 when none is declared, none when negative) is used up; a message that is
  rejected, or over the limit, moves to the queue its dead-letter routing key names if that queue is
  declared, and is discarded otherwise.
\<close>

record msg =
  msgBody :: bytes
  msgDeliveries :: int

definition delivery_limit :: "(string \<times> arg) list \<Rightarrow> int option" where
  "delivery_limit args =
     (case map_of args ''x-delivery-limit'' of Some (ArgInt n) \<Rightarrow> if n < 0 then None else Some n | _ \<Rightarrow> Some 20)"

definition dead_letter_queue :: "queueSpec list \<Rightarrow> (string \<times> arg) list \<Rightarrow> string option" where
  "dead_letter_queue specs args =
     (case map_of args ''x-dead-letter-routing-key'' of
        Some (ArgString q) \<Rightarrow> if q \<in> qsName ` set specs then Some q else None
      | _ \<Rightarrow> None)"

definition args_of :: "queueSpec list \<Rightarrow> string \<Rightarrow> (string \<times> arg) list" where
  "args_of specs q = (case map_of (map (\<lambda>x. (qsName x, qsArgs x)) specs) q of Some a \<Rightarrow> a | None \<Rightarrow> [])"

type_synonym queues = "string \<Rightarrow> msg list"

definition dead_letter :: "queueSpec list \<Rightarrow> string \<Rightarrow> msg \<Rightarrow> queues \<Rightarrow> queues" where
  "dead_letter specs q m qs =
     (case dead_letter_queue specs (args_of specs q) of
        Some d \<Rightarrow> qs(d := qs d @ [m\<lparr>msgDeliveries := 0\<rparr>])
      | None \<Rightarrow> qs)"

definition give_back :: "queueSpec list \<Rightarrow> string \<Rightarrow> msg \<Rightarrow> queues \<Rightarrow> queues" where
  "give_back specs q m qs =
     (case delivery_limit (args_of specs q) of
        Some n \<Rightarrow> if msgDeliveries m > n then dead_letter specs q m qs else qs(q := m # qs q)
      | None \<Rightarrow> qs(q := m # qs q))"

record broker =
  queues :: queues
  unacked :: "msg list"
  published :: "bytes list"
  settled :: "bytes list"
  closedDocs :: "document_id list"

definition broker_new :: broker where
  "broker_new = \<lparr>queues = (\<lambda>_. []), unacked = [], published = [], settled = [], closedDocs = []\<rparr>"

text \<open>
  Publishing, delivery, processing and the loss of a session. \<open>acked\<close> is whether the verdict reaches the
  broker; if it does not, the message stays unacknowledged until the session ends. \<open>closes\<close> is what
  \<^verbatim>\<open>CloseDeleted\<close> answers within the handler's deadline, \<open>closedDocs\<close> the documents for which it succeeded.
\<close>

inductive broker_step :: "decoders \<Rightarrow> queueNames \<Rightarrow> broker \<Rightarrow> broker \<Rightarrow> bool" for dec n s where
  publish: "broker_step dec n s (s\<lparr>queues := (queues s)(qnMain n := queues s (qnMain n) @ [\<lparr>msgBody = b, msgDeliveries = 0\<rparr>]),
    published := b # published s\<rparr>)"
| delivered: "queues s (qnMain n) = m # ms \<Longrightarrow>
    broker_step dec n s (s\<lparr>queues := (queues s)(qnMain n := ms), unacked := m\<lparr>msgDeliveries := msgDeliveries m + 1\<rparr> # unacked s\<rparr>)"
| lost_session: "m \<in> set (unacked s) \<Longrightarrow>
    broker_step dec n s (s\<lparr>unacked := remove1 m (unacked s), queues := give_back (topologyFor n) (qnMain n) m (queues s)\<rparr>)"
| processed: "m \<in> set (unacked s) \<Longrightarrow> processOne dec closes (msgBody m) = (v, obs) \<Longrightarrow>
    s1 = s\<lparr>closedDocs := (case event_document dec (msgBody m) of
        Some did \<Rightarrow> if closes did then did # closedDocs s else closedDocs s | None \<Rightarrow> closedDocs s)\<rparr> \<Longrightarrow>
    s2 = s1\<lparr>unacked := remove1 m (unacked s)\<rparr> \<Longrightarrow>
    s' = (if \<not> acked then s1
          else case v of
            Ack \<Rightarrow> s2\<lparr>settled := msgBody m # settled s\<rparr>
          | Nack True \<Rightarrow> s2\<lparr>queues := give_back (topologyFor n) (qnMain n) m (queues s)\<rparr>
          | Nack False \<Rightarrow> s2\<lparr>queues := dead_letter (topologyFor n) (qnMain n) m (queues s)\<rparr>) \<Longrightarrow>
    broker_step dec n s s'"

inductive broker_reach :: "decoders \<Rightarrow> queueNames \<Rightarrow> broker \<Rightarrow> bool" for dec n where
  broker_start: "broker_reach dec n broker_new"
| broker_next: "broker_reach dec n s \<Longrightarrow> broker_step dec n s s' \<Longrightarrow> broker_reach dec n s'"

end
