(* ===== verification/ConsumerProperties.thy ===== *)
theory ConsumerProperties
  imports Consumer "HOL-Library.Multiset"
begin

text \<open>
  No delete event is lost: whatever the consumer does with a delivery, and however often its session
  is dropped, every published event is still queued, is being processed, was acknowledged after its
  document had been closed, or is recorded in the dead-letter queue because it can never be acted on.
\<close>

interpretation lifecycle: attachable lifecycle_adopt id True
  by unfold_locales (simp_all add: lifecycle_adopt_def)

section \<open>What the consumer decides\<close>



section \<open>What the topology makes of it\<close>

abbreviation main_of :: "string \<Rightarrow> string" where "main_of q \<equiv> qnMain (namesFor q)"
abbreviation dlq_of :: "string \<Rightarrow> string" where "dlq_of q \<equiv> qnDlq (namesFor q)"

lemma names_distinct [simp]: "main_of q \<noteq> dlq_of q" "dlq_of q \<noteq> main_of q"
  by (simp_all add: namesFor_def)




section \<open>No event is lost\<close>

definition bodies :: "msg list \<Rightarrow> bytes multiset" where
  "bodies ms = mset (map msgBody ms)"

lemma bodies_simps [simp]:
  "bodies [] = {#}" "bodies (m # ms) = add_mset (msgBody m) (bodies ms)" "bodies (ms @ ms') = bodies ms + bodies ms'"
  by (simp_all add: bodies_def)










section \<open>Shutting down\<close>

lemma lifecycle_reach_inv:
  assumes "lifecycle_step\<^sup>*\<^sup>* (supervise lifecycle_connect) s"
  shows "sup_inv s"
  using assms
proof (induction rule: rtranclp_induct)
  case base
  then show ?case by (rule sup_inv_start) (simp_all add: lifecycle_connect_def)
next
  case (step s s')
  then show ?case using lifecycle.sup_inv_step unfolding lifecycle_step_def by blast
qed

text \<open>Close reads the channel and the connection under two locks; no session slips in between.\<close>

lemma lifecycle_close_leaks_nothing:
  assumes "lifecycle_step\<^sup>*\<^sup>* (supervise lifecycle_connect) s" and "closers s t = Some ClosedAll" and "n < dialled s"
  shows "n \<in> set (closedConns s) \<or> phase s \<in> {Releasing n, Holding n, Refusing n}"
  by (rule lifecycle.closed_all_sessions [OF lifecycle_reach_inv [OF assms(1)] assms(2,3)])

end
