(* ===== verification/Metrics.thy ===== *)
theory Metrics
  imports RoomState
begin

text \<open>
  The metrics bridge of \<^verbatim>\<open>internal/adapter/inbound/http/metrics.go\<close>: the collectors as a record, one
  operation per method of \<^verbatim>\<open>PrometheusMetrics\<close> and \<^verbatim>\<open>PrometheusLifecycleObserver\<close>, and the registry of
  undurable documents behind the three degraded-durability gauges. A histogram is the list of its
  observations, a counter vector a function of the label.
\<close>

section \<open>Collectors\<close>

record undurableEntry =
  consecutive :: nat
  since :: int

record metrics =
  roomsActive :: int
  connectionsActive :: int
  snapshotsTotal :: "string \<Rightarrow> nat"
  fanoutTotal :: "string \<Rightarrow> nat"
  fanoutLagSeconds :: "rat list"
  contributingActorsHist :: "nat list"
  undurableDocs :: "(document_id \<times> undurableEntry) list"
  undurableFlushFailures :: nat
  undurableDocuments :: nat
  undurableSeconds :: rat
  durabilityEscalationsTotal :: nat
  escalationUndurableSeconds :: "rat list"
  lifecycleQueueReadyDepth :: "string \<Rightarrow> int option"
  lifecycleDeadLetteredTotal :: "string \<Rightarrow> nat"

definition initMetrics :: metrics where
  "initMetrics =
     \<lparr>roomsActive = 0, connectionsActive = 0, snapshotsTotal = (\<lambda>_. 0), fanoutTotal = (\<lambda>_. 0), fanoutLagSeconds = [],
      contributingActorsHist = [], undurableDocs = [], undurableFlushFailures = 0, undurableDocuments = 0,
      undurableSeconds = 0, durabilityEscalationsTotal = 0, escalationUndurableSeconds = [],
      lifecycleQueueReadyDepth = (\<lambda>_. None), lifecycleDeadLetteredTotal = (\<lambda>_. 0)\<rparr>"

text \<open>\<^verbatim>\<open>time.Duration.Seconds\<close>: the exact value the code holds as a float64.\<close>

definition Seconds :: "int \<Rightarrow> rat" where
  "Seconds ns = of_int ns / 1000000000"

section \<open>The degraded set\<close>

definition worse :: "nat \<times> rat \<Rightarrow> undurableEntry \<Rightarrow> nat \<times> rat" where
  "worse w entry =
     (case w of (worstFailures, worstSeconds) \<Rightarrow>
        (if consecutive entry > worstFailures then consecutive entry else worstFailures,
         let secs = Seconds (since entry) in if secs > worstSeconds then secs else worstSeconds))"

text \<open>\<open>ord\<close> is the order in which \<^verbatim>\<open>range\<close> visits the map.\<close>

definition publishUndurableLocked :: "(document_id list \<Rightarrow> document_id list) \<Rightarrow> metrics \<Rightarrow> metrics" where
  "publishUndurableLocked ord m =
     (let entries = map (\<lambda>d. the (map_of (undurableDocs m) d)) (ord (map fst (undurableDocs m)))
      in case foldl worse (0, 0) entries of
           (worstFailures, worstSeconds) \<Rightarrow>
             m\<lparr>undurableFlushFailures := worstFailures, undurableSeconds := worstSeconds,
               undurableDocuments := length (undurableDocs m)\<rparr>)"

definition forget_undurable :: "(document_id list \<Rightarrow> document_id list) \<Rightarrow> document_id \<Rightarrow> metrics \<Rightarrow> metrics" where
  "forget_undurable ord d m = publishUndurableLocked ord (m\<lparr>undurableDocs := AList.delete d (undurableDocs m)\<rparr>)"

definition prom_DocumentUndurable ::
  "(document_id list \<Rightarrow> document_id list) \<Rightarrow> document_id \<Rightarrow> nat \<Rightarrow> int \<Rightarrow> metrics \<Rightarrow> metrics" where
  "prom_DocumentUndurable ord d n t m =
     publishUndurableLocked ord
       (m\<lparr>undurableDocs := AList.update d \<lparr>consecutive = n, since = t\<rparr> (undurableDocs m)\<rparr>)"

definition prom_DocumentDurabilityRestored ::
  "(document_id list \<Rightarrow> document_id list) \<Rightarrow> document_id \<Rightarrow> metrics \<Rightarrow> metrics" where
  "prom_DocumentDurabilityRestored ord d m = forget_undurable ord d m"

definition prom_DocumentEscalated ::
  "(document_id list \<Rightarrow> document_id list) \<Rightarrow> document_id \<Rightarrow> int \<Rightarrow> metrics \<Rightarrow> metrics" where
  "prom_DocumentEscalated ord d t m =
     (let m1 = m\<lparr>durabilityEscalationsTotal := Suc (durabilityEscalationsTotal m)\<rparr>;
          m2 = m1\<lparr>escalationUndurableSeconds := escalationUndurableSeconds m1 @ [Seconds t]\<rparr>
      in forget_undurable ord d m2)"

section \<open>The other hooks\<close>

definition prom_RoomOpened :: "metrics \<Rightarrow> metrics" where
  "prom_RoomOpened m = m\<lparr>roomsActive := roomsActive m + 1\<rparr>"

definition prom_RoomClosed :: "(document_id list \<Rightarrow> document_id list) \<Rightarrow> document_id \<Rightarrow> metrics \<Rightarrow> metrics" where
  "prom_RoomClosed ord d m = forget_undurable ord d (m\<lparr>roomsActive := roomsActive m - 1\<rparr>)"

definition prom_ConnOpened :: "metrics \<Rightarrow> metrics" where
  "prom_ConnOpened m = m\<lparr>connectionsActive := connectionsActive m + 1\<rparr>"

definition prom_ConnClosed :: "metrics \<Rightarrow> metrics" where
  "prom_ConnClosed m = m\<lparr>connectionsActive := connectionsActive m - 1\<rparr>"

definition inc :: "string \<Rightarrow> (string \<Rightarrow> nat) \<Rightarrow> string \<Rightarrow> nat" where
  "inc l c = c(l := Suc (c l))"

definition prom_SnapshotSaved :: "metrics \<Rightarrow> metrics" where
  "prom_SnapshotSaved m = m\<lparr>snapshotsTotal := inc ''saved'' (snapshotsTotal m)\<rparr>"

definition prom_SnapshotFailed :: "metrics \<Rightarrow> metrics" where
  "prom_SnapshotFailed m = m\<lparr>snapshotsTotal := inc ''error'' (snapshotsTotal m)\<rparr>"

definition prom_FanoutPublished :: "int \<Rightarrow> metrics \<Rightarrow> metrics" where
  "prom_FanoutPublished lag m =
     m\<lparr>fanoutTotal := inc ''published'' (fanoutTotal m), fanoutLagSeconds := fanoutLagSeconds m @ [Seconds lag]\<rparr>"

definition prom_FanoutFailed :: "metrics \<Rightarrow> metrics" where
  "prom_FanoutFailed m = m\<lparr>fanoutTotal := inc ''error'' (fanoutTotal m)\<rparr>"

definition prom_ContributingActors :: "nat \<Rightarrow> metrics \<Rightarrow> metrics" where
  "prom_ContributingActors n m = m\<lparr>contributingActorsHist := contributingActorsHist m @ [n]\<rparr>"

definition prom_QueueReadyDepth :: "string \<Rightarrow> int \<Rightarrow> metrics \<Rightarrow> metrics" where
  "prom_QueueReadyDepth queue depth m =
     m\<lparr>lifecycleQueueReadyDepth := (lifecycleQueueReadyDepth m)(queue \<mapsto> depth)\<rparr>"

definition prom_EventDeadLettered :: "string \<Rightarrow> metrics \<Rightarrow> metrics" where
  "prom_EventDeadLettered pattern m =
     m\<lparr>lifecycleDeadLetteredTotal := inc pattern (lifecycleDeadLetteredTotal m)\<rparr>"

section \<open>The calls of a process\<close>

text \<open>
  A call by the manager, by the loop of the room that serves a document (an event of its trace), or
  by the lifecycle consumer. \<open>lag\<close> is the publish latency a fan-out reports, which the trace of a room
  does not carry.
\<close>

datatype metric_call =
    MRoomOpened
  | MRoomClosed document_id
  | MRoom document_id event
  | MQueueReadyDepth string int
  | MEventDeadLettered string

definition room_call ::
  "(document_id list \<Rightarrow> document_id list) \<Rightarrow> int \<Rightarrow> document_id \<Rightarrow> event \<Rightarrow> metrics \<Rightarrow> metrics" where
  "room_call ord lag d ev m =
     (case ev of
        EvConnOpened \<Rightarrow> prom_ConnOpened m
      | EvConnClosed \<Rightarrow> prom_ConnClosed m
      | EvSnapshotSaved \<Rightarrow> prom_SnapshotSaved m
      | EvSnapshotFailed \<Rightarrow> prom_SnapshotFailed m
      | EvFanoutPublished \<Rightarrow> prom_FanoutPublished lag m
      | EvFanoutFailed \<Rightarrow> prom_FanoutFailed m
      | EvContributingActors n \<Rightarrow> prom_ContributingActors n m
      | EvUndurable n t \<Rightarrow> prom_DocumentUndurable ord d n t m
      | EvDurabilityRestored \<Rightarrow> prom_DocumentDurabilityRestored ord d m
      | EvEscalated t \<Rightarrow> prom_DocumentEscalated ord d t m
      | _ \<Rightarrow> m)"

definition metric_step ::
  "(document_id list \<Rightarrow> document_id list) \<Rightarrow> int \<Rightarrow> metrics \<Rightarrow> metric_call \<Rightarrow> metrics" where
  "metric_step ord lag m c =
     (case c of
        MRoomOpened \<Rightarrow> prom_RoomOpened m
      | MRoomClosed d \<Rightarrow> prom_RoomClosed ord d m
      | MRoom d ev \<Rightarrow> room_call ord lag d ev m
      | MQueueReadyDepth q n \<Rightarrow> prom_QueueReadyDepth q n m
      | MEventDeadLettered p \<Rightarrow> prom_EventDeadLettered p m)"

definition metrics_after ::
  "(document_id list \<Rightarrow> document_id list) \<Rightarrow> int \<Rightarrow> metric_call list \<Rightarrow> metrics" where
  "metrics_after ord lag calls = foldl (metric_step ord lag) initMetrics calls"

section \<open>No metrics\<close>

text \<open>The sinks of a deployment without metrics: every hook leaves whatever state there is as it is.\<close>

definition NopMetrics :: "'s \<Rightarrow> metric_call \<Rightarrow> 's" where
  "NopMetrics s c = s"

definition NopObserver :: "'s \<Rightarrow> metric_call \<Rightarrow> 's" where
  "NopObserver s c = s"

lemma nop_absorbs: "foldl NopMetrics s calls = s" "foldl NopObserver s calls = s"
  by (induction calls) (simp_all add: NopMetrics_def NopObserver_def)

end
