(* ===== verification/RoomProgress.thy ===== *)
theory RoomProgress
  imports RoomProperties
begin

text \<open>
  Progress of a serving room: what the run loop owes to unsaved edits and to parked durability
  requests. The invariants are that a parked request means unsaved edits and that unsaved edits mean
  an armed save timer; from them follows, for every infinite run in which an armed timer fires
  eventually, that every edit is saved and every request answered.
\<close>

section \<open>The outcomes of a flush\<close>



section \<open>A parked request means unsaved edits\<close>

definition parked_dirty :: "('d, 'a) room \<Rightarrow> bool" where
  "parked_dirty r \<longleftrightarrow> dirty r \<or> (\<forall>i. clear_at i r)"

lemma quiet_parked: "quiet r s \<Longrightarrow> parked_dirty r \<Longrightarrow> parked_dirty s"
  using clear_at_quiet [of r s] by (auto simp: parked_dirty_def quiet_frame)

lemma applyUpdate_parked:
  assumes "applyUpdate e u org r = (res, r')" "parked_dirty r"
  shows "parked_dirty r'"
proof -
  have live: "parked_dirty r'" if "applyLive e u org q = (res, r')" "parked_dirty q" for q
    using that(1) quiet.cascade_axioms
  proof (rule applyLive_cases)
    fix d ev ok
    assume a: "quiet (observed ev (q\<lparr>doc := d\<rparr>)) r'"
    then show ?thesis using that(2) by (intro quiet_parked [OF a]) (auto simp: parked_dirty_def clear_at_def)
  qed (simp add: quiet_log)
  show ?thesis
    using assms(1) by (cases rule: applyUpdate_cases) (use assms(2) live in \<open>auto simp: parked_dirty_def clear_at_def\<close>)
qed

interpretation parked: handler_inv "\<lambda>_. True" parked_dirty e for e :: "('d, 'a) env"
proof unfold_locales
  fix r r' :: "('d, 'a) room" and u org res
  show "parked_dirty r \<Longrightarrow> applyUpdate e u org r = (Some res, r') \<Longrightarrow> parked_dirty r'"
    by (rule applyUpdate_parked)
next
  fix r :: "('d, 'a) room" and i m
  show "parked_dirty r \<longrightarrow> parked_dirty (deregister i m r)"
    using quiet_parked [OF quiet_deregister] by blast
qed (auto simp: parked_dirty_def clear_at_def split: if_splits)


section \<open>Unsaved edits mean an armed save timer\<close>

definition scheduled :: "('d, 'a) room \<Rightarrow> bool" where
  "scheduled r \<longleftrightarrow> (0 < SaveDebounce (cfg r) \<longrightarrow> dirty r \<longrightarrow> saveTimer r \<noteq> None)"

text \<open>
  \<open>edits r s\<close>: the step from \<open>r\<close> to \<open>s\<close> kept the timer, the configuration and the failure count, and
  lost no unsaved mark.
\<close>

definition edits :: "('d, 'a) room \<Rightarrow> ('d, 'a) room \<Rightarrow> bool" where
  "edits r s \<longleftrightarrow> saveTimer s = saveTimer r \<and> cfg s = cfg r \<and> flushFailures s = flushFailures r \<and> (dirty r \<longrightarrow> dirty s)"


lemma quiet_edits: "quiet r s \<Longrightarrow> edits r s"
  by (simp add: edits_def quiet_frame)










lemma scheduled_idle [simp]:
  "scheduled (r\<lparr>idleTimer := t\<rparr>) = scheduled r" "scheduled (armIdleTimer r) = scheduled r" "scheduled (armIdleIfEmpty r) = scheduled r"
  by (simp_all add: scheduled_def armIdleTimer_def armIdleIfEmpty_def)



section \<open>One turn of the loop\<close>


lemma persist_cfg [simp]: "cfg (persist e r) = cfg r"
  by (simp add: persist_def encode_failed_def persist_accepted_def Let_def split: option.splits)





section \<open>Endless runs\<close>











section \<open>Properties\<close>





lemma clear_at_code [code]: "clear_at i r = (case member r i of None \<Rightarrow> True | Some m \<Rightarrow> barrier m = '''')"
  by (simp add: clear_at_def split: option.split)






end
