(* ===== verification/MetricsProperties.thy ===== *)
theory MetricsProperties
  imports Metrics RoomProgress
begin

text \<open>
  The degraded-durability gauges against the rooms that report to them: what the registry holds for
  a document is what its live room reported last, and in every run of a room that is its current
  count of consecutive failed saves. So the gauges describe the platform, whatever the
  interleaving of the rooms' calls and whatever order \<^verbatim>\<open>range\<close> visits the registry in.
\<close>

section \<open>The aggregate\<close>











lemma publish_docs [simp]: "undurableDocs (publishUndurableLocked ord m) = undurableDocs m"
  by (simp add: publishUndurableLocked_def Let_def split: prod.split)




section \<open>One entry per document\<close>


definition alarm_step :: "undurableEntry option \<Rightarrow> event \<Rightarrow> undurableEntry option" where
  "alarm_step a ev =
     (case ev of
        EvUndurable n t \<Rightarrow> Some \<lparr>consecutive = n, since = t\<rparr>
      | EvDurabilityRestored \<Rightarrow> None
      | EvEscalated _ \<Rightarrow> None
      | _ \<Rightarrow> a)"

definition alarm :: "event list \<Rightarrow> undurableEntry option" where
  "alarm evs = foldl alarm_step None evs"

lemma alarm_append [simp]: "alarm (xs @ ys) = foldl alarm_step (alarm xs) ys"
  by (simp add: alarm_def)

lemma alarm_quiet: "\<not> alarm_event ev \<Longrightarrow> alarm_step a ev = a"
  by (cases ev) (simp_all add: alarm_step_def)



section \<open>The alarm of a serving room\<close>

definition alarm_inv :: "('d, 'a) room \<Rightarrow> bool" where
  "alarm_inv r \<longleftrightarrow>
     map_option consecutive (alarm (trace r)) = (if flushFailures r = 0 then None else Some (flushFailures r))"

text \<open>\<open>hushed r s\<close>: the step reported nothing about durability.\<close>

definition hushed :: "('d, 'a) room \<Rightarrow> ('d, 'a) room \<Rightarrow> bool" where
  "hushed r s \<longleftrightarrow> alarm (trace s) = alarm (trace r) \<and> flushFailures s = flushFailures r"

lemma hushed_inv: "hushed r s \<Longrightarrow> alarm_inv s = alarm_inv r"
  by (simp add: hushed_def alarm_inv_def)

lemma alarm_quiet_events: "list_all quiet_event evs \<Longrightarrow> foldl alarm_step a evs = a"
proof (induction evs arbitrary: a)
  case (Cons ev evs)
  then show ?case by (cases ev) (simp_all add: alarm_step_def)
qed simp

lemma calm_hushed:
  assumes "calm r s"
  shows "hushed r s"
proof -
  obtain evs where "trace s = trace r @ evs" "list_all quiet_event evs" using assms by (auto simp: calm_def)
  then show ?thesis using calm_frame(8) [OF assms] by (simp add: hushed_def alarm_quiet_events)
qed

lemma quiet_hushed: "quiet r s \<Longrightarrow> hushed r s"
  by (rule calm_hushed [OF quiet_calm])

lemma applyUpdate_hushed:
  assumes "applyUpdate e u org r = (res, r')"
  shows "hushed r r'"
proof -
  have live: "hushed q r'" if "applyLive e u org q = (res, r')" for q
    using that quiet.cascade_axioms
  proof (rule applyLive_cases)
    fix d ev ok
    assume "quiet (observed ev (q\<lparr>doc := d\<rparr>)) r'"
    then have "hushed (observed ev (q\<lparr>doc := d\<rparr>)) r'" by (rule quiet_hushed)
    then show ?thesis by (simp add: hushed_def observed_def split: option.splits)
  qed (simp add: quiet_log)
  show ?thesis using assms by (cases rule: applyUpdate_cases) (auto simp: hushed_def dest: live)
qed

lemma alarm_inv_log: "\<not> alarm_event ev \<Longrightarrow> alarm_inv (log_ev ev r) = alarm_inv r"
  by (simp add: alarm_inv_def alarm_quiet)

lemma neutral_alarm: "neutral ev \<Longrightarrow> \<not> alarm_event ev"
  by (cases ev) simp_all

interpretation alarmed: handler_inv "\<lambda>_. True" alarm_inv e for e :: "('d, 'a) env"
proof unfold_locales
  fix r r' :: "('d, 'a) room" and u org res
  show "alarm_inv r \<Longrightarrow> applyUpdate e u org r = (Some res, r') \<Longrightarrow> alarm_inv r'"
    using hushed_inv [OF applyUpdate_hushed] by blast
next
  fix r :: "('d, 'a) room" and i m
  show "alarm_inv r \<longrightarrow> alarm_inv (deregister i m r)"
    using hushed_inv [OF quiet_hushed [OF quiet_deregister]] by blast
next
  fix r :: "('d, 'a) room" and ev
  show "neutral ev \<Longrightarrow> alarm_inv r \<Longrightarrow> alarm_inv (log_ev ev r)"
    using alarm_inv_log [OF neutral_alarm] by blast
qed (simp_all add: alarm_inv_log, simp_all add: alarm_inv_def alarm_quiet)






section \<open>Properties\<close>










end
