(* ===== verification/Recovery.thy ===== *)
theory Recovery
  imports StoreProperties RoomProperties
begin

text \<open>
  A room and its stores together: what a room wrote during its life, replayed on the store it wrote
  to, is what the next room of the document is opened from. \<open>durable_store\<close> is the contract of the two
  ports over one durable state; the deployed pair (file-service and the server's index on the bus)
  and the in-process pair implement it.
\<close>

section \<open>What a room writes\<close>

fun store_event :: "event \<Rightarrow> bool" where
  "store_event (EvSaveCheckpoint _ _ _) = True"
| "store_event (EvSaveMetadata _ _) = True"
| "store_event _ = False"

definition wrote :: "event list \<Rightarrow> event list" where
  "wrote tr = filter store_event tr"

lemma wrote_simps [simp]:
  "wrote (tr @ tr') = wrote tr @ wrote tr'" "wrote [] = []" "wrote (ev # tr) = (if store_event ev then ev # wrote tr else wrote tr)"
  by (simp_all add: wrote_def)

text \<open>
  Every row a room writes is its own and leaves the pointer to the checkpoint store; while it has no
  unsaved edits, the last thing it wrote, if anything, is a checkpoint and a row that were both
  accepted.
\<close>

definition written_inv :: "document_id \<Rightarrow> ('d, 'a) room \<Rightarrow> bool" where
  "written_inv d r \<longleftrightarrow> docId r = d \<and>
     (\<forall>m ok. EvSaveMetadata m ok \<in> set (wrote (trace r)) \<longrightarrow> metaID m = d \<and> metaContentPointer m = '''') \<and>
     (\<not> dirty r \<longrightarrow> wrote (trace r) = [] \<or>
        (\<exists>pre s v m. wrote (trace r) = pre @ [EvSaveCheckpoint s v True, EvSaveMetadata m True]))"

lemma written_inv_cong:
  "docId s = docId r \<Longrightarrow> wrote (trace s) = wrote (trace r) \<Longrightarrow> (dirty r \<longrightarrow> dirty s) \<Longrightarrow> written_inv d r \<Longrightarrow> written_inv d s"
  by (auto simp: written_inv_def)

lemma written_frame [simp]:
  "written_inv d (r\<lparr>docBytes := n\<rparr>) = written_inv d r" "written_inv d (r\<lparr>shadow := sh\<rparr>) = written_inv d r"
  "written_inv d (r\<lparr>doc := dd\<rparr>) = written_inv d r"
  by (simp_all add: written_inv_def)

lemma wrote_quiet: "list_all quiet_event evs \<Longrightarrow> wrote evs = []"
proof (induction evs)
  case (Cons ev evs)
  then show ?case by (cases ev) simp_all
qed simp

lemma quiet_written:
  assumes "quiet r s" "written_inv d r"
  shows "written_inv d s"
proof -
  obtain evs where "trace s = trace r @ evs" "list_all quiet_event evs" using quiet_trace [OF assms(1)] by blast
  then show ?thesis
    using quiet_frame(3,13) [OF assms(1)] assms(2) by (intro written_inv_cong [of s r]) (simp_all add: wrote_quiet)
qed

lemma applyUpdate_written:
  assumes "applyUpdate e u org r = (res, r')" "written_inv d r"
  shows "written_inv d r'"
proof -
  have live: "written_inv d r'" if "applyLive e u org q = (res, r')" "written_inv d q" for q
    using that(1) quiet.cascade_axioms
  proof (rule applyLive_cases)
    fix dd ev ok
    assume a: "quiet (observed ev (q\<lparr>doc := dd\<rparr>)) r'"
    show ?thesis by (rule quiet_written [OF a], rule written_inv_cong [OF _ _ _ that(2)]) auto
  qed (simp add: quiet_log)
  show ?thesis
    using assms(1) by (cases rule: applyUpdate_cases) (simp_all add: assms(2) live)
qed

lemma written_log: "\<not> store_event ev \<Longrightarrow> written_inv d (log_ev ev r) = written_inv d r"
  by (simp add: written_inv_def)

lemma neutral_store: "neutral ev \<or> alarm_event ev \<Longrightarrow> \<not> store_event ev"
  by (cases ev) simp_all

interpretation written: room_inv "\<lambda>_. True" "written_inv d" e for d and e :: "('d, 'a) env"
proof unfold_locales
  fix r r' :: "('d, 'a) room" and u org res
  show "written_inv d r \<Longrightarrow> applyUpdate e u org r = (Some res, r') \<Longrightarrow> written_inv d r'"
    using applyUpdate_written by blast
next
  fix r r' :: "('d, 'a) room" and u org
  assume "written_inv d r" "applyUpdate e u org r = (None, r')"
  then have "written_inv d r'" using applyUpdate_written by blast
  then show "written_inv d (r'\<lparr>shadow := None, lc := stateDraining\<rparr>)" by (simp add: written_inv_def)
next
  fix r :: "('d, 'a) room" and i m
  show "written_inv d r \<longrightarrow> written_inv d (deregister i m r)"
    using quiet_written [OF quiet_deregister] by blast
next
  fix r :: "('d, 'a) room" and ev
  show "neutral ev \<Longrightarrow> written_inv d r \<Longrightarrow> written_inv d (log_ev ev r)"
    "alarm_event ev \<Longrightarrow> written_inv d r \<Longrightarrow> written_inv d (log_ev ev r)"
    using written_log [OF neutral_store] by blast+
next
  fix r :: "('d, 'a) room" and i m se
  show "written_inv d r \<Longrightarrow> written_inv d (endMember e se i m r)"
    by (simp add: endMember_def Let_def written_inv_def)
next
  fix r :: "('d, 'a) room"
  show "written_inv d r \<Longrightarrow> written_inv d (releaseRoom r)"
    by (simp add: releaseRoom_def Let_def written_inv_def)
next
  fix r :: "('d, 'a) room" and s v ok
  assume "written_inv d r" "dirty r"
  then show "written_inv d (log_ev (EvSaveCheckpoint s v ok) r)"
    "written_inv d (log_ev (EvSaveMetadata (snapshot_meta r) False) (log_ev (EvSaveCheckpoint s v True) r))"
    "written_inv d ((log_ev (EvSaveMetadata (snapshot_meta r) True) (log_ev (EvSaveCheckpoint s v True) r))
       \<lparr>version := version r + 1, dirty := False\<rparr>)"
    by (auto simp: written_inv_def snapshot_meta_def emptyMetadata_def)
qed (simp_all add: written_log, simp_all add: written_inv_def)

lemma written_run:
  assumes "room_run e acq r0 go r"
  shows "written_inv (docId r) r"
proof -
  obtain did ct c loaded checkpoint where new: "newRoom e did ct c loaded checkpoint acq True = Inr r0"
      and run: "run_reach e r0 go r"
    using assms by (auto simp: room_run_def)
  have "written_inv (docId r0) r0" using newRoom_start(3,4) [OF new] by (simp add: written_inv_def)
  from written.run_reach_I [OF run this newRoom_start(1) [OF new]] show ?thesis by (simp add: written_inv_def)
qed

section \<open>A room on its stores\<close>

definition room_request :: "document_id \<Rightarrow> bytes \<Rightarrow> bytes \<Rightarrow> saveRequest" where
  "room_request did u v = \<lparr>reqDocument = did, reqFence = 0, reqEncoding = EncodingV2, reqUpdate = u, reqVector = v\<rparr>"

text \<open>
  \<open>on_stores save save_row did s tr s'\<close>: from \<open>s\<close> the stores came to \<open>s'\<close> while the room of \<open>did\<close> produced the
  trace \<open>tr\<close>. Each call of the room on a port is one of the store, with the outcome the trace recorded;
  between them rooms of other documents write.
\<close>

inductive on_stores ::
  "(saveRequest \<Rightarrow> 's \<Rightarrow> (store_error + 64 word) \<times> 's) \<Rightarrow> (Metadata \<Rightarrow> 's \<Rightarrow> load_error option \<times> 's) \<Rightarrow>
     document_id \<Rightarrow> 's \<Rightarrow> event list \<Rightarrow> 's \<Rightarrow> bool"
  for save save_row did s where
  os_start: "on_stores save save_row did s [] s"
| os_checkpoint: "on_stores save save_row did s tr s1 \<Longrightarrow> save (room_request did u v) s1 = (res, s2) \<Longrightarrow>
    on_stores save save_row did s (tr @ [EvSaveCheckpoint u v (\<not> isl res)]) s2"
| os_row: "on_stores save save_row did s tr s1 \<Longrightarrow> save_row m s1 = (err, s2) \<Longrightarrow>
    on_stores save save_row did s (tr @ [EvSaveMetadata m (err = None)]) s2"
| os_event: "on_stores save save_row did s tr s1 \<Longrightarrow> \<not> store_event ev \<Longrightarrow> on_stores save save_row did s (tr @ [ev]) s1"
| os_other_checkpoint: "on_stores save save_row did s tr s1 \<Longrightarrow> reqDocument req \<noteq> did \<Longrightarrow> save req s1 = (res, s2) \<Longrightarrow>
    on_stores save save_row did s tr s2"
| os_other_row: "on_stores save save_row did s tr s1 \<Longrightarrow> metaID m \<noteq> did \<Longrightarrow> metaContentPointer m = '''' \<Longrightarrow>
    save_row m s1 = (err, s2) \<Longrightarrow> on_stores save save_row did s tr s2"

text \<open>The bytes of the last checkpoint a trace wrote, and whether it was accepted.\<close>

definition last_checkpoint :: "event list \<Rightarrow> (bytes \<times> bool) option" where
  "last_checkpoint tr = foldl (\<lambda>a ev. case ev of EvSaveCheckpoint u _ ok \<Rightarrow> Some (u, ok) | _ \<Rightarrow> a) None tr"

lemma last_checkpoint_snoc [simp]:
  "last_checkpoint (tr @ [ev]) = (case ev of EvSaveCheckpoint u _ ok \<Rightarrow> Some (u, ok) | _ \<Rightarrow> last_checkpoint tr)"
  "last_checkpoint [] = None"
  unfolding last_checkpoint_def by (simp_all split: event.split)

lemma last_checkpoint_wrote: "last_checkpoint (wrote tr) = last_checkpoint tr"
proof (induction tr rule: rev_induct)
  case (snoc ev tr)
  then show ?case by (cases ev) simp_all
qed simp

lemma saves_wrote: "saves (wrote tr) = saves tr"
proof -
  have "foldl save_step st (wrote tr) = foldl save_step st tr" for st
  proof (induction tr arbitrary: st)
    case (Cons ev tr)
    then show ?case by (cases ev) (simp_all add: save_step_def)
  qed simp
  then show ?thesis by (simp add: saves_def)
qed

text \<open>
  The two ports over one durable state. \<open>known\<close> are the documents that have a row; a row without a
  pointer leaves every document's checkpoint alone, and no write of a room removes a row.
\<close>

locale durable_store = checkpoint_store save load state_of inv
  for save :: "saveRequest \<Rightarrow> 's \<Rightarrow> (store_error + 64 word) \<times> 's"
    and load :: "document_id \<Rightarrow> 's \<Rightarrow> store_error + checkpoint"
    and state_of :: "'s \<Rightarrow> document_id \<rightharpoonup> bytes"
    and inv :: "'s \<Rightarrow> bool" +
  fixes save_row :: "Metadata \<Rightarrow> 's \<Rightarrow> load_error option \<times> 's"
    and load_row :: "document_id \<Rightarrow> 's \<Rightarrow> load_error + Metadata"
    and known :: "'s \<Rightarrow> document_id set"
  assumes save_known: "inv s \<Longrightarrow> save req s = (res, s') \<Longrightarrow> known s \<subseteq> known s'"
    and row_law: "inv s \<Longrightarrow> metaContentPointer m = '''' \<Longrightarrow> save_row m s = (err, s') \<Longrightarrow>
      inv s' \<and> state_of s' = state_of s \<and> known s \<subseteq> known s' \<and> (err = None \<longrightarrow> metaID m \<in> known s')"
    and row_missing: "inv s \<Longrightarrow> load_row did s = Inl ErrNotFound \<Longrightarrow> did \<notin> known s"
begin

lemma on_stores_state:
  assumes "on_stores save save_row did s tr s'" "inv s"
    and "\<forall>m ok. EvSaveMetadata m ok \<in> set tr \<longrightarrow> metaID m = did \<and> metaContentPointer m = ''''"
  shows "inv s' \<and> (\<forall>u. last_checkpoint tr = Some (u, True) \<longrightarrow> state_of s' did = Some u) \<and>
    ((\<exists>m. EvSaveMetadata m True \<in> set tr) \<longrightarrow> did \<in> known s')"
  using assms
proof (induction rule: on_stores.induct)
  case (os_checkpoint tr s1 u v res s2)
  then have "inv s1" and IH: "(\<exists>m. EvSaveMetadata m True \<in> set tr) \<longrightarrow> did \<in> known s1" by auto
  from save_law [OF this(1) os_checkpoint(2)] save_known [OF this(1) os_checkpoint(2)] IH show ?case
    by (auto simp: spec_save_def room_request_def split: sum.splits)
next
  case (os_row tr s1 m err s2)
  then have "inv s1" "metaContentPointer m = ''''" "metaID m = did"
    and IH: "\<forall>u. last_checkpoint tr = Some (u, True) \<longrightarrow> state_of s1 did = Some u"
      "(\<exists>m. EvSaveMetadata m True \<in> set tr) \<longrightarrow> did \<in> known s1" by auto
  from row_law [OF this(1,2) os_row(2)] this(3) IH show ?case by auto
next
  case (os_event tr s1 ev)
  then show ?case by (cases ev) auto
next
  case (os_other_checkpoint tr s1 req res s2)
  then have "inv s1" and IH: "\<forall>u. last_checkpoint tr = Some (u, True) \<longrightarrow> state_of s1 did = Some u"
      "(\<exists>m. EvSaveMetadata m True \<in> set tr) \<longrightarrow> did \<in> known s1" by auto
  from save_law [OF this(1) os_other_checkpoint(3)] save_known [OF this(1) os_other_checkpoint(3)] IH os_other_checkpoint(2) show ?case
    by (auto simp: spec_save_def split: sum.splits)
next
  case (os_other_row tr s1 m err s2)
  then have "inv s1" and IH: "\<forall>u. last_checkpoint tr = Some (u, True) \<longrightarrow> state_of s1 did = Some u"
      "(\<exists>m. EvSaveMetadata m True \<in> set tr) \<longrightarrow> did \<in> known s1" by auto
  from row_law [OF this(1) os_other_row(3,4)] IH show ?case by auto
qed auto

lemma clean_room_stored:
  assumes run: "room_run e acq r0 go r" and seen: "observer_complete e" and clean: "\<not> dirty r" and some: "saves (trace r) \<noteq> []"
    and stores: "on_stores save save_row (docId r) s (trace r) s'" and inv: "inv s"
  shows "inv s' \<and> state_of s' (docId r) = encode_v2 e (doc r) \<and> encode_v2 e (doc r) \<noteq> None \<and> docId r \<in> known s'"
proof -
  have w: "written_inv (docId r) r" by (rule written_run [OF run])
  have enc: "encode_v2 e (doc r) = Some (last (saves (trace r)))"
    using clean_room_facts [OF run seen] clean some by simp
  from w clean consider "wrote (trace r) = []"
    | pre u v m where "wrote (trace r) = pre @ [EvSaveCheckpoint u v True, EvSaveMetadata m True]"
    by (auto simp: written_inv_def)
  then show ?thesis
  proof cases
    case 1
    then have "saves (trace r) = []" using saves_wrote [of "trace r"] by (simp add: saves_def)
    with some show ?thesis by simp
  next
    case 2
    then have tr: "wrote (trace r) = (pre @ [EvSaveCheckpoint u v True]) @ [EvSaveMetadata m True]" by simp
    have "last_checkpoint (trace r) = Some (u, True)"
      unfolding last_checkpoint_wrote [of "trace r", symmetric] tr by (simp del: append_assoc)
    moreover have "last (saves (trace r)) = u"
      unfolding saves_wrote [of "trace r", symmetric] 2 by (simp add: saves_def save_step_def)
    moreover have "EvSaveMetadata m True \<in> set (trace r)"
    proof -
      have "EvSaveMetadata m True \<in> set (wrote (trace r))" by (simp add: 2)
      then show ?thesis by (simp add: wrote_def)
    qed
    moreover have "\<forall>m ok. EvSaveMetadata m ok \<in> set (trace r) \<longrightarrow> metaID m = docId r \<and> metaContentPointer m = ''''"
      using w by (auto simp: written_inv_def wrote_def)
    ultimately show ?thesis using on_stores_state [OF stores inv] enc by auto
  qed
qed

end

section \<open>Opening the document again\<close>

text \<open>
  What is relied on of go-yjs: two processes with the same library build the same documents, and
  asking for a root type does not change a document's content.
\<close>

definition same_library :: "('d, 'a) env \<Rightarrow> ('d, 'a) env \<Rightarrow> bool" where
  "same_library e e' \<longleftrightarrow> new_doc e' = new_doc e \<and> apply_update_v2 e' = apply_update_v2 e \<and> get_map e' = get_map e \<and>
     get_xml_fragment e' = get_xml_fragment e"

definition roots_neutral :: "('d, 'a) env \<Rightarrow> ('d \<Rightarrow> 'd \<Rightarrow> bool) \<Rightarrow> bool" where
  "roots_neutral e sim \<longleftrightarrow> (\<forall>d d' k. sim d d' \<longrightarrow> sim d (get_map e k d') \<and> sim d (get_xml_fragment e k d'))"

lemma convention_neutral: "roots_neutral e sim \<Longrightarrow> sim d d' \<Longrightarrow> sim d (applyConvention e ct d')"
  by (simp add: roots_neutral_def applyConvention_def)

lemma applyConvention_library: "same_library e e' \<Longrightarrow> applyConvention e' = applyConvention e"
  by (simp add: same_library_def applyConvention_def fun_eq_iff)

lemma opened_from:
  assumes "newRoom e did ct c (Inr meta) (Inr u) AcqOpened subscribed = Inr r1"
  shows "\<exists>d ev ct'. apply_update_v2 e (new_doc e did) u = (d, ev, True) \<and> doc r1 = applyConvention e ct' d"
proof -
  obtain found q1 q2 q3 d n where l: "loadMetadata (Inr meta) (emptyRoom e did ct c) = (Inr found, q1)"
      and o: "openDoc e found (Inr u) q1 = (Inr d, q2)" and s: "initShadow e (q2\<lparr>doc := d\<rparr>) = Some q3"
      and r1: "r1 = q3\<lparr>docBytes := docBytes r1, awareness := awareness r1, lc := stateActive\<rparr>"
    using assms by (rule newRoom_cases) blast
  have "found" "docId q1 = did" using l by (auto simp: loadMetadata_def emptyRoom_def Let_def)
  with o obtain d' ev where "apply_update_v2 e (new_doc e did) u = (d', ev, True)" "d = applyConvention e (content q2) d'"
    by (auto simp: openDoc_def restoreInto_def Let_def split: prod.splits sum.splits option.splits if_splits)
  moreover have "doc r1 = d" by (subst r1, use s in \<open>auto simp: initShadow_def rebuildShadow_def split: if_splits\<close>)
  ultimately show ?thesis by blast
qed

context durable_store
begin

lemma reopened:
  assumes clean: "room_run e acq r0 go r" "observer_complete e" "\<not> dirty r" "saves (trace r) \<noteq> []"
    "on_stores save save_row (docId r) s (trace r) s'" "inv s"
    and library: "crdt_faithful e sim" "roots_neutral e sim" "same_library e e'"
  shows "load_row (docId r) s' \<noteq> Inl ErrNotFound \<and> load (docId r) s' \<noteq> Inl StoreNotFound \<and>
    (newRoom e' (docId r) ct c (load_row (docId r) s') (map_sum room_load_error cpUpdate (load (docId r) s')) AcqOpened True = Inr r1 \<longrightarrow>
       sim (doc r) (doc r1))"
proof -
  note st = clean_room_stored [OF clean]
  have row: "load_row (docId r) s' \<noteq> Inl ErrNotFound" using st row_missing by blast
  have load: "spec_load (docId r) (load (docId r) s') (state_of s')" using load_law st by blast
  then have found: "load (docId r) s' \<noteq> Inl StoreNotFound" using st by (auto simp: spec_load_def)
  have "sim (doc r) (doc r1)"
    if n: "newRoom e' (docId r) ct c (load_row (docId r) s') (map_sum room_load_error cpUpdate (load (docId r) s')) AcqOpened True = Inr r1"
  proof -
    obtain meta where meta: "load_row (docId r) s' = Inr meta"
      using n row by (cases "load_row (docId r) s'") (auto simp: newRoom_def loadMetadata_def)
    obtain cp where cp: "load (docId r) s' = Inr cp"
    proof (cases "load (docId r) s'")
      case (Inl err)
      then have "room_load_error err \<noteq> ErrNotFound" using found by (cases err) auto
      with n meta Inl have False
        by (auto simp: newRoom_def loadMetadata_def openDoc_def restoreInto_def Let_def)
      then show thesis ..
    qed
    have enc: "encode_v2 e (doc r) = Some (cpUpdate cp)" using load cp st by (simp add: spec_load_def)
    obtain d ev ct' where d: "apply_update_v2 e' (new_doc e' (docId r)) (cpUpdate cp) = (d, ev, True)" "doc r1 = applyConvention e' ct' d"
      using opened_from [of e' "docId r" ct c meta "cpUpdate cp" True r1] n meta cp by auto
    have "sim (doc r) d"
      using library(1,3) enc d(1) unfolding crdt_faithful_def same_library_def by metis
    then show ?thesis
      using convention_neutral [OF library(2)] by (simp add: d(2) applyConvention_library [OF library(3)])
  qed
  with row found show ?thesis by blast
qed

end

section \<open>The stores that implement it\<close>

text \<open>An index that also promises its rows: a row without a pointer keeps the recorded one, no save
  removes a row, and not-found is answered only for a document without one.\<close>

locale index_rows = metadata_store mload msave pointers
  for mload :: "document_id \<Rightarrow> 'm \<Rightarrow> load_error + Metadata"
    and msave :: "Metadata \<Rightarrow> 'm \<Rightarrow> load_error option \<times> 'm"
    and pointers :: "'m \<Rightarrow> document_id \<rightharpoonup> string" +
  fixes known_rows :: "'m \<Rightarrow> document_id set"
  assumes rows_missing: "mload did m = Inl ErrNotFound \<Longrightarrow> did \<notin> known_rows m"
    and rows_save: "msave meta m = (err, m') \<Longrightarrow> known_rows m \<subseteq> known_rows m' \<and> (err = None \<longrightarrow> metaID meta \<in> known_rows m')"
    and rows_blank: "msave meta m = (err, m') \<Longrightarrow> metaContentPointer meta = '''' \<Longrightarrow> pointers m' = pointers m"

text \<open>A row saved through the index of the file-service store.\<close>

definition fs_save_row :: "(Metadata \<Rightarrow> 'm \<Rightarrow> load_error option \<times> 'm) \<Rightarrow> Metadata \<Rightarrow> ('f, 'm) fileStore \<Rightarrow>
    load_error option \<times> ('f, 'm) fileStore" where
  "fs_save_row msave meta s = (case msave meta (index s) of (err, m') \<Rightarrow> (err, s\<lparr>index := m'\<rparr>))"

context index_rows
begin

lemma record_rows: "resolver_Record mload msave did p m = (err, m') \<Longrightarrow> known_rows m \<subseteq> known_rows m'"
  by (auto simp: resolver_Record_def Let_def dest: rows_save split: sum.splits if_splits)

lemma fs_durable:
  assumes "file_service_ok fs stored issued"
  shows "durable_store (fs_SaveCheckpoint fs mload msave limit False) (fs_LoadCheckpoint fs mload limit sv False)
    (fs_state pointers stored) (fs_inv pointers issued) (fs_save_row msave) (\<lambda>did s. mload did (index s)) (\<lambda>s. known_rows (index s))"
proof (intro durable_store.intro durable_store_axioms.intro)
  show "checkpoint_store (fs_SaveCheckpoint fs mload msave limit False) (fs_LoadCheckpoint fs mload limit sv False)
      (fs_state pointers stored) (fs_inv pointers issued)"
    by (rule fs_checkpoint_store [OF assms])
next
  fix s s' :: "('a, 'm) fileStore" and req res
  assume "fs_SaveCheckpoint fs mload msave limit False req s = (res, s')"
  then show "known_rows (index s) \<subseteq> known_rows (index s')"
    by (cases rule: fs_SaveCheckpoint_cases) (auto dest: record_rows)
next
  fix s s' :: "('a, 'm) fileStore" and m err
  assume "fs_inv pointers issued s" "metaContentPointer m = ''''" "fs_save_row msave m s = (err, s')"
  moreover from this(3) obtain m' where save: "msave m (index s) = (err, m')" and s': "s' = s\<lparr>index := m'\<rparr>"
    by (auto simp: fs_save_row_def split: prod.splits)
  ultimately have p: "pointers m' = pointers (index s)" "fs_inv pointers issued s" using rows_blank by blast+
  have "fs_state pointers stored s' = fs_state pointers stored s"
    by (rule ext) (simp add: fs_state_def s' p(1) split: option.split)
  then show "fs_inv pointers issued s' \<and> fs_state pointers stored s' = fs_state pointers stored s \<and>
      known_rows (index s) \<subseteq> known_rows (index s') \<and> (err = None \<longrightarrow> metaID m \<in> known_rows (index s'))"
    using rows_save [OF save] p by (simp add: fs_inv_def s')
qed (use rows_missing in auto)

end

lemma mem_Save_blank:
  assumes "mem_Save now meta m = (err, m')" "metaContentPointer meta = ''''"
  shows "row_pointers m' did = row_pointers m did"
  using assms by (cases "did = metaID meta")
    (auto simp: mem_Save_def coalesceBlank_def unblank_def row_pointers_def nonblank_def Let_def split: option.splits)

interpretation mem_rows: index_rows mem_Load "mem_Save now" row_pointers dom for now
  by unfold_locales
    (auto simp: mem_Load_def fun_eq_iff mem_Save_blank, auto simp: mem_Save_def Let_def split: option.splits)

section \<open>The in-process pair\<close>

definition proc_save :: "saveRequest \<Rightarrow> procStore \<times> rows \<Rightarrow> (store_error + 64 word) \<times> procStore \<times> rows" where
  "proc_save req s = (case proc_SaveCheckpoint False req (fst s) of (res, p) \<Rightarrow> (res, p, snd s))"

definition proc_save_row :: "int \<Rightarrow> Metadata \<Rightarrow> procStore \<times> rows \<Rightarrow> load_error option \<times> procStore \<times> rows" where
  "proc_save_row now meta s = (case mem_Save now meta (snd s) of (err, m) \<Rightarrow> (err, fst s, m))"

interpretation inproc: durable_store proc_save "\<lambda>did s. proc_LoadCheckpoint False did (fst s)" "\<lambda>s. blobs (fst s)"
  "\<lambda>s. proc_inv (fst s)" "proc_save_row now" "\<lambda>did s. mem_Load did (snd s)" "\<lambda>s. dom (snd s)" for now
proof unfold_locales
  fix s s' :: "procStore \<times> rows" and req res
  assume i: "proc_inv (fst s)" and "proc_save req s = (res, s')"
  then have "proc_SaveCheckpoint False req (fst s) = (res, fst s')" "snd s' = snd s"
    by (auto simp: proc_save_def split: prod.splits)
  then show "proc_inv (fst s') \<and> spec_save req res (blobs (fst s)) (blobs (fst s'))" "dom (snd s) \<subseteq> dom (snd s')"
    using proc.save_law [OF i] by auto
next
  fix s s' :: "procStore \<times> rows" and m err
  assume i: "proc_inv (fst s)" and "proc_save_row now m s = (err, s')"
  then have "mem_Save now m (snd s) = (err, snd s')" "fst s' = fst s"
    by (auto simp: proc_save_row_def split: prod.splits)
  then show "proc_inv (fst s') \<and> blobs (fst s') = blobs (fst s) \<and> dom (snd s) \<subseteq> dom (snd s') \<and> (err = None \<longrightarrow> metaID m \<in> dom (snd s'))"
    using mem_rows.rows_save i by auto
qed (use proc.load_law mem_rows.rows_missing in auto)

section \<open>The index over the bus\<close>



section \<open>Properties\<close>









end
