(* ===== verification/Router.thy ===== *)
theory Router
  imports Composition
begin

text \<open>
  The HTTP surface: \<^verbatim>\<open>internal/adapter/inbound/http/router.go\<close>, \<^verbatim>\<open>middleware.go\<close>, \<^verbatim>\<open>health.go\<close> and the responses of
  \<^verbatim>\<open>collab_api.go\<close> and \<^verbatim>\<open>ws/handler.go\<close>. A handler is the list of calls it makes on its response writer and
  whether it then panics; the writer of \<^verbatim>\<open>net/http\<close>, which keeps the first status it is given, is modelled
  from its documentation, the status writer of the request log from the source. Parameters stand for the
  third-party parts: how \<^verbatim>\<open>chi\<close> matches a request to the registered routes and recovers from a panic, the
  metrics page, the WebSocket library's answers and the text of JSON objects.
\<close>

section \<open>Response writers\<close>

type_synonym header = "(string \<times> string) list"

datatype wcall = SetHeader string string | DelHeader string | WriteHeader nat | WriteBody string

record writer =
  wHeader :: header
  wSent :: "(nat \<times> header) option"
  wBody :: "string list"

text \<open>An informational status is passed on at once and is not the answer; switching protocols is one.\<close>

definition informational :: "nat \<Rightarrow> bool" where
  "informational code \<longleftrightarrow> 100 \<le> code \<and> code < 200 \<and> code \<noteq> 101"

definition send_status :: "nat \<Rightarrow> writer \<Rightarrow> writer" where
  "send_status code w = (if wSent w \<noteq> None then w else w\<lparr>wSent := Some (code, wHeader w)\<rparr>)"

fun w_call :: "wcall \<Rightarrow> writer \<Rightarrow> writer" where
  "w_call (SetHeader k v) w = w\<lparr>wHeader := AList.update k v (wHeader w)\<rparr>"
| "w_call (DelHeader k) w = w\<lparr>wHeader := AList.delete k (wHeader w)\<rparr>"
| "w_call (WriteHeader code) w = (if informational code then w else send_status code w)"
| "w_call (WriteBody chunk) w = (send_status 200 w)\<lparr>wBody := wBody w @ [chunk]\<rparr>"

text \<open>What the server sends when the handlers have returned.\<close>

definition finish_request :: "writer \<Rightarrow> writer" where
  "finish_request w = send_status 200 w"

record statusWriter =
  swWriter :: writer
  swStatus :: nat

text \<open>\<^verbatim>\<open>statusWriter\<close> overrides \<^verbatim>\<open>WriteHeader\<close> only; every other method is the wrapped writer's.\<close>

fun sw_call :: "wcall \<Rightarrow> statusWriter \<Rightarrow> statusWriter" where
  "sw_call (WriteHeader code) w = w\<lparr>swStatus := code, swWriter := w_call (WriteHeader code) (swWriter w)\<rparr>"
| "sw_call c w = w\<lparr>swWriter := w_call c (swWriter w)\<rparr>"

section \<open>Responses\<close>

definition render_json :: "((string \<times> json) list \<Rightarrow> string) \<Rightarrow> nat \<Rightarrow> (string \<times> json) list \<Rightarrow> wcall list" where
  "render_json encode code ob =
     [SetHeader ''Content-Type'' ''application/json'', WriteHeader code, WriteBody (encode ob @ [CHR 0x0A])]"

definition HealthResponse_Render :: "((string \<times> json) list \<Rightarrow> string) \<Rightarrow> string \<Rightarrow> nat \<Rightarrow> wcall list" where
  "HealthResponse_Render encode status code = render_json encode code [(''status'', JStr status)]"

definition ServeHealthz :: "((string \<times> json) list \<Rightarrow> string) \<Rightarrow> wcall list" where
  "ServeHealthz encode = HealthResponse_Render encode ''ok'' 200"

definition CreateDocumentResponse_Render ::
  "((string \<times> json) list \<Rightarrow> string) \<Rightarrow> document_id \<Rightarrow> string \<Rightarrow> wcall list" where
  "CreateDocumentResponse_Render encode did ct = render_json encode 201 [(''id'', JStr did), (''contentType'', JStr ct)]"

definition ErrorResponse_Render :: "((string \<times> json) list \<Rightarrow> string) \<Rightarrow> string \<Rightarrow> nat \<Rightarrow> wcall list" where
  "ErrorResponse_Render encode message code = render_json encode code [(''error'', JStr message)]"

definition create_calls :: "((string \<times> json) list \<Rightarrow> string) \<Rightarrow> create_response \<Rightarrow> wcall list" where
  "create_calls encode answer =
     (case answer of
        Created did ct \<Rightarrow> CreateDocumentResponse_Render encode did ct
      | CreateError code message \<Rightarrow> ErrorResponse_Render encode message code)"

text \<open>\<^verbatim>\<open>http.Error\<close> of the standard library.\<close>

definition http_Error :: "string \<Rightarrow> nat \<Rightarrow> wcall list" where
  "http_Error message code =
     [DelHeader ''Content-Length'', SetHeader ''Content-Type'' ''text/plain; charset=utf-8'',
      SetHeader ''X-Content-Type-Options'' ''nosniff'', WriteHeader code, WriteBody (message @ [CHR 0x0A])]"

text \<open>The answer to a handshake: a refusal, or whatever the WebSocket library writes.\<close>

definition handshake_calls :: "wcall list \<Rightarrow> handshake \<Rightarrow> wcall list" where
  "handshake_calls accept h = (case h of HttpError code message \<Rightarrow> http_Error message code | _ \<Rightarrow> accept)"

section \<open>Middleware\<close>

record http_request =
  rqMethod :: string
  rqPath :: string
  rqContextID :: "string option"

text \<open>A handler either returns or panics; either way the writer is left as it is.\<close>

datatype 'w outcome = Returned 'w | Panicked 'w

fun outcome_writer :: "'w outcome \<Rightarrow> 'w" where
  "outcome_writer (Returned w) = w"
| "outcome_writer (Panicked w) = w"

definition GetRequestID :: "http_request \<Rightarrow> string" where
  "GetRequestID r = (case rqContextID r of Some rid \<Rightarrow> rid | None \<Rightarrow> '''')"

definition RequestID_middleware :: "string \<Rightarrow> (http_request \<Rightarrow> writer \<Rightarrow> 'x) \<Rightarrow> http_request \<Rightarrow> writer \<Rightarrow> 'x" where
  "RequestID_middleware uuid handler r w = handler (r\<lparr>rqContextID := Some uuid\<rparr>) (w_call (SetHeader ''X-Request-ID'' uuid) w)"

text \<open>A line of the request log, without its duration.\<close>

record log_line =
  lgRequestID :: string
  lgMethod :: string
  lgPath :: string
  lgStatus :: nat

definition is_probe :: "http_request \<Rightarrow> bool" where
  "is_probe r \<longleftrightarrow> rqMethod r = ''GET'' \<and> rqPath r = ''/healthz''"

definition log_request :: "http_request \<Rightarrow> statusWriter \<Rightarrow> log_line list" where
  "log_request r w =
     (if is_probe r then []
      else [\<lparr>lgRequestID = GetRequestID r, lgMethod = rqMethod r, lgPath = rqPath r, lgStatus = swStatus w\<rparr>])"

text \<open>The line is written after the handler has returned, so a panic passes it by.\<close>

definition RequestLogger ::
  "(http_request \<Rightarrow> statusWriter \<Rightarrow> statusWriter outcome) \<Rightarrow> http_request \<Rightarrow> writer \<Rightarrow> writer outcome \<times> log_line list" where
  "RequestLogger handler r w =
     (case handler r \<lparr>swWriter = w, swStatus = 200\<rparr> of
        Returned sw \<Rightarrow> (Returned (swWriter sw), log_request r sw)
      | Panicked sw \<Rightarrow> (Panicked (swWriter sw), []))"

section \<open>The router\<close>

datatype endpoint = Healthz | MetricsPage | CollabSocket | CollabCreate bool

record route =
  rtMethod :: "string option"
  rtPattern :: string
  rtEndpoint :: endpoint

text \<open>
  The routes \<^verbatim>\<open>NewRouter\<close> registers. The create endpoint is there when the composition root supplies one,
  and carries whether it requires a policy.
\<close>

definition NewRouter :: "bool option \<Rightarrow> route list" where
  "NewRouter collabAPI =
     [\<lparr>rtMethod = Some ''GET'', rtPattern = ''/healthz'', rtEndpoint = Healthz\<rparr>,
      \<lparr>rtMethod = None, rtPattern = ''/metrics'', rtEndpoint = MetricsPage\<rparr>,
      \<lparr>rtMethod = Some ''GET'', rtPattern = ''/collab/{documentId}'', rtEndpoint = CollabSocket\<rparr>] @
     (case collabAPI of
        None \<Rightarrow> []
      | Some requirePolicy \<Rightarrow>
          [\<lparr>rtMethod = Some ''POST'', rtPattern = ''/collab/{documentId}'', rtEndpoint = CollabCreate requirePolicy\<rparr>])"

text \<open>
  One request: what the router and the libraries make of it. \<open>page\<close> and \<open>session\<close> say what the metrics page
  and an accepted session did before they returned or panicked.
\<close>

record exchange =
  xMatch :: "route list \<Rightarrow> (endpoint \<times> document_id) option"
  xUnrouted :: "wcall list"
  xPage :: "wcall list \<times> bool"
  xUpgraded :: bool
  xAccept :: "wcall list"
  xSessionPanics :: bool
  xHeader :: "string \<Rightarrow> string"
  xType :: string
  xBody :: "CreateDocumentRequest option"

record 'm surface =
  sfEncode :: "(string \<times> json) list \<Rightarrow> string"
  sfAuthenticate :: "string \<Rightarrow> identity option"
  sfActorIDHeader :: string
  sfReadLimit :: int
  sfSave :: "Metadata \<Rightarrow> 'm \<Rightarrow> load_error option \<times> 'm"

definition socket_handshake :: "'m surface \<Rightarrow> exchange \<Rightarrow> document_id \<Rightarrow> handshake" where
  "socket_handshake sf x did =
     ServeHTTP (sfAuthenticate sf) (sfActorIDHeader sf) (sfReadLimit sf) (xUpgraded x)
       \<lparr>urDocument = did, urHeader = xHeader x, urType = xType x\<rparr>"

text \<open>The calls an endpoint makes, whether it panics, and what it leaves of the index.\<close>

definition endpoint_calls ::
  "'m surface \<Rightarrow> exchange \<Rightarrow> (endpoint \<times> document_id) option \<Rightarrow> 'm \<Rightarrow> (wcall list \<times> bool) \<times> 'm" where
  "endpoint_calls sf x target m =
     (case target of
        None \<Rightarrow> ((xUnrouted x, False), m)
      | Some (Healthz, _) \<Rightarrow> ((ServeHealthz (sfEncode sf), False), m)
      | Some (MetricsPage, _) \<Rightarrow> (xPage x, m)
      | Some (CollabSocket, did) \<Rightarrow>
          (let h = socket_handshake sf x did
           in ((handshake_calls (xAccept x) h,
                case h of Upgraded _ _ _ _ \<Rightarrow> xSessionPanics x | _ \<Rightarrow> False), m))
      | Some (CollabCreate requirePolicy, did) \<Rightarrow>
          (case Create (sfSave sf) requirePolicy did (xBody x) m of
             (answer, m') \<Rightarrow> ((create_calls (sfEncode sf) answer, False), m')))"

definition run_calls :: "wcall list \<times> bool \<Rightarrow> statusWriter \<Rightarrow> statusWriter outcome" where
  "run_calls cs w = (if snd cs then Panicked (fold sw_call (fst cs) w) else Returned (fold sw_call (fst cs) w))"

definition new_writer :: writer where
  "new_writer = \<lparr>wHeader = [], wSent = None, wBody = []\<rparr>"

text \<open>
  A request through the middleware in the order of \<^verbatim>\<open>Use\<close>, recovery outermost: \<open>recoverer\<close> is what \<^verbatim>\<open>chi\<close> makes of the
  writer after a panic.
\<close>

definition serve_request ::
  "'m surface \<Rightarrow> bool option \<Rightarrow> (writer \<Rightarrow> writer) \<Rightarrow> string \<Rightarrow> http_request \<Rightarrow> exchange \<Rightarrow> 'm \<Rightarrow> writer \<times> log_line list \<times> 'm" where
  "serve_request sf collabAPI recoverer uuid r x m =
     (case endpoint_calls sf x (xMatch x (NewRouter collabAPI)) m of
        (cs, m') \<Rightarrow>
          (case RequestID_middleware uuid (RequestLogger (\<lambda>_. run_calls cs)) r new_writer of
             (Returned w, line) \<Rightarrow> (finish_request w, line, m')
           | (Panicked w, line) \<Rightarrow> (finish_request (recoverer w), line, m')))"

end
