(* ===== verification/RouterProperties.thy ===== *)
theory RouterProperties
  imports Router
begin

text \<open>
  What the HTTP surface promises: the request log tells the status and the request id that were sent,
  and a deployment over the bus answers no request by creating a document.
\<close>

section \<open>Writers\<close>

fun is_status :: "wcall \<Rightarrow> bool" where
  "is_status (WriteHeader _) = True"
| "is_status _ = False"

text \<open>
  How a well-behaved handler uses its writer: it leaves the request id alone and gives one status, not an
  informational one, before any of the body, or none at all.
\<close>

fun one_status :: "wcall list \<Rightarrow> bool" where
  "one_status [] = True"
| "one_status (SetHeader k _ # cs) = (k \<noteq> ''X-Request-ID'' \<and> one_status cs)"
| "one_status (DelHeader k # cs) = (k \<noteq> ''X-Request-ID'' \<and> one_status cs)"
| "one_status (WriteHeader code # cs) = (\<not> informational code \<and> \<not> list_ex is_status cs)"
| "one_status (WriteBody _ # cs) = (\<not> list_ex is_status cs)"

definition carries :: "string \<Rightarrow> nat \<times> header \<Rightarrow> bool" where
  "carries rid sent \<longleftrightarrow> map_of (snd sent) ''X-Request-ID'' = Some rid"

text \<open>Once the status is out, calls other than \<^verbatim>\<open>WriteHeader\<close> change neither it nor what was recorded.\<close>

lemma sent_stays:
  assumes "\<not> list_ex is_status cs" "wSent (swWriter w) = Some sent"
  shows "wSent (swWriter (fold sw_call cs w)) = Some sent \<and> swStatus (fold sw_call cs w) = swStatus w"
  using assms
proof (induction cs arbitrary: w)
  case (Cons c cs)
  have "wSent (swWriter (sw_call c w)) = Some sent" "swStatus (sw_call c w) = swStatus w"
    using Cons.prems by (cases c; simp add: send_status_def)+
  with Cons show ?case by simp
qed simp

lemma recorded_is_sent:
  assumes "one_status cs" "wSent (swWriter w) = None" "swStatus w = 200"
    "map_of (wHeader (swWriter w)) ''X-Request-ID'' = Some rid"
  shows "\<exists>h. wSent (finish_request (swWriter (fold sw_call cs w))) = Some (swStatus (fold sw_call cs w), h) \<and>
    carries rid (swStatus (fold sw_call cs w), h)"
  using assms
proof (induction cs arbitrary: w rule: one_status.induct)
  case 1
  then show ?case by (simp add: finish_request_def send_status_def carries_def)
next
  case (2 k v cs)
  then have "wSent (swWriter (sw_call (SetHeader k v) w)) = None" "swStatus (sw_call (SetHeader k v) w) = 200"
    "map_of (wHeader (swWriter (sw_call (SetHeader k v) w))) ''X-Request-ID'' = Some rid" "one_status cs"
    by auto
  from "2.IH" [OF this(4,1,2,3)] show ?case by simp
next
  case (3 k cs)
  then have "wSent (swWriter (sw_call (DelHeader k) w)) = None" "swStatus (sw_call (DelHeader k) w) = 200"
    "map_of (wHeader (swWriter (sw_call (DelHeader k) w))) ''X-Request-ID'' = Some rid" "one_status cs"
    by auto
  from "3.IH" [OF this(4,1,2,3)] show ?case by simp
next
  case (4 code cs)
  have "wSent (swWriter (fold sw_call cs (sw_call (WriteHeader code) w))) = Some (code, wHeader (swWriter w)) \<and>
    swStatus (fold sw_call cs (sw_call (WriteHeader code) w)) = code"
    using sent_stays [of cs "sw_call (WriteHeader code) w"] 4 by (simp add: send_status_def)
  with 4 show ?case by (simp add: finish_request_def send_status_def carries_def)
next
  case (5 chunk cs)
  have "wSent (swWriter (fold sw_call cs (sw_call (WriteBody chunk) w))) = Some (200, wHeader (swWriter w)) \<and>
    swStatus (fold sw_call cs (sw_call (WriteBody chunk) w)) = 200"
    using sent_stays [of cs "sw_call (WriteBody chunk) w"] 5 by (simp add: send_status_def)
  with 5 show ?case by (simp add: finish_request_def send_status_def carries_def)
qed

section \<open>The responses of the service\<close>

lemmas render_defs = render_json_def HealthResponse_Render_def ServeHealthz_def CreateDocumentResponse_Render_def
  ErrorResponse_Render_def http_Error_def

lemma Create_codes: "Create save requirePolicy did body m = (CreateError code message, m') \<Longrightarrow> code = 400 \<or> code = 500"
  by (auto simp: Create_def split: if_splits option.splits prod.splits)

lemma ServeHTTP_codes: "ServeHTTP auth h limit up r = HttpError code message \<Longrightarrow> code = 400 \<or> code = 401"
  by (auto simp: ServeHTTP_def split: if_splits option.splits)

text \<open>What is asked of the parts that are not the service's own.\<close>

definition libraries_ok :: "exchange \<Rightarrow> bool" where
  "libraries_ok x \<longleftrightarrow> one_status (xUnrouted x) \<and> one_status (fst (xPage x)) \<and> one_status (xAccept x)"

lemma endpoint_one_status:
  assumes "libraries_ok x"
  shows "one_status (fst (fst (endpoint_calls sf x target m)))"
proof -
  have created: "one_status (create_calls encode (fst (Create save p did b m)))" for encode save p did b
    using Create_codes [of save p did b m]
    by (cases "Create save p did b m") (auto simp: create_calls_def render_defs informational_def split: create_response.splits)
  have socket: "one_status (handshake_calls (xAccept x) (ServeHTTP a h l u r))" for a h l u r
    using ServeHTTP_codes [of a h l u r] assms
    by (auto simp: handshake_calls_def libraries_ok_def render_defs informational_def split: handshake.splits)
  show ?thesis
    using created socket assms
    by (auto simp: endpoint_calls_def socket_handshake_def libraries_ok_def Let_def render_defs informational_def
        split: option.splits prod.splits endpoint.splits) (metis fst_conv)
qed

text \<open>\<^verbatim>\<open>chi\<close> hands a request only to a route that is registered for its method.\<close>

definition match_ok :: "http_request \<Rightarrow> exchange \<Rightarrow> bool" where
  "match_ok r x \<longleftrightarrow> (\<forall>routes e did. xMatch x routes = Some (e, did) \<longrightarrow>
     (\<exists>rt \<in> set routes. rtEndpoint rt = e \<and> (rtMethod rt = None \<or> rtMethod rt = Some (rqMethod r))))"

lemma bus_never_creates:
  assumes "cfgMetadata conf = MetadataStoreRabbitMQ" "match_ok r x"
    "serve_request sf (create_endpoint conf) recoverer uuid r x m = (w, line, m')"
  shows "m' = m"
proof -
  have "xMatch x (NewRouter None) \<noteq> Some (CollabCreate p, did)" for p did
    using assms(2) by (fastforce simp: match_ok_def NewRouter_def)
  then have "snd (endpoint_calls sf x (xMatch x (NewRouter None)) m) = m"
    by (auto simp: endpoint_calls_def Let_def split: option.splits prod.splits endpoint.splits)
  then show ?thesis using assms(1,3) by (auto simp: serve_request_def create_endpoint_def split: prod.splits outcome.splits)
qed

section \<open>Properties\<close>

text \<open>
  C29: the request log is truthful. A request that is answered without a panic, probes aside, leaves exactly
  one line, whose status is the status the client was sent and whose id is the one in the response's
  \<^verbatim>\<open>X-Request-ID\<close> header, for every endpoint and every outcome of it; a probe leaves none, and neither does a
  request whose handler panicked, because the line is written after the handler has returned.
\<close>

theorem request_log_truthful:
  assumes "libraries_ok x" and "serve_request sf collabAPI recoverer uuid r x m = (w, line, m')"
  shows "(\<not> snd (fst (endpoint_calls sf x (xMatch x (NewRouter collabAPI)) m)) \<longrightarrow>
      (\<exists>code h. wSent w = Some (code, h) \<and> map_of h ''X-Request-ID'' = Some uuid \<and>
         line = (if is_probe r then []
           else [\<lparr>lgRequestID = uuid, lgMethod = rqMethod r, lgPath = rqPath r, lgStatus = code\<rparr>]))) \<and>
    (snd (fst (endpoint_calls sf x (xMatch x (NewRouter collabAPI)) m)) \<longrightarrow> line = [])"
proof -
  obtain cs panics m1 where calls: "endpoint_calls sf x (xMatch x (NewRouter collabAPI)) m = ((cs, panics), m1)"
    by (metis surj_pair)
  define w0 where "w0 = \<lparr>swWriter = w_call (SetHeader ''X-Request-ID'' uuid) new_writer, swStatus = 200\<rparr>"
  have "one_status cs" using endpoint_one_status [OF assms(1), of sf "xMatch x (NewRouter collabAPI)" m] calls by simp
  from recorded_is_sent [OF this, of w0 uuid]
  obtain h where "wSent (finish_request (swWriter (fold sw_call cs w0))) = Some (swStatus (fold sw_call cs w0), h)"
    "map_of h ''X-Request-ID'' = Some uuid"
    by (auto simp: w0_def new_writer_def carries_def)
  with assms(2) calls show ?thesis
    by (auto simp: serve_request_def RequestID_middleware_def RequestLogger_def run_calls_def log_request_def GetRequestID_def is_probe_def w0_def)
qed

definition sample_surface :: "(document_id \<rightharpoonup> Metadata) surface" where
  "sample_surface = \<lparr>sfEncode = (\<lambda>ob. ''{}''), sfAuthenticate = open_Authenticate, sfActorIDHeader = '''', sfReadLimit = 0,
     sfSave = mem_Save 7\<rparr>"

definition sample_exchange :: exchange where
  "sample_exchange = \<lparr>xMatch = (\<lambda>routes. Some (CollabCreate True, ''doc'')), xUnrouted = [WriteHeader 404],
     xPage = ([WriteBody ''metrics''], False), xUpgraded = True, xAccept = [SetHeader ''Upgrade'' ''websocket'', WriteHeader 101],
     xSessionPanics = False, xHeader = (\<lambda>k. ''''), xType = '''',
     xBody = Some \<lparr>crContentType = '''', crOwnerRef = '''', crAuthorizationPolicyID = '''', crStorageBucketID = ''''\<rparr>\<rparr>"

definition sample_post :: http_request where
  "sample_post = \<lparr>rqMethod = ''POST'', rqPath = ''/collab/doc'', rqContextID = None\<rparr>"

theorem request_log_truthful_witness:
  "fst (snd (serve_request sample_surface (Some True) (\<lambda>w. w) ''id'' sample_post sample_exchange Map.empty)) =
     [\<lparr>lgRequestID = ''id'', lgMethod = ''POST'', lgPath = ''/collab/doc'', lgStatus = 400\<rparr>] \<and>
   fst (the (wSent (fst (serve_request sample_surface (Some True) (\<lambda>w. w) ''id'' sample_post sample_exchange Map.empty)))) = 400"
proof -
  have ok: "libraries_ok sample_exchange" by code_simp
  have calls: "\<not> snd (fst (endpoint_calls sample_surface sample_exchange
      (xMatch sample_exchange (NewRouter (Some True))) Map.empty))"
    by code_simp
  have code: "fst (the (wSent (fst (serve_request sample_surface (Some True) (\<lambda>w. w) ''id'' sample_post sample_exchange Map.empty)))) = 400"
    by code_simp
  from request_log_truthful [OF ok, of sample_surface "Some True" "\<lambda>w. w" "''id''" sample_post Map.empty] calls code
  show ?thesis by (auto simp: sample_post_def is_probe_def split: prod.splits) (metis fst_conv option.sel prod.exhaust_sel)
qed

end
