(* ===== verification/DocRegistry.thy ===== *)
theory DocRegistry
  imports RoomLoop
begin

text \<open>
  The rooms as holders of documents in the shared registry (\<^verbatim>\<open>newRoom\<close>, \<^verbatim>\<open>teardown\<close>, \<^verbatim>\<open>releaseHandle\<close> and
  \<^verbatim>\<open>evictFromRegistry\<close> of \<^verbatim>\<open>room.go\<close>). The registry is the CRDT core's: a parameter with what its contract says
  of acquisition, release and eviction. A room releases its handle and evicts in two steps, so that other
  rooms acquire and release the same document in between.
\<close>

section \<open>The registry\<close>

datatype evict_result = Evicted | EvictInUse | EvictFailed

text \<open>
  \<open>rgOut\<close> are the handles that are out, \<open>rgResident\<close> the documents kept in memory; the code sees neither. An
  acquisition that fails (the registry is closed, or the document could not be opened) yields no handle.
\<close>

record ('h, 'g) registry =
  rgAcquire :: "document_id \<Rightarrow> 'g \<Rightarrow> 'h option \<times> 'g"
  rgRelease :: "'h \<Rightarrow> 'g \<Rightarrow> 'g"
  rgEvict :: "document_id \<Rightarrow> 'g \<Rightarrow> evict_result \<times> 'g"
  rgOut :: "'g \<Rightarrow> ('h \<times> document_id) set"
  rgResident :: "'g \<Rightarrow> document_id set"

definition acquire_ok :: "('h, 'g) registry \<Rightarrow> bool" where
  "acquire_ok rg \<longleftrightarrow> (\<forall>did s handle s'. rgAcquire rg did s = (handle, s') \<longrightarrow>
     (handle = None \<longrightarrow> rgOut rg s' = rgOut rg s \<and> rgResident rg s' = rgResident rg s) \<and>
     (\<forall>h. handle = Some h \<longrightarrow> h \<notin> fst ` rgOut rg s \<and> rgOut rg s' = insert (h, did) (rgOut rg s) \<and>
        rgResident rg s' = insert did (rgResident rg s)))"

definition release_ok :: "('h, 'g) registry \<Rightarrow> bool" where
  "release_ok rg \<longleftrightarrow> (\<forall>h s. rgOut rg (rgRelease rg h s) = {x \<in> rgOut rg s. fst x \<noteq> h} \<and>
     rgResident rg (rgRelease rg h s) = rgResident rg s)"

definition evict_ok :: "('h, 'g) registry \<Rightarrow> bool" where
  "evict_ok rg \<longleftrightarrow> (\<forall>did s res s'. rgEvict rg did s = (res, s') \<longrightarrow>
     rgOut rg s' = rgOut rg s \<and>
     (res = EvictInUse \<longleftrightarrow> did \<in> snd ` rgOut rg s) \<and>
     rgResident rg s' = (if res = Evicted then rgResident rg s - {did} else rgResident rg s))"

definition registry_ok :: "('h, 'g) registry \<Rightarrow> bool" where
  "registry_ok rg \<longleftrightarrow> acquire_ok rg \<and> release_ok rg \<and> evict_ok rg"

section \<open>What a room does with its handle\<close>

text \<open>The second component says whether the room warned that the document stays resident.\<close>

definition evictFromRegistry :: "('h, 'g) registry \<Rightarrow> document_id \<Rightarrow> 'g \<Rightarrow> 'g \<times> bool" where
  "evictFromRegistry rg did s =
     (case rgEvict rg did s of
        (Evicted, s') \<Rightarrow> (s', False)
      | (EvictInUse, s') \<Rightarrow> (s', False)
      | (EvictFailed, s') \<Rightarrow> (s', True))"

definition releaseHandle :: "('h, 'g) registry \<Rightarrow> document_id \<Rightarrow> 'h option \<Rightarrow> 'g \<Rightarrow> 'g \<times> bool" where
  "releaseHandle rg did handle s =
     (case handle of None \<Rightarrow> (s, False) | Some h \<Rightarrow> evictFromRegistry rg did (rgRelease rg h s))"

text \<open>\<^verbatim>\<open>newRoom\<close> from the moment it holds a handle: a failure from here on gives the handle back.\<close>

definition attach_or_release ::
  "('h, 'g) registry \<Rightarrow> ('d, 'a) env \<Rightarrow> bool \<Rightarrow> bool \<Rightarrow> 'd \<Rightarrow> ('d, 'a) room \<Rightarrow> 'h \<Rightarrow> 'g \<Rightarrow>
     (room_error + ('d, 'a) room) \<times> 'g \<times> bool" where
  "attach_or_release rg e opened subscribed d r h s =
     (case attachRoom e opened subscribed d r of
        Inl err \<Rightarrow> (Inl err, releaseHandle rg (docId r) (Some h) s)
      | Inr r' \<Rightarrow> (Inr r', s, False))"

text \<open>
  A room's share in the registry: it holds a handle, has released it and is about to evict, or has nothing to
  do with the registry any more. A room whose materialization failed after the acquisition releases like one
  that is torn down.
\<close>

datatype 'h holding = Holding 'h | Evicting | Gone

record ('h, 'g) registry_sys =
  rsRooms :: "(document_id \<times> 'h holding) list"
  rsRegistry :: 'g
  rsWarned :: "document_id set"

definition registry_acquire :: "('h, 'g) registry \<Rightarrow> document_id \<Rightarrow> ('h, 'g) registry_sys \<Rightarrow> ('h, 'g) registry_sys" where
  "registry_acquire rg did s =
     (case rgAcquire rg did (rsRegistry s) of
        (None, g) \<Rightarrow> s\<lparr>rsRooms := rsRooms s @ [(did, Gone)], rsRegistry := g\<rparr>
      | (Some h, g) \<Rightarrow> s\<lparr>rsRooms := rsRooms s @ [(did, Holding h)], rsRegistry := g\<rparr>)"

text \<open>The two halves of \<^verbatim>\<open>releaseHandle\<close>.\<close>

definition release_begin :: "('h, 'g) registry \<Rightarrow> nat \<Rightarrow> ('h, 'g) registry_sys \<Rightarrow> ('h, 'g) registry_sys" where
  "release_begin rg i s =
     (case rsRooms s ! i of
        (did, Holding h) \<Rightarrow> s\<lparr>rsRooms := (rsRooms s)[i := (did, Evicting)], rsRegistry := rgRelease rg h (rsRegistry s)\<rparr>
      | _ \<Rightarrow> s)"

definition release_end :: "('h, 'g) registry \<Rightarrow> nat \<Rightarrow> ('h, 'g) registry_sys \<Rightarrow> ('h, 'g) registry_sys" where
  "release_end rg i s =
     (case rsRooms s ! i of
        (did, Evicting) \<Rightarrow>
          (case evictFromRegistry rg did (rsRegistry s) of
             (g, warned) \<Rightarrow> s\<lparr>rsRooms := (rsRooms s)[i := (did, Gone)], rsRegistry := g,
               rsWarned := (if warned then insert did (rsWarned s) else rsWarned s)\<rparr>)
      | _ \<Rightarrow> s)"

text \<open>Without a step of another room in between they are \<^verbatim>\<open>releaseHandle\<close>.\<close>

lemma release_steps:
  assumes "i < length (rsRooms s)" "rsRooms s ! i = (did, Holding h)"
  shows "rsRegistry (release_end rg i (release_begin rg i s)) = fst (releaseHandle rg did (Some h) (rsRegistry s))"
  using assms by (simp add: release_begin_def release_end_def releaseHandle_def split: prod.split)

inductive registry_reach :: "('h, 'g) registry \<Rightarrow> 'g \<Rightarrow> ('h, 'g) registry_sys \<Rightarrow> bool" for rg g0 where
  registry_start: "registry_reach rg g0 \<lparr>rsRooms = [], rsRegistry = g0, rsWarned = {}\<rparr>"
| registry_open: "registry_reach rg g0 s \<Longrightarrow> registry_reach rg g0 (registry_acquire rg did s)"
| registry_release: "registry_reach rg g0 s \<Longrightarrow> i < length (rsRooms s) \<Longrightarrow> registry_reach rg g0 (release_begin rg i s)"
| registry_evict: "registry_reach rg g0 s \<Longrightarrow> i < length (rsRooms s) \<Longrightarrow> registry_reach rg g0 (release_end rg i s)"

section \<open>The invariant\<close>

definition holders :: "(document_id \<times> 'h holding) list \<Rightarrow> ('h \<times> document_id) set" where
  "holders rooms = {(h, did) | h did. (did, Holding h) \<in> set rooms}"

fun handles :: "(document_id \<times> 'h holding) list \<Rightarrow> 'h list" where
  "handles [] = []"
| "handles ((did, Holding h) # rooms) = h # handles rooms"
| "handles (_ # rooms) = handles rooms"

definition registry_inv :: "('h, 'g) registry \<Rightarrow> ('h, 'g) registry_sys \<Rightarrow> bool" where
  "registry_inv rg s \<longleftrightarrow>
     rgOut rg (rsRegistry s) = holders (rsRooms s) \<and> distinct (handles (rsRooms s)) \<and>
     snd ` holders (rsRooms s) \<subseteq> rgResident rg (rsRegistry s) \<and>
     rgResident rg (rsRegistry s) \<subseteq> snd ` holders (rsRooms s) \<union> {did. (did, Evicting) \<in> set (rsRooms s)} \<union> rsWarned s"

lemma holders_simps [simp]:
  "holders [] = {}"
  "holders ((did, Holding h) # rooms) = insert (h, did) (holders rooms)"
  "holders ((did, Evicting) # rooms) = holders rooms"
  "holders ((did, Gone) # rooms) = holders rooms"
  "holders (rooms @ rooms') = holders rooms \<union> holders rooms'"
  by (auto simp: holders_def)

lemma handles_append [simp]: "handles (rooms @ rooms') = handles rooms @ handles rooms'"
  by (induction rooms rule: handles.induct) auto

lemma set_handles: "set (handles rooms) = fst ` holders rooms"
  by (induction rooms rule: handles.induct) auto

text \<open>The room that takes a step, and the others.\<close>

lemma room_at:
  assumes "i < length rooms"
  obtains before after where "rooms = before @ rooms ! i # after" "\<And>room. rooms[i := room] = before @ room # after"
proof -
  have "rooms = take i rooms @ rooms ! i # drop (Suc i) rooms" using assms by (rule id_take_nth_drop)
  moreover have "rooms[i := room] = take i rooms @ room # drop (Suc i) rooms" for room
    using assms by (rule upd_conv_take_nth_drop)
  ultimately show thesis using that by blast
qed

lemma inv_acquire:
  assumes "registry_ok rg" "registry_inv rg s"
  shows "registry_inv rg (registry_acquire rg did s)"
proof -
  obtain handle g where a: "rgAcquire rg did (rsRegistry s) = (handle, g)" by fastforce
  show ?thesis
  proof (cases handle)
    case None
    then have "rgOut rg g = rgOut rg (rsRegistry s)" "rgResident rg g = rgResident rg (rsRegistry s)"
      using assms(1) a unfolding registry_ok_def acquire_ok_def by blast+
    then show ?thesis using assms(2) a None by (auto simp: registry_inv_def registry_acquire_def)
  next
    case (Some h)
    then have new: "h \<notin> fst ` rgOut rg (rsRegistry s)" "rgOut rg g = insert (h, did) (rgOut rg (rsRegistry s))"
      "rgResident rg g = insert did (rgResident rg (rsRegistry s))"
      using assms(1) a unfolding registry_ok_def acquire_ok_def by blast+
    then show ?thesis using assms(2) a Some by (auto simp: registry_inv_def registry_acquire_def set_handles)
  qed
qed

lemma inv_release:
  assumes "registry_ok rg" "registry_inv rg s" "i < length (rsRooms s)"
  shows "registry_inv rg (release_begin rg i s)"
proof (cases "\<exists>did h. rsRooms s ! i = (did, Holding h)")
  case True
  then obtain did h before after where at: "rsRooms s ! i = (did, Holding h)"
    and rooms: "rsRooms s = before @ (did, Holding h) # after" "(rsRooms s)[i := (did, Evicting)] = before @ (did, Evicting) # after"
    by (metis room_at [OF assms(3)])
  have out: "rgOut rg (rgRelease rg h (rsRegistry s)) = {x \<in> rgOut rg (rsRegistry s). fst x \<noteq> h}"
    "rgResident rg (rgRelease rg h (rsRegistry s)) = rgResident rg (rsRegistry s)"
    using assms(1) unfolding registry_ok_def release_ok_def by blast+
  have fresh: "h \<notin> fst ` holders before" "h \<notin> fst ` holders after" "distinct (handles before @ handles after)"
    using assms(2) rooms(1) by (auto simp: registry_inv_def set_handles)
  then have "{x \<in> holders (rsRooms s). fst x \<noteq> h} = holders before \<union> holders after" using rooms(1) by force
  with out assms(2) have "rgOut rg (rgRelease rg h (rsRegistry s)) = holders before \<union> holders after"
    by (simp add: registry_inv_def)
  with out(2) at fresh rooms assms(2) show ?thesis by (auto simp: registry_inv_def release_begin_def)
qed (auto simp: release_begin_def assms(2) split: prod.splits holding.splits)

lemma inv_evict:
  assumes "registry_ok rg" "registry_inv rg s" "i < length (rsRooms s)"
  shows "registry_inv rg (release_end rg i s)"
proof (cases "\<exists>did. rsRooms s ! i = (did, Evicting)")
  case True
  then obtain did before after where at: "rsRooms s ! i = (did, Evicting)"
    and rooms: "rsRooms s = before @ (did, Evicting) # after" "(rsRooms s)[i := (did, Gone)] = before @ (did, Gone) # after"
    by (metis room_at [OF assms(3)])
  obtain res g where e: "rgEvict rg did (rsRegistry s) = (res, g)" by fastforce
  have ev: "rgOut rg g = rgOut rg (rsRegistry s)" "res = EvictInUse \<longleftrightarrow> did \<in> snd ` rgOut rg (rsRegistry s)"
    "rgResident rg g = (if res = Evicted then rgResident rg (rsRegistry s) - {did} else rgResident rg (rsRegistry s))"
    using assms(1) e unfolding registry_ok_def evict_ok_def by blast+
  have sys: "release_end rg i s = s\<lparr>rsRooms := (rsRooms s)[i := (did, Gone)], rsRegistry := g,
      rsWarned := (if res = EvictFailed then insert did (rsWarned s) else rsWarned s)\<rparr>"
    using at e by (cases res) (simp_all add: release_end_def evictFromRegistry_def)
  have inv: "rgOut rg (rsRegistry s) = holders before \<union> holders after" "distinct (handles before @ handles after)"
    "snd ` (holders before \<union> holders after) \<subseteq> rgResident rg (rsRegistry s)"
    "rgResident rg (rsRegistry s) \<subseteq> snd ` (holders before \<union> holders after) \<union>
       insert did {d. (d, Evicting) \<in> set before \<union> set after} \<union> rsWarned s"
    using assms(2) rooms(1) by (auto simp: registry_inv_def)
  show ?thesis
  proof (cases res)
    case Evicted
    then have "did \<notin> snd ` (holders before \<union> holders after)" using ev(2) inv(1) by auto
    with Evicted sys ev inv rooms(2) show ?thesis by (auto simp: registry_inv_def)
  next
    case EvictInUse
    then have "did \<in> snd ` (holders before \<union> holders after)" using ev(2) inv(1) by auto
    with EvictInUse sys ev inv rooms(2) show ?thesis by (auto simp: registry_inv_def)
  next
    case EvictFailed
    with sys ev inv rooms(2) show ?thesis by (auto simp: registry_inv_def)
  qed
qed (auto simp: release_end_def assms(2) split: prod.splits holding.splits)

lemma registry_reach_inv:
  assumes "registry_reach rg g0 s" "registry_ok rg" "rgOut rg g0 = {}" "rgResident rg g0 = {}"
  shows "registry_inv rg s"
  using assms(1)
proof induction
  case registry_start
  then show ?case using assms(3,4) by (simp add: registry_inv_def)
qed (simp_all add: assms(2) inv_acquire inv_release inv_evict)

section \<open>Properties\<close>

text \<open>
  C28: the registry neither loses nor leaks a document. In every interleaving of rooms that acquire, release and
  evict, a document that some room holds is resident, so no room works on a document that was evicted under
  it, and a resident document is held by a room, is about to be evicted by a room that released it, or its
  eviction failed with a warning: when every room is gone without a warning, nothing stays in memory.
\<close>

theorem registry_neither_loses_nor_leaks:
  assumes "registry_reach rg g0 s" and "registry_ok rg" and "rgOut rg g0 = {}" and "rgResident rg g0 = {}"
  shows "((did, Holding h) \<in> set (rsRooms s) \<longrightarrow> did \<in> rgResident rg (rsRegistry s)) \<and>
    (did \<in> rgResident rg (rsRegistry s) \<longrightarrow>
       (\<exists>h. (did, Holding h) \<in> set (rsRooms s)) \<or> (did, Evicting) \<in> set (rsRooms s) \<or> did \<in> rsWarned s) \<and>
    ((\<forall>room \<in> set (rsRooms s). snd room = Gone) \<and> rsWarned s = {} \<longrightarrow> rgResident rg (rsRegistry s) = {})"
proof -
  have inv: "registry_inv rg s" by (rule registry_reach_inv [OF assms])
  have holder: "did \<in> snd ` holders rooms \<longleftrightarrow> (\<exists>h. (did, Holding h) \<in> set rooms)"
    for did and rooms :: "(document_id \<times> 'a holding) list"
    by (auto simp: holders_def image_iff)
  have kept: "did \<in> rgResident rg (rsRegistry s)" if "(did, Holding h) \<in> set (rsRooms s)"
    using inv that holder [of did "rsRooms s"] unfolding registry_inv_def by blast
  have resident: "(\<exists>h. (did, Holding h) \<in> set (rsRooms s)) \<or> (did, Evicting) \<in> set (rsRooms s) \<or> did \<in> rsWarned s"
    if "did \<in> rgResident rg (rsRegistry s)" for did
    using inv that holder [of did "rsRooms s"] unfolding registry_inv_def by blast
  have "rgResident rg (rsRegistry s) = {}" if gone: "\<forall>room \<in> set (rsRooms s). snd room = Gone" and "rsWarned s = {}"
  proof -
    have "(did, Holding h) \<notin> set (rsRooms s)" "(did, Evicting) \<notin> set (rsRooms s)" for did h
      using gone by fastforce+
    with resident that(2) show ?thesis by auto
  qed
  then show ?thesis using kept resident by (intro conjI impI) blast+
qed

text \<open>A registry that meets the contract: handles are numbered, and a document is kept until it is evicted.\<close>

definition sample_registry :: "(nat, (nat \<times> document_id) list \<times> document_id list) registry" where
  "sample_registry = \<lparr>
     rgAcquire = (\<lambda>did (out, docs). (Some (Suc (fold max (map fst out) 0)), ((Suc (fold max (map fst out) 0), did) # out, did # docs))),
     rgRelease = (\<lambda>h (out, docs). (filter (\<lambda>x. fst x \<noteq> h) out, docs)),
     rgEvict = (\<lambda>did (out, docs). if list_ex (\<lambda>x. snd x = did) out then (EvictInUse, (out, docs))
        else (Evicted, (out, filter (\<lambda>d. d \<noteq> did) docs))),
     rgOut = (\<lambda>(out, docs). set out),
     rgResident = (\<lambda>(out, docs). set docs)\<rparr>"

lemma sample_registry_ok: "registry_ok sample_registry"
proof -
  have below: "fst x \<le> fold max (map fst out) 0" if "x \<in> set out" for x and out :: "(nat \<times> document_id) list"
    using that Max.set_eq_fold [of 0 "map fst out"] by (metis Max_ge List.finite_set image_eqI list.set_map list.simps(15) insertCI)
  have "Suc (fold max (map fst out) 0) \<notin> fst ` set out" for out :: "(nat \<times> document_id) list"
    using below by (fastforce simp: image_iff)
  then have "acquire_ok sample_registry" by (auto simp: acquire_ok_def sample_registry_def)
  moreover have "release_ok sample_registry" by (auto simp: release_ok_def sample_registry_def)
  moreover have "evict_ok sample_registry"
    by (auto simp: evict_ok_def sample_registry_def list_ex_iff image_iff split: if_splits)
  ultimately show ?thesis by (simp add: registry_ok_def)
qed

text \<open>Two rooms open a document; the first one's eviction finds it in use, the second one's empties the registry.\<close>

definition sample_releases :: "(nat, (nat \<times> document_id) list \<times> document_id list) registry_sys" where
  "sample_releases = release_end sample_registry 1 (release_begin sample_registry 1
     (release_end sample_registry 0 (release_begin sample_registry 0
     (registry_acquire sample_registry ''doc'' (registry_acquire sample_registry ''doc''
        \<lparr>rsRooms = [], rsRegistry = ([], []), rsWarned = {}\<rparr>)))))"

lemma sample_releases_eval:
  "map snd (rsRooms sample_releases) = [Gone, Gone]" "rsWarned sample_releases = {}"
  by (simp_all add: sample_releases_def sample_registry_def registry_acquire_def release_begin_def release_end_def evictFromRegistry_def)

lemma sample_releases_reached: "registry_reach sample_registry ([], []) sample_releases"
  unfolding sample_releases_def
  by (intro registry_reach.intros)
    (simp_all add: sample_registry_def registry_acquire_def release_begin_def release_end_def evictFromRegistry_def)

theorem registry_neither_loses_nor_leaks_witness:
  "registry_reach sample_registry ([], []) sample_releases \<and> length (rsRooms sample_releases) = 2 \<and>
   rgResident sample_registry (rsRegistry sample_releases) = {}"
proof -
  have "set (map snd (rsRooms sample_releases)) \<subseteq> {Gone}" by (simp add: sample_releases_eval(1))
  then have "\<forall>room \<in> set (rsRooms sample_releases). snd room = Gone" by auto
  then have "rgResident sample_registry (rsRegistry sample_releases) = {}"
    using registry_neither_loses_nor_leaks [OF sample_releases_reached sample_registry_ok] sample_releases_eval(2)
    by (simp add: sample_registry_def)
  moreover have "length (rsRooms sample_releases) = 2" using arg_cong [OF sample_releases_eval(1), of length] by simp
  ultimately show ?thesis using sample_releases_reached by blast
qed

end
