(* ===== verification/Spec2Isabelle.thy ===== *)
theory Spec2Isabelle
  imports ManagerProperties StoreProperties HubProperties RpcProperties AccessProperties CompositionProperties ConsumerProperties
    MetricsProperties Recovery RouterProperties DocRegistry
begin

text \<open>
  A model of the collaboration service: WebSocket clients edit shared Yjs documents, a room per
  document serializes their frames, stores keep the result, a Redis hub connects the rooms of several
  pods, and RabbitMQ carries the document index and the delete events. The Go sources are under
  \<^verbatim>\<open>src/internal\<close>; file names below are relative to it.

  \<^bold>\<open>Parts and theories.\<close>

  \<^item> \<^verbatim>\<open>Prelude\<close>: bytes, identifiers, association lists as the model of Go maps that are ranged over.
  \<^item> \<^verbatim>\<open>Control\<close>: \<^verbatim>\<open>domain/model\<close> (control messages, session ends, metadata).
  \<^item> \<^verbatim>\<open>Lifecycle\<close>: \<^verbatim>\<open>domain/service/lifecycle_state.go\<close>, with concurrent callers as threads.
  \<^item> \<^verbatim>\<open>TokenBucket\<close>: \<^verbatim>\<open>domain/service/limits.go\<close>.
  \<^item> \<^verbatim>\<open>Locator\<close>: \<^verbatim>\<open>domain/service/assets_schema.go\<close>.
  \<^item> \<^verbatim>\<open>RoomState\<close>, \<^verbatim>\<open>RoomCascade\<close>: the room's record, its members, sends, broadcasts and drops
    (\<^verbatim>\<open>room.go\<close>, \<^verbatim>\<open>presence.go\<close>). A failed send drops a member, which broadcasts, which may drop
    another: the recursion runs on fuel, and any fuel above the number of members gives the same
    result (\<open>drop_cascade_terminates\<close>).
  \<^item> \<^verbatim>\<open>RoomDurability\<close>: barriers, persistence, retries, escalation, contributions, teardown
    (\<^verbatim>\<open>room.go\<close>, \<^verbatim>\<open>flush.go\<close>, \<^verbatim>\<open>presence.go\<close>).
  \<^item> \<^verbatim>\<open>RoomSync\<close>: the guarded apply with its shadow document, sync, awareness, frame routing
    (\<^verbatim>\<open>room.go\<close>, \<^verbatim>\<open>sync.go\<close>, \<^verbatim>\<open>awareness_wire.go\<close>).
  \<^item> \<^verbatim>\<open>RoomLoop\<close>: commands, timers and panics of the event loop, enqueueing, and the opening of a room
    (\<^verbatim>\<open>room.go\<close>, \<^verbatim>\<open>convention.go\<close>).
  \<^item> \<^verbatim>\<open>RoomFrames\<close>, \<^verbatim>\<open>RoomInvariant\<close>, \<^verbatim>\<open>RoomSafety\<close>, \<^verbatim>\<open>RoomContent\<close>: what each handler leaves unchanged,
    and the invariants of a run, proved once in locales over "a predicate every handler keeps" and
    interpreted for each invariant. \<^verbatim>\<open>RoomBarriers\<close>, \<^verbatim>\<open>RoomTraffic\<close>, \<^verbatim>\<open>RoomProperties\<close> hold the
    resulting properties, \<^verbatim>\<open>RoomProgress\<close> what a room that serves for ever owes to unsaved edits,
    \<^verbatim>\<open>Sample\<close> the concrete rooms of the witnesses.
  \<^item> \<^verbatim>\<open>Metrics\<close>, \<^verbatim>\<open>MetricsProperties\<close>: \<^verbatim>\<open>adapter/inbound/http/metrics.go\<close>, the hooks as operations on a
    record of collectors, and the degraded-durability gauges against the rooms that report to them.
  \<^item> \<^verbatim>\<open>Manager\<close>, \<^verbatim>\<open>ManagerSystem\<close>, \<^verbatim>\<open>ManagerSafety\<close>, \<^verbatim>\<open>ManagerProperties\<close>: \<^verbatim>\<open>domain/service/manager.go\<close>.
    Every locked section is a step; joins, deletes, timers, room loops and shutdown interleave freely.
  \<^item> \<^verbatim>\<open>WsConn\<close>: \<^verbatim>\<open>adapter/inbound/ws/conn.go\<close>, senders and the writer as threads.
  \<^item> \<^verbatim>\<open>Access\<close>, \<^verbatim>\<open>AccessProperties\<close>: the way in, \<^verbatim>\<open>adapter/inbound/ws/handler.go\<close>,
    \<^verbatim>\<open>adapter/inbound/http/collab_api.go\<close>, \<^verbatim>\<open>adapter/outbound/auth\<close>.
  \<^item> \<^verbatim>\<open>Stores\<close>, \<^verbatim>\<open>RmqStore\<close>, \<^verbatim>\<open>StoreProperties\<close>: the metadata stores (\<^verbatim>\<open>metadatastore/inmemory\<close>,
    \<^verbatim>\<open>metadatastore/rabbitmq/store.go\<close>) and the checkpoint stores (\<^verbatim>\<open>persistence\<close>).
  \<^item> \<^verbatim>\<open>Recovery\<close>: rooms composed with the stores, from the saves of one room to the opening of the next. The
    trace of a run is replayed on the stores (\<open>on_stores\<close>) while rooms of other documents write.
  \<^item> \<^verbatim>\<open>DocRegistry\<close>: the handles rooms hold on the shared document registry (\<^verbatim>\<open>room.go\<close>).
  \<^item> \<^verbatim>\<open>Attachment\<close>, \<^verbatim>\<open>RpcClient\<close>, \<^verbatim>\<open>RpcProperties\<close>: \<^verbatim>\<open>metadatastore/rabbitmq/conn.go\<close>.
  \<^item> \<^verbatim>\<open>Consumer\<close>, \<^verbatim>\<open>ConsumerProperties\<close>: \<^verbatim>\<open>adapter/inbound/lifecycle\<close>, whose supervisor is the one of
    \<^verbatim>\<open>Attachment\<close>.
  \<^item> \<^verbatim>\<open>Config\<close>, \<^verbatim>\<open>Composition\<close>, \<^verbatim>\<open>CompositionProperties\<close>: \<^verbatim>\<open>config/config.go\<close>, \<^verbatim>\<open>app/app.go\<close>,
    \<^verbatim>\<open>cmd/server/main.go\<close> and \<^verbatim>\<open>cmd/server/app.go\<close>.
  \<^item> \<^verbatim>\<open>Router\<close>, \<^verbatim>\<open>RouterProperties\<close>: \<^verbatim>\<open>router.go\<close>, \<^verbatim>\<open>middleware.go\<close> and \<^verbatim>\<open>health.go\<close> of
    \<^verbatim>\<open>adapter/inbound/http\<close>. A handler is the list of calls it makes on its response writer.
  \<^item> \<^verbatim>\<open>Hub\<close>, \<^verbatim>\<open>HubProperties\<close>: \<^verbatim>\<open>adapter/outbound/hub/redis/hub.go\<close>.

  \<^bold>\<open>How state and effects are modelled.\<close> A struct is a record, an operation a function from state to
  state and result, an error a value. What the code sends, saves or reports is appended to a trace in
  the room's record, so that properties speak about order. Concurrency is a step relation whose steps
  are the locked sections and channel operations of the code; its reachable states are those of every
  schedule. The order in which Go ranges over a map is a parameter wherever it matters. The CRDT
  library is a record of functions with the laws the proofs need as named hypotheses, and so are
  file-service, the server behind the bus, JSON decoding and UUID parsing; each witness instantiates
  them with concrete functions.

  \<^bold>\<open>What is shown.\<close> Durability: a confirmation is never given for edits that are not saved, a clean room
  equals its last snapshot, failures are counted and escalate, parked requests are answered once,
  and in an endless run every edit is eventually saved and every request answered, provided that the
  encoders work and an armed timer fires. The degraded-durability gauges equal the aggregate over the
  serving rooms in every interleaving of their calls.
  Content: what a room serves always passes the locator rule, and refused updates change nothing.
  Membership: gauges match, viewers cannot write, single-writer licences hold, teardown is ordered and
  happens once. The manager: one live room per document, no admission across a delete, nobody escapes
  a shutdown. The socket: everything accepted is written before the close. The stores refine a durable
  map, a document reopened after its room was released is the document that room held, the registry
  neither evicts a document under a room nor keeps one that no room holds, the RPC client strands no call, the consumer loses no delete event, the hub's subscriptions
  match its subscribers and its frames round-trip, authorization fails closed without revealing
  which documents exist, only sound configurations start, and the request log tells what was sent.

  \<^bold>\<open>Interfaces.\<close> \<open>checkpoint_store\<close> and \<open>metadata_store\<close> are the contracts of the two ports,
  \<open>durable_store\<close> and \<open>index_rows\<close> what a reopened room needs of them besides,
  \<open>attachable\<close> the contract between a RabbitMQ client and its supervisor, and the locales of the room
  and the manager state what an invariant must survive; all are interpreted on the definitions of the
  model.

  \<^bold>\<open>Bounds.\<close> The delete epoch and store revisions are 64-bit words; the properties of the manager assume
  fewer than \<open>2 ^ 64\<close> deletes. The read limit and the durations made from configured seconds wrap as
  \<^verbatim>\<open>int64\<close> does. Other counters are unbounded. Durations are integers of nanoseconds, the token bucket
  computes in rationals.

  \<^bold>\<open>Not modelled.\<close> Rounding of \<^verbatim>\<open>float64\<close>; UTF-8 validity; JSON text; log lines and op context
  durations; the Prometheus registry and its buckets; how \<^verbatim>\<open>chi\<close> matches requests and recovers from panics;
  the circuit breaker's own counters; the settings of the logger (\<^verbatim>\<open>config/logger.go\<close>); the interfaces of
  \<^verbatim>\<open>domain/port\<close>, which are parameters and locales here. They hold no state the properties depend on.
\<close>

end
